theory Spec2Isabelle
  imports Complex_Main "HOL-Library.Log_Nat"
begin

section \<open>Values shared by both unlock strategies\<close>

type_synonym path = string
type_synonym bytes = "char list"

text \<open>
  A JavaScript error value, reduced to the four properties the handlers read,
  \<open>error?.name\<close>, \<open>error?.message\<close>, \<open>error?.code\<close> and \<open>error?.stderr\<close>, and to the
  property \<open>cmd\<close> that Node sets on the error of a failed child process, which is
  printed with the error when the error is logged.
  A property that is absent (or \<open>undefined\<close>/\<open>null\<close>) is \<open>None\<close>.
\<close>

record js_error =
  err_name :: "string option"
  err_message :: "string option"
  err_code :: "string option"
  err_stderr :: "string option"
  err_cmd :: "string option"

definition mk_error :: "string \<Rightarrow> js_error" where
  "mk_error msg =
     \<lparr>err_name = Some ''Error'', err_message = Some msg, err_code = None, err_stderr = None,
      err_cmd = None\<rparr>"

definition sys_error :: "string \<Rightarrow> js_error" where
  "sys_error c =
     \<lparr>err_name = Some ''Error'', err_message = Some c, err_code = Some c, err_stderr = None,
      err_cmd = None\<rparr>"

section \<open>External-Tool strategy: the route handler \<open>POST\<close>\<close>

subsection \<open>The world the handler runs in\<close>

type_synonym fsys = "path \<rightharpoonup> bytes"

datatype body = Text string | Binary bytes

record response =
  status :: nat
  body :: body
  headers :: "(string \<times> string) list"

datatype event =
    EvWriteFile path
  | EvExec string "string list" "js_error option"
  | EvReadFile path
  | EvUnlink path
  | EvLog string js_error
  | EvRespond response

record world =
  files :: fsys
  trace :: "event list"

definition emit :: "event \<Rightarrow> world \<Rightarrow> world" where
  "emit e w = w\<lparr>trace := trace w @ [e]\<rparr>"

text \<open>
  What the handler cannot decide by itself: the temporary directory, the two values
  \<open>randomUUID()\<close> returns, the configured binary, which paths refuse a write or an
  unlink, and the external tool, a function of its command line and the file system
  that returns the error the child process ends with (if it cannot be spawned or fails)
  and the file system it leaves.
  The file-system calls follow Node's \<open>fs\<close>: a write replaces the file, a read or an
  unlink of a missing file fails with \<open>ENOENT\<close>. Every call is recorded in the trace.
\<close>

record env =
  tmpdir :: string
  uuid1 :: string
  uuid2 :: string
  QPDF_BINARY_PATH :: string
  write_denied :: "path \<Rightarrow> bool"
  unlink_denied :: "path \<Rightarrow> bool"
  execFile :: "string \<Rightarrow> string list \<Rightarrow> fsys \<Rightarrow> js_error option \<times> fsys"

definition fs_writeFile :: "env \<Rightarrow> path \<Rightarrow> bytes \<Rightarrow> world \<Rightarrow> js_error option \<times> world" where
  "fs_writeFile en p d w =
     (let w1 = emit (EvWriteFile p) w in
      if write_denied en p then (Some (sys_error ''EACCES''), w1)
      else (None, w1\<lparr>files := (files w1)(p \<mapsto> d)\<rparr>))"

definition fs_readFile :: "path \<Rightarrow> world \<Rightarrow> (js_error + bytes) \<times> world" where
  "fs_readFile p w =
     (let w1 = emit (EvReadFile p) w in
      case files w1 p of
        None \<Rightarrow> (Inl (sys_error ''ENOENT''), w1)
      | Some d \<Rightarrow> (Inr d, w1))"

definition fs_unlink :: "env \<Rightarrow> path \<Rightarrow> world \<Rightarrow> js_error option \<times> world" where
  "fs_unlink en p w =
     (let w1 = emit (EvUnlink p) w in
      if files w1 p = None then (Some (sys_error ''ENOENT''), w1)
      else if unlink_denied en p then (Some (sys_error ''EPERM''), w1)
      else (None, w1\<lparr>files := (files w1)(p := None)\<rparr>))"

text \<open>
  \<open>execFileAsync\<close> is Node's \<open>child_process.execFile\<close>, promisified. Before Node hands
  an error to the callback, whether the child could not be spawned or ended with a
  failure, it sets the property \<open>cmd\<close> of the error to the command line: the file, then
  the arguments, each after a blank.
\<close>

definition command_line :: "string \<Rightarrow> string list \<Rightarrow> string" where
  "command_line file args = file @ concat (map (\<lambda>a. '' '' @ a) args)"

definition execFileAsync :: "env \<Rightarrow> string \<Rightarrow> string list \<Rightarrow> world \<Rightarrow> js_error option \<times> world" where
  "execFileAsync en bin args w =
     (case execFile en bin args (files w) of
        (r, fs') \<Rightarrow>
          let r' = map_option (\<lambda>ex. ex\<lparr>err_cmd := Some (command_line bin args)\<rparr>) r
          in (r', emit (EvExec bin args r') (w\<lparr>files := fs'\<rparr>)))"

definition console_error :: "string \<Rightarrow> js_error \<Rightarrow> world \<Rightarrow> world" where
  "console_error label e w = emit (EvLog label e) w"

definition path_join :: "string \<Rightarrow> string \<Rightarrow> path" where
  "path_join d f = d @ ''/'' @ f"

subsection \<open>The request\<close>

text \<open>\<open>formData.get\<close> yields a \<open>File\<close>, a string or \<open>null\<close>; \<open>request.formData()\<close> may throw.\<close>

datatype form_value = FormFile bytes | FormString string | FormNull

datatype request = BadBody js_error | FormData form_value form_value

definition MAX_FILE_SIZE :: nat where
  "MAX_FILE_SIZE = 100 * 1024 * 1024"

subsection \<open>Decimal printing, for \<open>Content-Length\<close>\<close>

definition digit_char :: "nat \<Rightarrow> char" where
  "digit_char d = ''0123456789'' ! d"

fun toString :: "nat \<Rightarrow> string" where
  "toString n = (if n < 10 then [digit_char n] else toString (n div 10) @ [digit_char (n mod 10)])"

declare toString.simps [simp del]

subsection \<open>The handler\<close>

definition text_response :: "string \<Rightarrow> nat \<Rightarrow> response" where
  "text_response msg st = \<lparr>status = st, body = Text msg, headers = []\<rparr>"

definition pdf_response :: "bytes \<Rightarrow> response" where
  "pdf_response unlockedPdf =
     \<lparr>status = 200, body = Binary unlockedPdf,
      headers = [(''Content-Type'', ''application/pdf''),
                 (''Content-Disposition'', ''attachment; filename=\"unlocked.pdf\"''),
                 (''Content-Length'', toString (length unlockedPdf))]\<rparr>"

definition msg_file_required :: string where
  "msg_file_required = ''PDF file is required.''"
definition msg_password_required :: string where
  "msg_password_required = ''Password is required.''"
definition msg_empty :: string where
  "msg_empty = ''The provided PDF is empty.''"
definition msg_too_large :: string where
  "msg_too_large = ''PDF file is too large.''"
definition msg_not_found :: string where
  "msg_not_found = ''qpdf binary not found. Set QPDF_BINARY_PATH to a valid executable.''"
definition msg_failed :: string where
  "msg_failed = ''Failed to unlock PDF. Wrong password or file is not encrypted.''"
definition msg_unexpected :: string where
  "msg_unexpected = ''Unexpected error while unlocking PDF. Please try again.''"

text \<open>The outer \<open>catch\<close>: log, answer 500 with the fixed text.\<close>

definition unexpected :: "js_error \<Rightarrow> world \<Rightarrow> response \<times> world" where
  "unexpected e w =
     (text_response msg_unexpected 500, console_error ''Unexpected unlock error:'' e w)"

text \<open>\<open>error?.stderr?.toString() || "Failed to unlock PDF. ..."\<close>: an absent or empty
  \<open>stderr\<close> is falsy.\<close>

definition failure_text :: "js_error \<Rightarrow> string" where
  "failure_text e =
     (case err_stderr e of
        None \<Rightarrow> msg_failed
      | Some s \<Rightarrow> if s = [] then msg_failed else s)"

text \<open>
  The \<open>try\<close> block with its two \<open>catch\<close> clauses. The result carries the response, the
  world, and the values of the local variables \<open>inputPath\<close> and \<open>outputPath\<close> at the
  moment the block is left, which is what the \<open>finally\<close> clause reads.
\<close>

definition POST_try :: "env \<Rightarrow> request \<Rightarrow> world \<Rightarrow> (response \<times> world) \<times> path option \<times> path option" where
  "POST_try en req w =
     (case req of
        BadBody e \<Rightarrow> (unexpected e w, None, None)
      | FormData pdfFile password \<Rightarrow>
        (case pdfFile of
           FormString _ \<Rightarrow> ((text_response msg_file_required 400, w), None, None)
         | FormNull \<Rightarrow> ((text_response msg_file_required 400, w), None, None)
         | FormFile buffer \<Rightarrow>
           (case password of
              FormFile _ \<Rightarrow> ((text_response msg_password_required 400, w), None, None)
            | FormNull \<Rightarrow> ((text_response msg_password_required 400, w), None, None)
            | FormString pw \<Rightarrow>
              if length pw = 0 then ((text_response msg_password_required 400, w), None, None)
              else if length buffer = 0 then ((text_response msg_empty 400, w), None, None)
              else if length buffer > MAX_FILE_SIZE then
                ((text_response msg_too_large 400, w), None, None)
              else
                let inputPath = path_join (tmpdir en) (''pdf-input-'' @ uuid1 en @ ''.pdf'');
                    outputPath = path_join (tmpdir en) (''pdf-output-'' @ uuid2 en @ ''.pdf'')
                in (case fs_writeFile en inputPath buffer w of
                      (Some e, w1) \<Rightarrow> (unexpected e w1, Some inputPath, Some outputPath)
                    | (None, w1) \<Rightarrow>
                      (case execFileAsync en (QPDF_BINARY_PATH en)
                              [''--password='' @ pw, ''--decrypt'', inputPath, outputPath] w1 of
                         (Some error, w2) \<Rightarrow>
                           if err_code error = Some ''ENOENT'' then
                             ((text_response msg_not_found 500,
                               console_error ''qpdf binary not found:'' error w2),
                              Some inputPath, Some outputPath)
                           else
                             ((text_response (failure_text error) 400,
                               console_error ''Failed to unlock PDF:'' error w2),
                              Some inputPath, Some outputPath)
                       | (None, w2) \<Rightarrow>
                           (case fs_readFile outputPath w2 of
                              (Inl e, w3) \<Rightarrow> (unexpected e w3, Some inputPath, Some outputPath)
                            | (Inr unlockedPdf, w3) \<Rightarrow>
                                ((pdf_response unlockedPdf, w3),
                                 Some inputPath, Some outputPath)))))))"

text \<open>
  The \<open>finally\<close> clause: the paths that are set are unlinked, each inside its own
  \<open>try\<close> whose \<open>catch\<close> is empty, so the error of \<open>fs_unlink\<close> is dropped.
\<close>

fun unlink_all :: "env \<Rightarrow> path list \<Rightarrow> world \<Rightarrow> world" where
  "unlink_all en [] w = w"
| "unlink_all en (filePath # ps) w = unlink_all en ps (snd (fs_unlink en filePath w))"

definition POST_finally :: "env \<Rightarrow> path option \<Rightarrow> path option \<Rightarrow> world \<Rightarrow> world" where
  "POST_finally en inputPath outputPath w =
     unlink_all en (map the (filter (\<lambda>filePath. filePath \<noteq> None) [inputPath, outputPath])) w"

text \<open>
  The whole handler. The response reaches the caller when the promise of the
  \<open>async\<close> function settles, which is after the \<open>finally\<close> clause has run: the
  event \<open>EvRespond\<close> is the last of the trace.
\<close>

definition POST :: "env \<Rightarrow> request \<Rightarrow> world \<Rightarrow> response \<times> world" where
  "POST en req w =
     (case POST_try en req w of
        ((resp, w1), inputPath, outputPath) \<Rightarrow>
          (resp, emit (EvRespond resp) (POST_finally en inputPath outputPath w1)))"


text \<open>One attempt, observed from an empty trace on the file system \<open>fs\<close>.\<close>

definition attempt :: "env \<Rightarrow> request \<Rightarrow> fsys \<Rightarrow> response \<times> world" where
  "attempt en req fs = POST en req \<lparr>files = fs, trace = []\<rparr>"

text \<open>The two paths the handler computes for an attempt.\<close>

definition input_path :: "env \<Rightarrow> path" where
  "input_path en = path_join (tmpdir en) (''pdf-input-'' @ uuid1 en @ ''.pdf'')"

definition output_path :: "env \<Rightarrow> path" where
  "output_path en = path_join (tmpdir en) (''pdf-output-'' @ uuid2 en @ ''.pdf'')"

text \<open>Reading a trace: the responses in it, and whether a path was unlinked before the
  first response.\<close>

fun is_response :: "event \<Rightarrow> bool" where
  "is_response (EvRespond r) = True"
| "is_response _ = False"

definition unlinked_before_response :: "event list \<Rightarrow> path \<Rightarrow> bool" where
  "unlinked_before_response tr p = (EvUnlink p \<in> set (takeWhile (\<lambda>e. \<not> is_response e) tr))"

subsection \<open>Sample runs\<close>

text \<open>
  Three tools: one that decrypts into its output path; one that rejects the password
  as qpdf does, with exit code 2 and a line on \<open>stderr\<close> that names its input file, for
  which Node builds the error \<open>Command failed: \<close> followed by the command line, a line
  break and the output on \<open>stderr\<close>; and one that is not there, for which the error is
  that of the failed \<open>spawn\<close>, with an empty \<open>stderr\<close>.
\<close>

definition newline :: string where
  "newline = [CHR 0x0A]"

definition qpdf_decrypts :: "string \<Rightarrow> string list \<Rightarrow> fsys \<Rightarrow> js_error option \<times> fsys" where
  "qpdf_decrypts bin args fs = (None, fs(args ! 3 \<mapsto> ''%PDF-plain''))"

definition qpdf_invalid_password :: "string \<Rightarrow> string list \<Rightarrow> fsys \<Rightarrow> js_error option \<times> fsys" where
  "qpdf_invalid_password bin args fs =
     (let stderr = ''qpdf: '' @ args ! 2 @ '': invalid password'' @ newline in
      (Some \<lparr>err_name = Some ''Error'',
             err_message = Some (''Command failed: '' @ command_line bin args @ newline @ stderr),
             err_code = Some ''2'', err_stderr = Some stderr, err_cmd = None\<rparr>, fs))"

definition qpdf_missing :: "string \<Rightarrow> string list \<Rightarrow> fsys \<Rightarrow> js_error option \<times> fsys" where
  "qpdf_missing bin args fs =
     (Some \<lparr>err_name = Some ''Error'', err_message = Some (''spawn '' @ bin @ '' ENOENT''),
            err_code = Some ''ENOENT'', err_stderr = Some [], err_cmd = None\<rparr>, fs)"

definition sample_env :: "(string \<Rightarrow> string list \<Rightarrow> fsys \<Rightarrow> js_error option \<times> fsys) \<Rightarrow> env" where
  "sample_env tool =
     \<lparr>tmpdir = ''/tmp'', uuid1 = ''u1'', uuid2 = ''u2'', QPDF_BINARY_PATH = ''qpdf'',
      write_denied = (\<lambda>p. False), unlink_denied = (\<lambda>p. False), execFile = tool\<rparr>"

definition sample_request :: request where
  "sample_request = FormData (FormFile ''%PDF-locked'') (FormString ''hunter2'')"

definition sample_args :: "string list" where
  "sample_args = [''--password=hunter2'', ''--decrypt'', ''/tmp/pdf-input-u1.pdf'',
                  ''/tmp/pdf-output-u2.pdf'']"

text \<open>The command line of the sample request, and the errors \<open>execFileAsync\<close> rejects
  with when the tool of the sample is missing or rejects the password.\<close>

definition sample_cmd :: string where
  "sample_cmd =
     ''qpdf --password=hunter2 --decrypt /tmp/pdf-input-u1.pdf /tmp/pdf-output-u2.pdf''"

definition sample_stderr :: string where
  "sample_stderr = ''qpdf: /tmp/pdf-input-u1.pdf: invalid password'' @ newline"

definition missing_error :: js_error where
  "missing_error =
     \<lparr>err_name = Some ''Error'', err_message = Some ''spawn qpdf ENOENT'',
      err_code = Some ''ENOENT'', err_stderr = Some [], err_cmd = Some sample_cmd\<rparr>"

definition invalid_password_error :: js_error where
  "invalid_password_error =
     \<lparr>err_name = Some ''Error'',
      err_message = Some (''Command failed: '' @ sample_cmd @ newline @ sample_stderr),
      err_code = Some ''2'', err_stderr = Some sample_stderr, err_cmd = Some sample_cmd\<rparr>"

section \<open>External-Tool strategy: the Express handler \<open>app.post("/unlock")\<close>\<close>

text \<open>
  The upload middleware has stored the document under \<open>req.file.path\<close> before the
  handler runs (\<open>req.file\<close> is undefined when no file was sent);
  \<open>req.body.password\<close> may be undefined, and the template literal then prints
  \<open>undefined\<close>. The handler has no \<open>try\<close>: an exception of \<open>unlinkSync\<close> or of the
  property access leaves it uncaught, which is the first component of the result.
  What Express does with an uncaught exception is not part of the handler and is left out.
\<close>

record legacy_request =
  req_password :: "string option"
  req_file :: "path option"

definition template :: "string option \<Rightarrow> string" where
  "template v = (case v of None \<Rightarrow> ''undefined'' | Some s \<Rightarrow> s)"

definition legacy_msg_failed :: string where
  "legacy_msg_failed = ''Failed to unlock PDF. Wrong password or not encrypted.''"

text \<open>\<open>res.download(outputPath, "unlocked.pdf", cb)\<close>: the file is read and sent if it can
  be read; the callback runs afterwards in both cases.\<close>

definition res_download :: "path \<Rightarrow> string \<Rightarrow> world \<Rightarrow> world" where
  "res_download p filename w =
     (case fs_readFile p w of
        (Inl e, w1) \<Rightarrow> w1
      | (Inr d, w1) \<Rightarrow>
          emit (EvRespond \<lparr>status = 200, body = Binary d,
                  headers = [(''Content-Disposition'',
                              ''attachment; filename=\"'' @ filename @ ''\"'')]\<rparr>) w1)"

definition legacy_unlock :: "env \<Rightarrow> legacy_request \<Rightarrow> world \<Rightarrow> js_error option \<times> world" where
  "legacy_unlock en req w =
     (let password = req_password req in
      case req_file req of
        None \<Rightarrow> (Some ((mk_error ''Cannot read properties of undefined'')
                          \<lparr>err_name := Some ''TypeError''\<rparr>), w)
      | Some inputPath \<Rightarrow>
          let outputPath = inputPath @ ''-unlocked.pdf'' in
          (case execFileAsync en ''qpdf''
                  [''--password='' @ template password, ''--decrypt'', inputPath, outputPath] w of
             (Some err, w1) \<Rightarrow>
               let w2 = emit (EvLog ''Error'' err) w1;
                   w3 = emit (EvRespond (text_response legacy_msg_failed 400)) w2
               in fs_unlink en inputPath w3
           | (None, w1) \<Rightarrow>
               let w2 = res_download outputPath ''unlocked.pdf'' w1 in
               (case fs_unlink en inputPath w2 of
                  (Some e, w3) \<Rightarrow> (Some e, w3)
                | (None, w3) \<Rightarrow> fs_unlink en outputPath w3)))"

definition legacy_attempt :: "env \<Rightarrow> legacy_request \<Rightarrow> fsys \<Rightarrow> js_error option \<times> world" where
  "legacy_attempt en req fs = legacy_unlock en req \<lparr>files = fs, trace = []\<rparr>"

definition sample_legacy_request :: legacy_request where
  "sample_legacy_request = \<lparr>req_password = Some ''guess'', req_file = Some ''uploads/f1''\<rparr>"

definition sample_uploads :: fsys where
  "sample_uploads = [''uploads/f1'' \<mapsto> ''%PDF-locked'']"

definition legacy_args :: "string list" where
  "legacy_args = [''--password=guess'', ''--decrypt'', ''uploads/f1'', ''uploads/f1-unlocked.pdf'']"

definition legacy_error :: js_error where
  "legacy_error =
     \<lparr>err_name = Some ''Error'',
      err_message = Some (''Command failed: '' @ command_line ''qpdf'' legacy_args @ newline
                          @ ''qpdf: uploads/f1: invalid password'' @ newline),
      err_code = Some ''2'',
      err_stderr = Some (''qpdf: uploads/f1: invalid password'' @ newline),
      err_cmd = Some (command_line ''qpdf'' legacy_args)\<rparr>"

section \<open>Rasterize-Rebuild strategy\<close>

subsection \<open>The decoder and the page renderer, as the code sees them\<close>

record viewport =
  width :: rat
  height :: rat

record pdf_page =
  getViewport :: "nat \<Rightarrow> viewport"
  render :: "viewport \<Rightarrow> js_error option"

record pdf_document =
  numPages :: nat
  getPage :: "nat \<Rightarrow> js_error + pdf_page"

text \<open>
  A loading task either settles, or asks for a password: it calls the
  \<open>passwordCallback\<close> with a reason, and goes on from the password the callback hands
  to \<open>_verifyPassword\<close>, or from the exception the callback throws.
\<close>

datatype loading_task =
    Settled "js_error + pdf_document"
  | PasswordRequest nat "string \<Rightarrow> loading_task" "js_error \<Rightarrow> loading_task"

record pdfjs_lib =
  getDocument :: "bytes \<Rightarrow> string \<Rightarrow> loading_task"
  NEED_PASSWORD :: nat
  workerSrc :: "string option"

subsection \<open>\<open>loadPdfJs\<close>: the module-level loader\<close>

text \<open>
  The state the loader reads and writes: whether \<open>window\<close> exists, the global
  \<open>window.pdfjsLib\<close>, the module variable \<open>pdfJsLoader\<close> (the promise, recorded with
  the value it settled to) and the number of script elements appended to the page.
\<close>

record loader_state =
  window_defined :: bool
  window_pdfjsLib :: "pdfjs_lib option"
  pdfJsLoader :: "(js_error + pdfjs_lib) option"
  scripts_appended :: nat

text \<open>What happens to an appended script: \<open>onerror\<close> fires, or \<open>onload\<close> fires with
  whatever the script left in \<open>window.pdfjsLib\<close>.\<close>

datatype script_outcome = OnError | OnLoad "pdfjs_lib option"

definition PDFJS_VERSION :: string where
  "PDFJS_VERSION = ''3.11.174''"

definition worker_url :: string where
  "worker_url = ''https://cdnjs.cloudflare.com/ajax/libs/pdf.js/'' @ PDFJS_VERSION @ ''/pdf.worker.min.js''"

definition loadPdfJs :: "script_outcome \<Rightarrow> loader_state \<Rightarrow> (js_error + pdfjs_lib) \<times> loader_state" where
  "loadPdfJs outcome s =
     (if \<not> window_defined s then
        (Inl (mk_error ''PDF.js can only be loaded in the browser.''), s)
      else case window_pdfjsLib s of
        Some lib \<Rightarrow> (Inr lib, s)
      | None \<Rightarrow>
        (case pdfJsLoader s of
           Some settled \<Rightarrow> (settled, s)
         | None \<Rightarrow>
           let s1 = s\<lparr>scripts_appended := scripts_appended s + 1\<rparr> in
           (case outcome of
              OnError \<Rightarrow>
                let r = Inl (mk_error ''Failed to load PDF.js from CDN.'')
                in (r, s1\<lparr>pdfJsLoader := Some r\<rparr>)
            | OnLoad None \<Rightarrow>
                let r = Inl (mk_error ''PDF.js failed to load.'')
                in (r, s1\<lparr>pdfJsLoader := Some r\<rparr>)
            | OnLoad (Some lib) \<Rightarrow>
                let pdfjsLib = lib\<lparr>workerSrc := Some worker_url\<rparr>;
                    r = Inr pdfjsLib
                in (r, s1\<lparr>window_pdfjsLib := Some pdfjsLib, pdfJsLoader := Some r\<rparr>))))"

text \<open>A first call followed by later ones, each with the outcome its script load
  would have if it started one.\<close>

fun loadPdfJs_calls ::
  "script_outcome list \<Rightarrow> loader_state \<Rightarrow> (js_error + pdfjs_lib) list \<times> loader_state" where
  "loadPdfJs_calls [] s = ([], s)"
| "loadPdfJs_calls (outcome # later) s =
     (case loadPdfJs outcome s of
        (r, s1) \<Rightarrow> (case loadPdfJs_calls later s1 of (rs, s2) \<Rightarrow> (r # rs, s2)))"

subsection \<open>\<open>loadEncryptedPdf\<close>\<close>

definition buildPasswordError :: js_error where
  "buildPasswordError = mk_error ''Incorrect password. Please verify and try again.''"

text \<open>The test \<open>/password/gi.test(s)\<close>: some substring of \<open>s\<close> equals \<open>password\<close> up to
  the case of ASCII letters.\<close>

definition lower :: "char \<Rightarrow> char" where
  "lower c =
     (case map_of (zip ''ABCDEFGHIJKLMNOPQRSTUVWXYZ'' ''abcdefghijklmnopqrstuvwxyz'') c of
        None \<Rightarrow> c
      | Some l \<Rightarrow> l)"

fun contains :: "string \<Rightarrow> string \<Rightarrow> bool" where
  "contains pat [] = (pat = [])"
| "contains pat (c # cs) = (take (length pat) (c # cs) = pat \<or> contains pat cs)"

definition password_test :: "string \<Rightarrow> bool" where
  "password_test s = contains ''password'' (map lower s)"

text \<open>\<open>error?.message || ""\<close>.\<close>

definition or_empty :: "string option \<Rightarrow> string" where
  "or_empty v = (case v of None \<Rightarrow> [] | Some m \<Rightarrow> m)"

text \<open>Awaiting the loading task, with the \<open>passwordCallback\<close> of the source.\<close>

primrec await_task :: "nat \<Rightarrow> string \<Rightarrow> js_error \<Rightarrow> loading_task \<Rightarrow> js_error + pdf_document" where
  "await_task need password passwordError (Settled r) = r"
| "await_task need password passwordError (PasswordRequest reason verifyPassword thrown) =
     (if reason = need then await_task need password passwordError (verifyPassword password)
      else await_task need password passwordError (thrown passwordError))"

text \<open>
  The comparison \<open>error === passwordError\<close> is one of object identity; here it is
  equality of the four properties. The two agree on the result: an error with the
  properties of \<open>passwordError\<close> has a message that passes the third test.
\<close>

definition loadEncryptedPdf :: "pdfjs_lib \<Rightarrow> bytes \<Rightarrow> string \<Rightarrow> js_error + pdf_document" where
  "loadEncryptedPdf pdfjsLib data password =
     (let passwordError = buildPasswordError;
          loadingTask = getDocument pdfjsLib data password
      in case await_task (NEED_PASSWORD pdfjsLib) password passwordError loadingTask of
           Inr pdfDocument \<Rightarrow> Inr pdfDocument
         | Inl error \<Rightarrow>
             if error = passwordError
                \<or> err_name error = Some ''PasswordException''
                \<or> password_test (or_empty (err_message error))
             then Inl passwordError
             else Inl error)"

subsection \<open>\<open>unlockPdfInBrowser\<close>\<close>

record out_page =
  page_width :: rat
  page_height :: rat
  image :: bytes
  image_x :: rat
  image_y :: rat
  image_width :: rat
  image_height :: rat

record blob =
  blob_parts :: bytes
  blob_type :: string

text \<open>
  The browser around the call: whether the canvas made for a page yields a 2-D context,
  the PNG bytes read back from that canvas, whether \<open>embedPng\<close> accepts them, and the
  serialisation \<open>pdfDoc.save()\<close>; and the outcome of a script load, should the loader
  start one.
\<close>

record browser_env =
  getContext :: "nat \<Rightarrow> bool"
  toDataURL :: "nat \<Rightarrow> js_error + bytes"
  embedPng :: "bytes \<Rightarrow> js_error option"
  save :: "out_page list \<Rightarrow> js_error + bytes"
  script :: script_outcome

text \<open>The state a call changes: the loader, the events the progress callback has been
  called with, the calls made to the decoder's \<open>getDocument\<close>, and the page numbers
  passed to \<open>pdfDocument.getPage\<close>.\<close>

record browser_state =
  loader :: loader_state
  progress :: "(int \<times> string) list"
  getDocument_calls :: "(bytes \<times> string) list"
  getPage_calls :: "nat list"

text \<open>
  \<open>type ProgressUpdater = (progress: number, step: string) => void\<close>: the caller's
  callback. What it does with an event is its own business, except that it may throw:
  the function gives the exception, if any. The parameter \<open>updateProgress\<close> is optional.
  Within one call no two events are equal, so a callback whose behaviour depends on
  what it has received before is a function of the event as well.
\<close>

type_synonym ProgressUpdater = "int \<Rightarrow> string \<Rightarrow> js_error option"

text \<open>\<open>updateProgress?.(p, step)\<close>: nothing happens when no callback was passed;
  otherwise the callback is called, and its exception is the exception of the
  expression.\<close>

definition updateProgress ::
  "ProgressUpdater option \<Rightarrow> int \<Rightarrow> string \<Rightarrow> browser_state \<Rightarrow> js_error option \<times> browser_state" where
  "updateProgress sink p step st =
     (case sink of
        None \<Rightarrow> (None, st)
      | Some f \<Rightarrow> (f p step, st\<lparr>progress := progress st @ [(p, step)]\<rparr>))"

subsection \<open>JavaScript numbers\<close>

text \<open>
  A JavaScript number is an IEEE 754 double. A finite double is represented here by
  the rational it denotes. \<open>to_double\<close> rounds a rational to the nearest double, a tie
  to the one with the even significand: \<open>exponent x\<close> is the position of the leading
  bit of a positive \<open>x\<close> (the difference of the bit lengths of the numerator and the
  denominator, or one less), the spacing of the doubles around \<open>x\<close> is 2 to the
  power of that exponent less 52, and the exponent is not taken below -1022, where the
  subnormal numbers begin. Overflow to \<open>Infinity\<close> is left out: no number computed here
  exceeds 50. The operators \<open>/\<close> and \<open>*\<close> round the exact quotient and product.
\<close>

definition exponent :: "rat \<Rightarrow> int" where
  "exponent x =
     (case quotient_of x of
        (p, q) \<Rightarrow> let e = bitlen p - bitlen q in if 2 powi e \<le> x then e else e - 1)"

definition round_half_even :: "rat \<Rightarrow> int" where
  "round_half_even x =
     (let n = \<lfloor>x\<rfloor>; d = x - of_int n
      in if d < 1 / 2 then n else if 1 / 2 < d then n + 1 else if even n then n else n + 1)"

definition to_double :: "rat \<Rightarrow> rat" where
  "to_double x =
     (if x = 0 then 0
      else let e = max (exponent \<bar>x\<bar>) (- 1022); ulp = 2 powi (e - 52)
           in of_int (round_half_even (x / ulp)) * ulp)"

definition double_div :: "rat \<Rightarrow> rat \<Rightarrow> rat" where
  "double_div x y = to_double (x / y)"

definition double_mul :: "rat \<Rightarrow> rat \<Rightarrow> rat" where
  "double_mul x y = to_double (x * y)"

text \<open>\<open>Math.round\<close> gives the nearest integer, a half rounded up; on a double it is
  exact.\<close>

definition Math_round :: "rat \<Rightarrow> int" where
  "Math_round x = \<lfloor>x + 1 / 2\<rfloor>"

text \<open>\<open>30 + Math.round((pageNumber / totalPages) * 50)\<close>. The page number and the page
  count are integers below \<open>2 ^ 53\<close>, which doubles hold exactly, and so is the sum.\<close>

definition page_progress :: "nat \<Rightarrow> nat \<Rightarrow> int" where
  "page_progress pageNumber totalPages =
     30 + Math_round (double_mul (double_div (of_nat pageNumber) (of_nat totalPages)) 50)"

subsection \<open>The page loop and the call\<close>

text \<open>The step label of a page, \<open>`Rendering page ${pageNumber} of ${totalPages}...`\<close>.\<close>

definition page_label :: "nat \<Rightarrow> nat \<Rightarrow> string" where
  "page_label pageNumber totalPages =
     ''Rendering page '' @ toString pageNumber @ '' of '' @ toString totalPages @ ''...''"

text \<open>The body of the \<open>for\<close> loop after the progress event, for one page: the new
  output page, or the exception.\<close>

definition render_page :: "browser_env \<Rightarrow> pdf_document \<Rightarrow> nat \<Rightarrow> js_error + out_page" where
  "render_page en pdfDocument pageNumber =
     (case getPage pdfDocument pageNumber of
        Inl e \<Rightarrow> Inl e
      | Inr page \<Rightarrow>
          let viewport = getViewport page 2 in
          if \<not> getContext en pageNumber then
            Inl (mk_error ''Canvas rendering is not supported in this environment.'')
          else
            (case render page viewport of
               Some e \<Rightarrow> Inl e
             | None \<Rightarrow>
               (case toDataURL en pageNumber of
                  Inl e \<Rightarrow> Inl e
                | Inr imageBytes \<Rightarrow>
                  (case embedPng en imageBytes of
                     Some e \<Rightarrow> Inl e
                   | None \<Rightarrow>
                       Inr \<lparr>page_width = width viewport, page_height = height viewport,
                            image = imageBytes, image_x = 0, image_y = 0,
                            image_width = width viewport, image_height = height viewport\<rparr>))))"

function render_pages ::
  "browser_env \<Rightarrow> ProgressUpdater option \<Rightarrow> pdf_document \<Rightarrow> nat \<Rightarrow> nat \<Rightarrow> out_page list
     \<Rightarrow> browser_state \<Rightarrow> (js_error + out_page list) \<times> browser_state" where
  "render_pages en sink pdfDocument pageNumber totalPages pdfDoc st =
     (if pageNumber \<le> totalPages then
        (case updateProgress sink (page_progress pageNumber totalPages)
                (page_label pageNumber totalPages) st of
           (Some e, st1) \<Rightarrow> (Inl e, st1)
         | (None, st1) \<Rightarrow>
             let st2 = st1\<lparr>getPage_calls := getPage_calls st1 @ [pageNumber]\<rparr>
             in (case render_page en pdfDocument pageNumber of
                   Inl e \<Rightarrow> (Inl e, st2)
                 | Inr pdfPage \<Rightarrow>
                     render_pages en sink pdfDocument (pageNumber + 1) totalPages
                       (pdfDoc @ [pdfPage]) st2))
      else (Inr pdfDoc, st))"
  by pat_completeness auto
termination
  by (relation "measure (\<lambda>(en, sink, pdfDocument, pageNumber, totalPages, pdfDoc, st).
                  totalPages + 1 - pageNumber)") auto

declare render_pages.simps [simp del]

definition msg_unable :: string where
  "msg_unable = ''Unable to open the encrypted PDF with the provided password.''"

text \<open>\<open>error?.message\<close> as a condition: present and not the empty string.\<close>

definition truthy :: "string option \<Rightarrow> bool" where
  "truthy v = (case v of None \<Rightarrow> False | Some s \<Rightarrow> s \<noteq> [])"

definition unlockPdfInBrowser ::
  "browser_env \<Rightarrow> js_error + bytes \<Rightarrow> string \<Rightarrow> ProgressUpdater option \<Rightarrow> browser_state
     \<Rightarrow> (js_error + blob) \<times> browser_state" where
  "unlockPdfInBrowser en file password sink st =
     (case file of
        Inl e \<Rightarrow> (Inl e, st)
      | Inr arrayBuffer \<Rightarrow>
        (case loadPdfJs (script en) (loader st) of
           (Inl e, l1) \<Rightarrow> (Inl e, st\<lparr>loader := l1\<rparr>)
         | (Inr pdfjsLib, l1) \<Rightarrow>
           (case updateProgress sink 30 ''Decrypting PDF...'' (st\<lparr>loader := l1\<rparr>) of
              (Some e, st1) \<Rightarrow> (Inl e, st1)
            | (None, st1) \<Rightarrow>
              let st2 = st1\<lparr>getDocument_calls := getDocument_calls st1 @ [(arrayBuffer, password)]\<rparr>
              in (case loadEncryptedPdf pdfjsLib arrayBuffer password of
                    Inl error \<Rightarrow>
                      if truthy (err_message error) then (Inl error, st2)
                      else (Inl (mk_error msg_unable), st2)
                  | Inr pdfDocument \<Rightarrow>
                      let totalPages = numPages pdfDocument in
                      (case render_pages en sink pdfDocument 1 totalPages [] st2 of
                         (Inl e, st3) \<Rightarrow> (Inl e, st3)
                       | (Inr pdfDoc, st3) \<Rightarrow>
                         (case updateProgress sink 90 ''Preparing unlocked PDF...'' st3 of
                            (Some e, st4) \<Rightarrow> (Inl e, st4)
                          | (None, st4) \<Rightarrow>
                            (case save en pdfDoc of
                               Inl e \<Rightarrow> (Inl e, st4)
                             | Inr unlockedBytes \<Rightarrow>
                               (case updateProgress sink 100 ''Complete!'' st4 of
                                  (Some e, st5) \<Rightarrow> (Inl e, st5)
                                | (None, st5) \<Rightarrow>
                                    (Inr \<lparr>blob_parts = unlockedBytes,
                                          blob_type = ''application/pdf''\<rparr>, st5)))))))))"


subsection \<open>Reading the progress events, and sample runs\<close>

text \<open>The per-page events of the pages \<open>k\<close> up to, not including, \<open>j\<close>.\<close>

definition page_events :: "nat \<Rightarrow> nat \<Rightarrow> nat \<Rightarrow> (int \<times> string) list" where
  "page_events totalPages k j =
     map (\<lambda>i. (page_progress i totalPages, page_label i totalPages)) [k..<j]"

text \<open>The page numbers from \<open>k\<close> up to, not including, \<open>j\<close>.\<close>

definition page_numbers :: "nat \<Rightarrow> nat \<Rightarrow> nat list" where
  "page_numbers k j = [k..<j]"

text \<open>The exception of \<open>updateProgress?.(p, step)\<close>, if it throws, and the events of a
  list that reach the callback (none when no callback was passed).\<close>

definition sink_exception :: "ProgressUpdater option \<Rightarrow> int \<Rightarrow> string \<Rightarrow> js_error option" where
  "sink_exception sink p step = (case sink of None \<Rightarrow> None | Some f \<Rightarrow> f p step)"

definition delivered :: "ProgressUpdater option \<Rightarrow> (int \<times> string) list \<Rightarrow> (int \<times> string) list" where
  "delivered sink evs = (case sink of None \<Rightarrow> [] | Some f \<Rightarrow> evs)"

text \<open>One call, observed from a progress log that is empty.\<close>

definition fresh :: "browser_state \<Rightarrow> browser_state" where
  "fresh st = st\<lparr>progress := []\<rparr>"

definition unlock_observed ::
  "browser_env \<Rightarrow> js_error + bytes \<Rightarrow> string \<Rightarrow> ProgressUpdater option \<Rightarrow> browser_state
     \<Rightarrow> (js_error + blob) \<times> browser_state" where
  "unlock_observed en file password sink st = unlockPdfInBrowser en file password sink (fresh st)"

definition percentages :: "browser_state \<Rightarrow> int list" where
  "percentages st = map fst (progress st)"

text \<open>Two callbacks: one that never throws, and one that throws when it is told that
  the work is complete.\<close>

definition silent :: ProgressUpdater where
  "silent p step = None"

definition sink_error :: js_error where
  "sink_error = mk_error ''Cannot update the progress bar.''"

definition throws_at_100 :: ProgressUpdater where
  "throws_at_100 p step = (if p = 100 then Some sink_error else None)"

text \<open>A decoder that opens any non-empty document of \<open>n\<close> US-Letter pages with the
  password \<open>hunter2\<close>, and otherwise reports an incorrect password the way PDF.js does.\<close>

definition sample_page :: pdf_page where
  "sample_page =
     \<lparr>getViewport = (\<lambda>scale. \<lparr>width = of_nat scale * 612, height = of_nat scale * 792\<rparr>),
      render = (\<lambda>viewport. None)\<rparr>"

definition sample_document :: "nat \<Rightarrow> pdf_document" where
  "sample_document n =
     \<lparr>numPages = n,
      getPage = (\<lambda>i. if 1 \<le> i \<and> i \<le> n then Inr sample_page
                     else Inl (mk_error ''Invalid page request.''))\<rparr>"

definition password_exception :: js_error where
  "password_exception =
     \<lparr>err_name = Some ''PasswordException'', err_message = Some ''Incorrect Password'',
      err_code = Some ''2'', err_stderr = None, err_cmd = None\<rparr>"

definition invalid_pdf_exception :: js_error where
  "invalid_pdf_exception =
     \<lparr>err_name = Some ''InvalidPDFException'',
      err_message = Some ''The PDF file is empty, i.e. its size is zero bytes.'',
      err_code = None, err_stderr = None, err_cmd = None\<rparr>"

definition sample_lib :: "nat \<Rightarrow> pdfjs_lib" where
  "sample_lib n =
     \<lparr>getDocument = (\<lambda>data password.
        if data = [] then Settled (Inl invalid_pdf_exception)
        else if password = ''hunter2'' then Settled (Inr (sample_document n))
        else Settled (Inl password_exception)),
      NEED_PASSWORD = 1, workerSrc = None\<rparr>"

definition sample_browser :: "nat \<Rightarrow> browser_env" where
  "sample_browser n =
     \<lparr>getContext = (\<lambda>pageNumber. True),
      toDataURL = (\<lambda>pageNumber. Inr (''PNG'' @ toString pageNumber)),
      embedPng = (\<lambda>imageBytes. None),
      save = (\<lambda>pdfDoc. Inr (''%PDF-pages-'' @ toString (length pdfDoc))),
      script = OnLoad (Some (sample_lib n))\<rparr>"

definition sample_loader :: loader_state where
  "sample_loader =
     \<lparr>window_defined = True, window_pdfjsLib = None, pdfJsLoader = None, scripts_appended = 0\<rparr>"

definition sample_state :: browser_state where
  "sample_state =
     \<lparr>loader = sample_loader, progress = [], getDocument_calls = [], getPage_calls = []\<rparr>"

text \<open>A decoder that uses the \<open>passwordCallback\<close>: it asks with \<open>NEED_PASSWORD\<close> (1),
  and asks again with \<open>INCORRECT_PASSWORD\<close> (2) when the password it is handed is wrong;
  an exception of the callback becomes the rejection of the loading task.\<close>

definition asking_lib :: "nat \<Rightarrow> pdfjs_lib" where
  "asking_lib n =
     \<lparr>getDocument = (\<lambda>data password.
        PasswordRequest 1
          (\<lambda>pwd. if pwd = ''hunter2'' then Settled (Inr (sample_document n))
                 else PasswordRequest 2 (\<lambda>pwd'. Settled (Inl password_exception))
                        (\<lambda>e. Settled (Inl e)))
          (\<lambda>e. Settled (Inl e))),
      NEED_PASSWORD = 1, workerSrc = None\<rparr>"

definition asking_browser :: "nat \<Rightarrow> browser_env" where
  "asking_browser n = (sample_browser n)\<lparr>script := OnLoad (Some (asking_lib n))\<rparr>"

text \<open>A decoder whose loading task rejects with an error that has a name and no
  message.\<close>

definition nameless_error :: js_error where
  "nameless_error =
     \<lparr>err_name = Some ''UnknownErrorException'', err_message = None, err_code = None,
      err_stderr = None, err_cmd = None\<rparr>"

definition nameless_lib :: pdfjs_lib where
  "nameless_lib =
     \<lparr>getDocument = (\<lambda>data password. Settled (Inl nameless_error)),
      NEED_PASSWORD = 1, workerSrc = None\<rparr>"

definition nameless_browser :: browser_env where
  "nameless_browser = (sample_browser 3)\<lparr>script := OnLoad (Some nameless_lib)\<rparr>"

text \<open>A document of \<open>n\<close> pages whose page \<open>k\<close> cannot be rendered: its render task
  rejects. And a browser in which \<open>embedPng\<close> throws for the image of page \<open>k\<close>.\<close>

definition render_error :: js_error where
  "render_error =
     \<lparr>err_name = Some ''RenderingCancelledException'', err_message = Some ''Rendering failed.'',
      err_code = None, err_stderr = None, err_cmd = None\<rparr>"

definition faulty_document :: "nat \<Rightarrow> nat \<Rightarrow> pdf_document" where
  "faulty_document n k =
     \<lparr>numPages = n,
      getPage = (\<lambda>i. if i = k then Inr (sample_page\<lparr>render := (\<lambda>viewport. Some render_error)\<rparr>)
                     else if 1 \<le> i \<and> i \<le> n then Inr sample_page
                     else Inl (mk_error ''Invalid page request.''))\<rparr>"

definition faulty_lib :: "nat \<Rightarrow> nat \<Rightarrow> pdfjs_lib" where
  "faulty_lib n k =
     \<lparr>getDocument = (\<lambda>data password. Settled (Inr (faulty_document n k))),
      NEED_PASSWORD = 1, workerSrc = None\<rparr>"

definition faulty_browser :: "nat \<Rightarrow> nat \<Rightarrow> browser_env" where
  "faulty_browser n k = (sample_browser n)\<lparr>script := OnLoad (Some (faulty_lib n k))\<rparr>"

definition embed_error :: js_error where
  "embed_error = mk_error ''The input is not a PNG file!''"

definition bad_png_browser :: "nat \<Rightarrow> nat \<Rightarrow> browser_env" where
  "bad_png_browser n k =
     (sample_browser n)\<lparr>embedPng := (\<lambda>imageBytes. if imageBytes = ''PNG'' @ toString k
                                                    then Some embed_error else None)\<rparr>"

section \<open>The fixed texts of the failures\<close>

text \<open>The texts the route handler writes into a failure response by itself, the labels
  it logs under, and the errors \<open>unlockPdfInBrowser\<close> and its helpers construct.\<close>

definition fixed_messages :: "string set" where
  "fixed_messages = {msg_file_required, msg_password_required, msg_empty, msg_too_large,
                     msg_not_found, msg_failed, msg_unexpected}"

definition fixed_labels :: "string set" where
  "fixed_labels = {''qpdf binary not found:'', ''Failed to unlock PDF:'', ''Unexpected unlock error:''}"

definition fixed_errors :: "js_error set" where
  "fixed_errors =
     {mk_error ''PDF.js can only be loaded in the browser.'',
      mk_error ''Failed to load PDF.js from CDN.'',
      mk_error ''PDF.js failed to load.'',
      buildPasswordError,
      mk_error msg_unable,
      mk_error ''Canvas rendering is not supported in this environment.''}"

section \<open>Properties of the route handler\<close>

subsection \<open>Traces and the shapes of an attempt\<close>

lemma failure_text_err_cmd [simp]: "failure_text (e\<lparr>err_cmd := c\<rparr>) = failure_text e"
  by (simp add: failure_text_def)

lemma trace_emit [simp]: "trace (emit e w) = trace w @ [e]"
  by (simp add: emit_def)

lemma files_emit [simp]: "files (emit e w) = files w"
  by (simp add: emit_def)

lemma trace_fs_unlink [simp]: "trace (snd (fs_unlink en p w)) = trace w @ [EvUnlink p]"
  by (simp add: fs_unlink_def Let_def)

lemma trace_unlink_all: "trace (unlink_all en ps w) = trace w @ map EvUnlink ps"
  by (induction ps arbitrary: w) simp_all

lemma POST_try_started:
  assumes "pw \<noteq> []" "buffer \<noteq> []" "length buffer \<le> MAX_FILE_SIZE"
  shows "POST_try en (FormData (FormFile buffer) (FormString pw)) w =
     (let inputPath = path_join (tmpdir en) (''pdf-input-'' @ uuid1 en @ ''.pdf'');
          outputPath = path_join (tmpdir en) (''pdf-output-'' @ uuid2 en @ ''.pdf'')
      in (case fs_writeFile en inputPath buffer w of
            (Some e, w1) \<Rightarrow> (unexpected e w1, Some inputPath, Some outputPath)
          | (None, w1) \<Rightarrow>
            (case execFileAsync en (QPDF_BINARY_PATH en)
                    [''--password='' @ pw, ''--decrypt'', inputPath, outputPath] w1 of
               (Some error, w2) \<Rightarrow>
                 if err_code error = Some ''ENOENT'' then
                   ((text_response msg_not_found 500,
                     console_error ''qpdf binary not found:'' error w2),
                    Some inputPath, Some outputPath)
                 else
                   ((text_response (failure_text error) 400,
                     console_error ''Failed to unlock PDF:'' error w2),
                    Some inputPath, Some outputPath)
             | (None, w2) \<Rightarrow>
                 (case fs_readFile outputPath w2 of
                    (Inl e, w3) \<Rightarrow> (unexpected e w3, Some inputPath, Some outputPath)
                  | (Inr unlockedPdf, w3) \<Rightarrow>
                      ((pdf_response unlockedPdf, w3),
                       Some inputPath, Some outputPath)))))"
  using assms by (simp add: POST_try_def)

lemma attempt_cases [case_names bad_body rejected write_failed tool_missing tool_failed read_failed unlocked]:
  fixes en :: env and req :: request and fs :: fsys
  defines "i \<equiv> input_path en" and "out \<equiv> output_path en"
    and "cmd \<equiv> \<lambda>pw. command_line (QPDF_BINARY_PATH en)
                         [''--password='' @ pw, ''--decrypt'', input_path en, output_path en]"
  obtains
    (bad_body) e where "req = BadBody e"
      "attempt en req fs = (text_response msg_unexpected 500,
         \<lparr>files = fs, trace = [EvLog ''Unexpected unlock error:'' e,
                               EvRespond (text_response msg_unexpected 500)]\<rparr>)"
  | (rejected) m where
      "m \<in> {msg_file_required, msg_password_required, msg_empty, msg_too_large}"
      "attempt en req fs = (text_response m 400,
         \<lparr>files = fs, trace = [EvRespond (text_response m 400)]\<rparr>)"
      "\<forall>buffer pw. req = FormData (FormFile buffer) (FormString pw) \<longrightarrow>
           pw = [] \<or> buffer = [] \<or> length buffer > MAX_FILE_SIZE"
  | (write_failed) buffer pw where "req = FormData (FormFile buffer) (FormString pw)"
      "pw \<noteq> []" "buffer \<noteq> []" "length buffer \<le> MAX_FILE_SIZE" "write_denied en i"
      "attempt en req fs = (text_response msg_unexpected 500,
         emit (EvRespond (text_response msg_unexpected 500))
           (POST_finally en (Some i) (Some out)
              \<lparr>files = fs, trace = [EvWriteFile i,
                 EvLog ''Unexpected unlock error:'' (sys_error ''EACCES'')]\<rparr>))"
  | (tool_missing) buffer pw error fs' where "req = FormData (FormFile buffer) (FormString pw)"
      "pw \<noteq> []" "buffer \<noteq> []" "length buffer \<le> MAX_FILE_SIZE" "\<not> write_denied en i"
      "execFile en (QPDF_BINARY_PATH en) [''--password='' @ pw, ''--decrypt'', i, out]
           (fs(i \<mapsto> buffer)) = (Some error, fs')"
      "err_code error = Some ''ENOENT''"
      "attempt en req fs = (text_response msg_not_found 500,
         emit (EvRespond (text_response msg_not_found 500))
           (POST_finally en (Some i) (Some out)
              \<lparr>files = fs', trace = [EvWriteFile i,
                 EvExec (QPDF_BINARY_PATH en) [''--password='' @ pw, ''--decrypt'', i, out]
                   (Some (error\<lparr>err_cmd := Some (cmd pw)\<rparr>)),
                 EvLog ''qpdf binary not found:'' (error\<lparr>err_cmd := Some (cmd pw)\<rparr>)]\<rparr>))"
  | (tool_failed) buffer pw error fs' where "req = FormData (FormFile buffer) (FormString pw)"
      "pw \<noteq> []" "buffer \<noteq> []" "length buffer \<le> MAX_FILE_SIZE" "\<not> write_denied en i"
      "execFile en (QPDF_BINARY_PATH en) [''--password='' @ pw, ''--decrypt'', i, out]
           (fs(i \<mapsto> buffer)) = (Some error, fs')"
      "err_code error \<noteq> Some ''ENOENT''"
      "attempt en req fs = (text_response (failure_text error) 400,
         emit (EvRespond (text_response (failure_text error) 400))
           (POST_finally en (Some i) (Some out)
              \<lparr>files = fs', trace = [EvWriteFile i,
                 EvExec (QPDF_BINARY_PATH en) [''--password='' @ pw, ''--decrypt'', i, out]
                   (Some (error\<lparr>err_cmd := Some (cmd pw)\<rparr>)),
                 EvLog ''Failed to unlock PDF:'' (error\<lparr>err_cmd := Some (cmd pw)\<rparr>)]\<rparr>))"
  | (read_failed) buffer pw fs' where "req = FormData (FormFile buffer) (FormString pw)"
      "pw \<noteq> []" "buffer \<noteq> []" "length buffer \<le> MAX_FILE_SIZE" "\<not> write_denied en i"
      "execFile en (QPDF_BINARY_PATH en) [''--password='' @ pw, ''--decrypt'', i, out]
           (fs(i \<mapsto> buffer)) = (None, fs')"
      "fs' out = None"
      "attempt en req fs = (text_response msg_unexpected 500,
         emit (EvRespond (text_response msg_unexpected 500))
           (POST_finally en (Some i) (Some out)
              \<lparr>files = fs', trace = [EvWriteFile i,
                 EvExec (QPDF_BINARY_PATH en) [''--password='' @ pw, ''--decrypt'', i, out] None,
                 EvReadFile out,
                 EvLog ''Unexpected unlock error:'' (sys_error ''ENOENT'')]\<rparr>))"
  | (unlocked) buffer pw fs' unlockedPdf where "req = FormData (FormFile buffer) (FormString pw)"
      "pw \<noteq> []" "buffer \<noteq> []" "length buffer \<le> MAX_FILE_SIZE" "\<not> write_denied en i"
      "execFile en (QPDF_BINARY_PATH en) [''--password='' @ pw, ''--decrypt'', i, out]
           (fs(i \<mapsto> buffer)) = (None, fs')"
      "fs' out = Some unlockedPdf"
      "attempt en req fs = (pdf_response unlockedPdf,
         emit (EvRespond (pdf_response unlockedPdf))
           (POST_finally en (Some i) (Some out)
              \<lparr>files = fs', trace = [EvWriteFile i,
                 EvExec (QPDF_BINARY_PATH en) [''--password='' @ pw, ''--decrypt'', i, out] None,
                 EvReadFile out]\<rparr>))"
proof (cases req)
  case (BadBody e)
  then show ?thesis
    using bad_body[of e]
    by (simp add: attempt_def POST_def POST_try_def unexpected_def console_error_def
          POST_finally_def emit_def)
next
  case (FormData pdfFile password)
  have rej: "\<And>m. m \<in> {msg_file_required, msg_password_required, msg_empty, msg_too_large}
     \<Longrightarrow> POST_try en req \<lparr>files = fs, trace = []\<rparr> = ((text_response m 400, \<lparr>files = fs, trace = []\<rparr>), None, None)
     \<Longrightarrow> \<forall>buffer pw. req = FormData (FormFile buffer) (FormString pw) \<longrightarrow>
           pw = [] \<or> buffer = [] \<or> length buffer > MAX_FILE_SIZE
     \<Longrightarrow> thesis"
    subgoal for m
      using rejected[of m]
      by (simp add: attempt_def POST_def POST_finally_def emit_def)
    done
  show ?thesis
  proof (cases pdfFile)
    case (FormString s)
    show ?thesis
      by (rule rej[of msg_file_required]) (simp_all add: POST_try_def FormData FormString)
  next
    case FormNull
    show ?thesis
      by (rule rej[of msg_file_required]) (simp_all add: POST_try_def FormData FormNull)
  next
    case (FormFile buffer)
    show ?thesis
    proof (cases password)
      case (FormFile x)
      show ?thesis
        by (rule rej[of msg_password_required])
           (simp_all add: POST_try_def FormData FormFile \<open>pdfFile = FormFile buffer\<close>)
    next
      case FormNull
      show ?thesis
        by (rule rej[of msg_password_required])
           (simp_all add: POST_try_def FormData FormNull \<open>pdfFile = FormFile buffer\<close>)
    next
      case (FormString pw)
      note req = FormData \<open>pdfFile = FormFile buffer\<close> FormString
      have req_eq: "req = FormData (FormFile buffer) (FormString pw)" by (simp add: req)
      show ?thesis
      proof (cases "pw \<noteq> [] \<and> buffer \<noteq> [] \<and> length buffer \<le> MAX_FILE_SIZE")
        case False
        then consider "pw = []" | "pw \<noteq> []" "buffer = []"
          | "pw \<noteq> []" "buffer \<noteq> []" "length buffer > MAX_FILE_SIZE"
          by force
        then show ?thesis
        proof cases
          case 1
          show ?thesis
            by (rule rej[of msg_password_required]) (simp_all add: POST_try_def req 1)
        next
          case 2
          show ?thesis
            by (rule rej[of msg_empty]) (simp_all add: POST_try_def req 2)
        next
          case 3
          show ?thesis
            by (rule rej[of msg_too_large]) (simp_all add: POST_try_def req 3)
        qed
      next
        case True
        then have v: "pw \<noteq> []" "buffer \<noteq> []" "length buffer \<le> MAX_FILE_SIZE" by simp_all
        note started = POST_try_started[OF v, of en "\<lparr>files = fs, trace = []\<rparr>", folded input_path_def output_path_def, folded i_def out_def, unfolded Let_def]
        show ?thesis
        proof (cases "write_denied en i")
          case True
          show ?thesis
            using write_failed[OF req_eq v True] True
            by (simp add: req attempt_def POST_def started fs_writeFile_def emit_def unexpected_def
                 console_error_def)
        next
          case wr: False
          obtain r fs' where ex: "execFile en (QPDF_BINARY_PATH en)
              [''--password='' @ pw, ''--decrypt'', i, out] (fs(i \<mapsto> buffer)) = (r, fs')"
            by (cases "execFile en (QPDF_BINARY_PATH en)
              [''--password='' @ pw, ''--decrypt'', i, out] (fs(i \<mapsto> buffer))") 
          show ?thesis
          proof (cases r)
            case (Some error)
            show ?thesis
            proof (cases "err_code error = Some ''ENOENT''")
              case True
              show ?thesis
                using tool_missing[OF req_eq v wr ex[unfolded Some] True] wr ex Some True
                by (simp add: req attempt_def POST_def started fs_writeFile_def emit_def
                   execFileAsync_def console_error_def cmd_def i_def out_def Let_def)
            next
              case False
              show ?thesis
                using tool_failed[OF req_eq v wr ex[unfolded Some] False] wr ex Some False
                by (simp add: req attempt_def POST_def started fs_writeFile_def emit_def
                   execFileAsync_def console_error_def cmd_def i_def out_def failure_text_def
                   Let_def)
            qed
          next
            case None
            show ?thesis
            proof (cases "fs' out")
              case fn: None
              show ?thesis
                using read_failed[OF req_eq v wr ex[unfolded None] fn] wr ex None fn
                by (simp add: req attempt_def POST_def started fs_writeFile_def emit_def
                   execFileAsync_def console_error_def fs_readFile_def unexpected_def)
            next
              case (Some unlockedPdf)
              show ?thesis
                using unlocked[OF req_eq v wr ex[unfolded None] Some] wr ex None Some
                by (simp add: req attempt_def POST_def started fs_writeFile_def emit_def
                   execFileAsync_def console_error_def fs_readFile_def unexpected_def)
            qed
          qed
        qed
      qed
    qed
  qed
qed

lemma trace_POST_finally:
  "trace (POST_finally en i out w) =
     trace w @ map EvUnlink (map the (filter (\<lambda>p. p \<noteq> None) [i, out]))"
  by (simp add: POST_finally_def trace_unlink_all)

lemma files_fs_unlink:
  "\<not> unlink_denied en p \<Longrightarrow> files (snd (fs_unlink en p w)) = (files w)(p := None)"
  by (auto simp: fs_unlink_def Let_def)

lemma files_unlink_all:
  "\<forall>p. \<not> unlink_denied en p \<Longrightarrow>
     files (unlink_all en ps w) q = (if q \<in> set ps then None else files w q)"
  by (induction ps arbitrary: w) (simp_all add: files_fs_unlink)

lemma files_POST_finally:
  "\<forall>p. \<not> unlink_denied en p \<Longrightarrow>
     files (POST_finally en (Some i) (Some out) w) q = (if q = i \<or> q = out then None else files w q)"
  by (simp add: POST_finally_def files_unlink_all del: unlink_all.simps)

lemma POST_try_unlink_denied:
  "POST_try (en\<lparr>unlink_denied := d\<rparr>) req w = POST_try en req w"
  by (simp add: POST_try_def fs_writeFile_def execFileAsync_def
      cong: request.case_cong form_value.case_cong if_cong prod.case_cong option.case_cong sum.case_cong)

lemma response_unlink_denied:
  "fst (attempt (en\<lparr>unlink_denied := d\<rparr>) req fs) = fst (attempt en req fs)"
  by (simp add: attempt_def POST_def POST_try_unlink_denied split: prod.splits)

subsection \<open>The sample runs, evaluated\<close>

lemmas POST_defs = attempt_def POST_def POST_try_def POST_finally_def unexpected_def
  console_error_def fs_writeFile_def fs_readFile_def fs_unlink_def execFileAsync_def emit_def
  path_join_def MAX_FILE_SIZE_def text_response_def pdf_response_def failure_text_def
  sample_env_def sample_request_def sample_args_def Let_def

lemma run_missing:
  "attempt (sample_env qpdf_missing) sample_request Map.empty =
     (text_response msg_not_found 500,
      \<lparr>files = Map.empty,
       trace = [EvWriteFile ''/tmp/pdf-input-u1.pdf'',
                EvExec ''qpdf'' sample_args (Some missing_error),
                EvLog ''qpdf binary not found:'' missing_error,
                EvUnlink ''/tmp/pdf-input-u1.pdf'', EvUnlink ''/tmp/pdf-output-u2.pdf'',
                EvRespond (text_response msg_not_found 500)]\<rparr>)"
  by (simp add: POST_defs qpdf_missing_def missing_error_def sample_cmd_def command_line_def)

lemma newline_not_empty [simp]: "newline \<noteq> []"
  by (simp add: newline_def)

lemma run_invalid:
  "attempt (sample_env qpdf_invalid_password) sample_request Map.empty =
     (text_response sample_stderr 400,
      \<lparr>files = Map.empty,
       trace = [EvWriteFile ''/tmp/pdf-input-u1.pdf'',
                EvExec ''qpdf'' sample_args (Some invalid_password_error),
                EvLog ''Failed to unlock PDF:'' invalid_password_error,
                EvUnlink ''/tmp/pdf-input-u1.pdf'', EvUnlink ''/tmp/pdf-output-u2.pdf'',
                EvRespond (text_response sample_stderr 400)]\<rparr>)"
  by (simp add: POST_defs qpdf_invalid_password_def invalid_password_error_def sample_cmd_def
        sample_stderr_def command_line_def)

lemma run_decrypts:
  "attempt (sample_env qpdf_decrypts) sample_request Map.empty =
     (pdf_response ''%PDF-plain'',
      \<lparr>files = Map.empty,
       trace = [EvWriteFile ''/tmp/pdf-input-u1.pdf'',
                EvExec ''qpdf'' sample_args None,
                EvReadFile ''/tmp/pdf-output-u2.pdf'',
                EvUnlink ''/tmp/pdf-input-u1.pdf'', EvUnlink ''/tmp/pdf-output-u2.pdf'',
                EvRespond (pdf_response ''%PDF-plain'')]\<rparr>)"
  by (simp add: POST_defs qpdf_decrypts_def)

lemma sample_paths:
  "input_path (sample_env tool) = ''/tmp/pdf-input-u1.pdf''"
  "output_path (sample_env tool) = ''/tmp/pdf-output-u2.pdf''"
  by (simp_all add: input_path_def output_path_def path_join_def sample_env_def)

lemma run_legacy_invalid:
  "legacy_attempt (sample_env qpdf_invalid_password) sample_legacy_request sample_uploads =
     (None,
      \<lparr>files = Map.empty,
       trace = [EvExec ''qpdf'' legacy_args (Some legacy_error),
                EvLog ''Error'' legacy_error,
                EvRespond (text_response legacy_msg_failed 400),
                EvUnlink ''uploads/f1'']\<rparr>)"
  by (simp add: legacy_attempt_def legacy_unlock_def sample_legacy_request_def sample_uploads_def
        template_def execFileAsync_def fs_unlink_def emit_def sample_env_def
        qpdf_invalid_password_def legacy_args_def legacy_error_def Let_def)

lemma legacy_unlink_after_response:
  assumes "req_file lreq = Some p"
  shows "EvUnlink p \<in> set (trace (snd (legacy_attempt en lreq fs)))
       \<and> (\<forall>r. EvRespond r \<in> set (trace (snd (legacy_attempt en lreq fs))) \<longrightarrow>
             \<not> unlinked_before_response (trace (snd (legacy_attempt en lreq fs))) p)"
proof -
  define args where
    "args = [''--password='' @ template (req_password lreq), ''--decrypt'', p, p @ ''-unlocked.pdf'']"
  obtain r0 fs1 where ex: "execFile en ''qpdf'' args fs = (r0, fs1)"
    by (cases "execFile en ''qpdf'' args fs")
  define r where "r = map_option (\<lambda>ex. ex\<lparr>err_cmd := Some (command_line ''qpdf'' args)\<rparr>) r0"
  have start: "legacy_attempt en lreq fs =
     (case (r, \<lparr>files = fs1, trace = [EvExec ''qpdf'' args r]\<rparr>) of
             (Some err, w1) \<Rightarrow>
               let w2 = emit (EvLog ''Error'' err) w1;
                   w3 = emit (EvRespond (text_response legacy_msg_failed 400)) w2
               in fs_unlink en p w3
           | (None, w1) \<Rightarrow>
               let w2 = res_download (p @ ''-unlocked.pdf'') ''unlocked.pdf'' w1 in
               (case fs_unlink en p w2 of
                  (Some e, w3) \<Rightarrow> (Some e, w3)
                | (None, w3) \<Rightarrow> fs_unlink en (p @ ''-unlocked.pdf'') w3))"
    using assms ex[unfolded args_def]
    by (simp add: legacy_attempt_def legacy_unlock_def execFileAsync_def emit_def args_def r_def
          Let_def)
  have unl: "\<And>q w. trace (snd (fs_unlink en q w)) = trace w @ [EvUnlink q]"
    by (simp add: fs_unlink_def Let_def emit_def)
  show ?thesis
  proof (cases r)
    case (Some err)
    have "trace (snd (legacy_attempt en lreq fs)) =
            [EvExec ''qpdf'' args (Some err), EvLog ''Error'' err,
             EvRespond (text_response legacy_msg_failed 400), EvUnlink p]"
      using Some by (simp add: start Let_def unl)
    then show ?thesis
      by (simp add: unlinked_before_response_def)
  next
    case None
    define w1 where "w1 = \<lparr>files = fs1, trace = [EvExec ''qpdf'' args None]\<rparr>"
    define w2 where "w2 = res_download (p @ ''-unlocked.pdf'') ''unlocked.pdf'' w1"
    have t2: "trace w2 = [EvExec ''qpdf'' args None, EvReadFile (p @ ''-unlocked.pdf'')]
            \<or> (\<exists>r. trace w2 = [EvExec ''qpdf'' args None, EvReadFile (p @ ''-unlocked.pdf''),
                                 EvRespond r])"
      by (auto simp: w2_def w1_def res_download_def fs_readFile_def emit_def Let_def
            split: option.splits)
    have run: "legacy_attempt en lreq fs =
            (case fs_unlink en p w2 of
               (Some e, w3) \<Rightarrow> (Some e, w3)
             | (None, w3) \<Rightarrow> fs_unlink en (p @ ''-unlocked.pdf'') w3)"
      using None by (simp add: start w1_def w2_def)
    have t3: "trace (snd (legacy_attempt en lreq fs)) = trace w2 @ [EvUnlink p]
            \<or> trace (snd (legacy_attempt en lreq fs))
                = trace w2 @ [EvUnlink p, EvUnlink (p @ ''-unlocked.pdf'')]"
    proof (cases "fs_unlink en p w2")
      case (Pair e w3)
      have w3: "trace w3 = trace w2 @ [EvUnlink p]"
        using unl[of p w2] Pair by simp
      show ?thesis
        using Pair w3 unl[of "p @ ''-unlocked.pdf''" w3]
        by (cases e) (simp_all add: run)
    qed
    from t2 t3 show ?thesis
      by (auto simp: unlinked_before_response_def)
  qed
qed


section \<open>The claims about the External-Tool strategy\<close>

text \<open>
  C1, as the code has it. In the route handler, the only file written is the input
  path and the tool is only given the input and output paths of the attempt; once the
  input has been written, both paths are unlinked before the response is returned, on
  every exit path; when no unlink is refused neither file exists afterwards; the
  response is the last event of the attempt, and it is the same whichever unlinks are
  refused. In the Express handler the input file is unlinked on every path as well,
  but only after the response has been sent.
\<close>

theorem temporary_files_removed_before_response:
  "(\<forall>p. EvWriteFile p \<in> set (trace (snd (attempt en req fs))) \<longrightarrow> p = input_path en)
   \<and> (\<forall>bin args e. EvExec bin args e \<in> set (trace (snd (attempt en req fs))) \<longrightarrow>
         EvWriteFile (input_path en) \<in> set (trace (snd (attempt en req fs)))
         \<and> drop 2 args = [input_path en, output_path en])
   \<and> (EvWriteFile (input_path en) \<in> set (trace (snd (attempt en req fs))) \<longrightarrow>
         unlinked_before_response (trace (snd (attempt en req fs))) (input_path en)
         \<and> unlinked_before_response (trace (snd (attempt en req fs))) (output_path en))
   \<and> (EvWriteFile (input_path en) \<in> set (trace (snd (attempt en req fs)))
         \<and> (\<forall>p. \<not> unlink_denied en p) \<longrightarrow>
         files (snd (attempt en req fs)) (input_path en) = None
         \<and> files (snd (attempt en req fs)) (output_path en) = None)
   \<and> last (trace (snd (attempt en req fs))) = EvRespond (fst (attempt en req fs))
   \<and> fst (attempt (en\<lparr>unlink_denied := d\<rparr>) req fs) = fst (attempt en req fs)
   \<and> (req_file lreq = Some p' \<longrightarrow>
         EvUnlink p' \<in> set (trace (snd (legacy_attempt en lreq fs')))
         \<and> (\<forall>r. EvRespond r \<in> set (trace (snd (legacy_attempt en lreq fs'))) \<longrightarrow>
               \<not> unlinked_before_response (trace (snd (legacy_attempt en lreq fs'))) p'))"
proof -
  have route:
    "(\<forall>p. EvWriteFile p \<in> set (trace (snd (attempt en req fs))) \<longrightarrow> p = input_path en)
   \<and> (\<forall>bin args e. EvExec bin args e \<in> set (trace (snd (attempt en req fs))) \<longrightarrow>
         EvWriteFile (input_path en) \<in> set (trace (snd (attempt en req fs)))
         \<and> drop 2 args = [input_path en, output_path en])
   \<and> (EvWriteFile (input_path en) \<in> set (trace (snd (attempt en req fs))) \<longrightarrow>
         unlinked_before_response (trace (snd (attempt en req fs))) (input_path en)
         \<and> unlinked_before_response (trace (snd (attempt en req fs))) (output_path en))
   \<and> (EvWriteFile (input_path en) \<in> set (trace (snd (attempt en req fs)))
         \<and> (\<forall>p. \<not> unlink_denied en p) \<longrightarrow>
         files (snd (attempt en req fs)) (input_path en) = None
         \<and> files (snd (attempt en req fs)) (output_path en) = None)
   \<and> last (trace (snd (attempt en req fs))) = EvRespond (fst (attempt en req fs))"
  proof (cases en req fs rule: attempt_cases)
    case (bad_body e)
    then show ?thesis by simp
  next
    case (rejected m)
    then show ?thesis by simp
  next
    case (write_failed buffer pw)
    then show ?thesis
      by (simp add: trace_POST_finally files_POST_finally unlinked_before_response_def)
  next
    case (tool_missing buffer pw error fs')
    then show ?thesis
      by (simp add: trace_POST_finally files_POST_finally unlinked_before_response_def)
  next
    case (tool_failed buffer pw error fs')
    then show ?thesis
      by (simp add: trace_POST_finally files_POST_finally unlinked_before_response_def)
  next
    case (read_failed buffer pw fs')
    then show ?thesis
      by (simp add: trace_POST_finally files_POST_finally unlinked_before_response_def)
  next
    case (unlocked buffer pw fs' unlockedPdf)
    then show ?thesis
      by (simp add: trace_POST_finally files_POST_finally unlinked_before_response_def)
  qed
  show ?thesis
    using route response_unlink_denied[where en = en and d = d and req = req and fs = fs]
      legacy_unlink_after_response[where lreq = lreq and p = p' and en = en and fs = fs']
    by blast
qed

theorem temporary_files_removed_before_response_witness:
  "EvWriteFile ''/tmp/pdf-input-u1.pdf''
     \<in> set (trace (snd (attempt (sample_env qpdf_invalid_password) sample_request Map.empty)))
   \<and> EvExec ''qpdf'' sample_args (Some invalid_password_error)
     \<in> set (trace (snd (attempt (sample_env qpdf_invalid_password) sample_request Map.empty)))
   \<and> (\<forall>p. \<not> unlink_denied (sample_env qpdf_invalid_password) p)
   \<and> req_file sample_legacy_request = Some ''uploads/f1''
   \<and> EvRespond (text_response legacy_msg_failed 400)
        \<in> set (trace (snd (legacy_attempt (sample_env qpdf_invalid_password)
                               sample_legacy_request sample_uploads)))
   \<and> unlinked_before_response
        (trace (snd (attempt (sample_env qpdf_invalid_password) sample_request Map.empty)))
        ''/tmp/pdf-input-u1.pdf''
   \<and> unlinked_before_response
        (trace (snd (attempt (sample_env qpdf_invalid_password) sample_request Map.empty)))
        ''/tmp/pdf-output-u2.pdf''
   \<and> files (snd (attempt (sample_env qpdf_invalid_password) sample_request Map.empty))
        ''/tmp/pdf-input-u1.pdf'' = None
   \<and> files (snd (attempt (sample_env qpdf_invalid_password) sample_request Map.empty))
        ''/tmp/pdf-output-u2.pdf'' = None
   \<and> EvUnlink ''uploads/f1''
        \<in> set (trace (snd (legacy_attempt (sample_env qpdf_invalid_password)
                               sample_legacy_request sample_uploads)))
   \<and> \<not> unlinked_before_response
        (trace (snd (legacy_attempt (sample_env qpdf_invalid_password)
                      sample_legacy_request sample_uploads)))
        ''uploads/f1''"
proof -
  have h: "EvWriteFile ''/tmp/pdf-input-u1.pdf''
     \<in> set (trace (snd (attempt (sample_env qpdf_invalid_password) sample_request Map.empty)))"
    "EvExec ''qpdf'' sample_args (Some invalid_password_error)
     \<in> set (trace (snd (attempt (sample_env qpdf_invalid_password) sample_request Map.empty)))"
    by (simp_all add: run_invalid)
  have d: "\<forall>p. \<not> unlink_denied (sample_env qpdf_invalid_password) p"
    by (simp add: sample_env_def)
  have l: "req_file sample_legacy_request = Some ''uploads/f1''"
    by (simp add: sample_legacy_request_def)
  have r: "EvRespond (text_response legacy_msg_failed 400)
        \<in> set (trace (snd (legacy_attempt (sample_env qpdf_invalid_password)
                               sample_legacy_request sample_uploads)))"
    by (simp add: run_legacy_invalid)
  from temporary_files_removed_before_response
          [where en = "sample_env qpdf_invalid_password" and req = sample_request
             and fs = Map.empty and d = "\<lambda>p. False" and lreq = sample_legacy_request
             and p' = "''uploads/f1''" and fs' = sample_uploads]
    h d l r
  show ?thesis
    unfolding sample_paths by blast
qed


text \<open>
  C1, as stated, fails on the Express handler: when the tool rejects the password the
  handler sends the response first and unlinks the uploaded file afterwards.
\<close>

theorem legacy_responds_before_cleanup_counterexample:
  "sample_uploads ''uploads/f1'' \<noteq> None
   \<and> EvRespond (text_response legacy_msg_failed 400)
        \<in> set (trace (snd (legacy_attempt (sample_env qpdf_invalid_password)
                               sample_legacy_request sample_uploads)))
   \<and> \<not> unlinked_before_response
          (trace (snd (legacy_attempt (sample_env qpdf_invalid_password)
                        sample_legacy_request sample_uploads)))
          ''uploads/f1''"
proof -
  have "sample_uploads ''uploads/f1'' \<noteq> None"
    by (simp add: sample_uploads_def)
  then show ?thesis
    by (simp add: run_legacy_invalid unlinked_before_response_def)
qed

text \<open>
  C3. When the invocation of the external tool fails in an attempt, the response is
  the tool-unavailable one (status 500, the fixed text about the missing binary)
  exactly when the error's code is \<open>ENOENT\<close>, and the wrong-password one (status 400,
  the tool's \<open>stderr\<close> or the fixed text) exactly for every other error of the tool.
\<close>

theorem tool_failure_classification:
  assumes "EvExec bin args (Some error) \<in> set (trace (snd (attempt en req fs)))"
  shows "((status (fst (attempt en req fs)) = 500
             \<and> body (fst (attempt en req fs)) = Text msg_not_found)
            = (err_code error = Some ''ENOENT''))
       \<and> ((status (fst (attempt en req fs)) = 400
             \<and> body (fst (attempt en req fs)) = Text (failure_text error))
            = (err_code error \<noteq> Some ''ENOENT''))"
proof (cases en req fs rule: attempt_cases)
  case (tool_missing buffer pw error' fs')
  with assms show ?thesis
    by (auto simp: trace_POST_finally text_response_def)
next
  case (tool_failed buffer pw error' fs')
  with assms show ?thesis
    by (auto simp: trace_POST_finally text_response_def)
qed (use assms in \<open>auto simp: trace_POST_finally\<close>)

theorem tool_failure_classification_witness:
  "EvExec ''qpdf'' sample_args (Some missing_error)
     \<in> set (trace (snd (attempt (sample_env qpdf_missing) sample_request Map.empty)))
   \<and> status (fst (attempt (sample_env qpdf_missing) sample_request Map.empty)) = 500
   \<and> body (fst (attempt (sample_env qpdf_missing) sample_request Map.empty)) = Text msg_not_found"
  using tool_failure_classification
          [where bin = "''qpdf''" and args = sample_args and error = missing_error
             and en = "sample_env qpdf_missing" and req = sample_request and fs = Map.empty]
  by (simp add: run_missing missing_error_def)

section \<open>Properties of the Rasterize-Rebuild strategy\<close>

subsection \<open>Rounding to a double\<close>

lemma bitlen_power_bounds:
  assumes "0 < p"
  shows "(2::rat) powi (bitlen p - 1) \<le> of_int p" "of_int p < (2::rat) powi (bitlen p)"
proof -
  from bitlen_bounds[OF assms]
  have b: "2 ^ nat (bitlen p - 1) \<le> p" "p < 2 ^ nat (bitlen p)" by simp_all
  have pos: "1 \<le> bitlen p"
    using assms bitlen_eq_zero_iff[of p] bitlen_nonneg[of p] by linarith
  have "(2::rat) powi (bitlen p - 1) = 2 ^ nat (bitlen p - 1)"
    using pos by (simp add: power_int_def)
  also have "\<dots> = of_int (2 ^ nat (bitlen p - 1))" by simp
  also have "\<dots> \<le> of_int p" using b(1) by (simp only: of_int_le_iff)
  finally show "(2::rat) powi (bitlen p - 1) \<le> of_int p" .
  have "(of_int p :: rat) < of_int (2 ^ nat (bitlen p))"
    using b(2) by (simp only: of_int_less_iff)
  also have "\<dots> = 2 ^ nat (bitlen p)" by simp
  also have "\<dots> = (2::rat) powi (bitlen p)"
    using pos by (simp add: power_int_def)
  finally show "of_int p < (2::rat) powi (bitlen p)" .
qed

lemma power_int_less_exp:
  assumes "(2::rat) powi a < 2 powi b"
  shows "a < b"
proof (rule ccontr)
  assume "\<not> a < b"
  then have "b \<le> a" by simp
  then have "(2::rat) powi b \<le> 2 powi a"
    by (intro power_int_increasing) simp_all
  with assms show False by simp
qed

lemma exponent_bounds:
  assumes "0 < x"
  shows "2 powi (exponent x) \<le> x" and "x < 2 powi (exponent x + 1)"
proof -
  obtain p q where pq: "quotient_of x = (p, q)" by (cases "quotient_of x")
  then have q: "0 < q" by (rule quotient_of_denom_pos)
  have x: "x = of_int p / of_int q" using pq by (rule quotient_of_div)
  have p: "0 < p" using assms x q by (simp add: zero_less_divide_iff)
  define e where "e = bitlen p - bitlen q"
  note bp = bitlen_power_bounds[OF p] and bq = bitlen_power_bounds[OF q]
  have qpos: "(0::rat) < of_int q" using q by simp
  have ppos: "(0::rat) < of_int p" using p by simp
  have pw: "(0::rat) < 2 powi (bitlen q - 1)" "(0::rat) < 2 powi (bitlen p - 1)" by simp_all
  have "x < 2 powi (bitlen p) / 2 powi (bitlen q - 1)"
    unfolding x using bp(2) bq(1) qpos ppos pw
    by (intro frac_less) simp_all
  also have "\<dots> = 2 powi (bitlen p - (bitlen q - 1))"
    by (rule power_int_diff[symmetric]) simp
  also have "\<dots> = 2 powi (e + 1)"
    by (rule arg_cong[where f = "power_int 2"]) (simp add: e_def)
  finally have up: "x < 2 powi (e + 1)" .
  have "2 powi (bitlen p - 1) / 2 powi (bitlen q) \<le> x"
    unfolding x
    by (rule frac_le[OF less_imp_le[OF ppos] bp(1) qpos less_imp_le[OF bq(2)]])
  moreover have "2 powi (bitlen p - 1) / 2 powi (bitlen q) = (2::rat) powi (bitlen p - 1 - bitlen q)"
    by (rule power_int_diff[symmetric]) simp
  moreover have "(2::rat) powi (bitlen p - 1 - bitlen q) = 2 powi (e - 1)"
    by (rule arg_cong[where f = "power_int 2"]) (simp add: e_def)
  ultimately have low: "2 powi (e - 1) \<le> x" by simp
  have ex: "exponent x = (if 2 powi e \<le> x then e else e - 1)"
    by (simp add: exponent_def pq e_def Let_def)
  show "2 powi (exponent x) \<le> x"
    using low by (simp add: ex)
  show "x < 2 powi (exponent x + 1)"
    using up by (simp add: ex not_le)
qed

lemma exponent_eqI:
  assumes "2 powi e \<le> x" "x < 2 powi (e + 1)"
  shows "exponent x = e"
proof -
  have "(0::rat) < 2 powi e" by simp
  then have pos: "0 < x" using assms(1) by linarith
  note b = exponent_bounds[OF pos]
  have "(2::rat) powi e < 2 powi (exponent x + 1)"
    using assms(1) b(2) by simp
  then have 1: "e < exponent x + 1"
    by (rule power_int_less_exp)
  have "(2::rat) powi (exponent x) < 2 powi (e + 1)"
    using assms(2) b(1) by simp
  then have 2: "exponent x < e + 1"
    by (rule power_int_less_exp)
  from 1 2 show ?thesis by simp
qed

lemma exponent_mono:
  assumes "0 < x" "x \<le> y"
  shows "exponent x \<le> exponent y"
proof -
  have y: "0 < y" using assms by simp
  have "(2::rat) powi (exponent x) < 2 powi (exponent y + 1)"
    using exponent_bounds(1)[OF assms(1)] exponent_bounds(2)[OF y] assms(2) by simp
  then have "exponent x < exponent y + 1"
    by (rule power_int_less_exp)
  then show ?thesis by simp
qed

lemma round_half_even_of_int [simp]: "round_half_even (of_int k) = k"
  by (simp add: round_half_even_def)

lemma round_half_even_0 [simp]: "round_half_even 0 = 0"
  using round_half_even_of_int[of 0] by simp

lemma round_half_even_numeral [simp]: "round_half_even (numeral k) = numeral k"
  using round_half_even_of_int[of "numeral k"] by simp

lemma round_half_even_bounds:
  "of_int (round_half_even x) \<le> x + 1 / 2" "x - 1 / 2 \<le> of_int (round_half_even x)"
  "\<lfloor>x\<rfloor> \<le> round_half_even x" "round_half_even x \<le> \<lfloor>x\<rfloor> + 1"
  by (auto simp: round_half_even_def Let_def) linarith+

lemma round_half_even_mono:
  assumes "x \<le> y"
  shows "round_half_even x \<le> round_half_even y"
proof (cases "\<lfloor>x\<rfloor> = \<lfloor>y\<rfloor>")
  case True
  then show ?thesis
    using assms by (auto simp: round_half_even_def Let_def)
next
  case False
  then have "\<lfloor>x\<rfloor> + 1 \<le> \<lfloor>y\<rfloor>"
    using floor_mono[OF assms] by simp
  then show ?thesis
    using round_half_even_bounds(4)[of x] round_half_even_bounds(3)[of y] by simp
qed

lemma to_double_eqI:
  assumes "2 powi e \<le> x" "x < 2 powi (e + 1)" "- 1022 \<le> e"
  shows "to_double x = of_int (round_half_even (x / 2 powi (e - 52))) * 2 powi (e - 52)"
proof -
  have "(0::rat) < 2 powi e" by simp
  then have pos: "0 < x" using assms(1) by linarith
  then have "exponent \<bar>x\<bar> = e"
    using exponent_eqI[OF assms(1,2)] by simp
  then show ?thesis
    using pos assms(3) by (simp add: to_double_def Let_def max_def)
qed

lemma to_double_nonneg:
  assumes "0 \<le> x"
  shows "0 \<le> to_double x"
proof (cases "x = 0")
  case True
  then show ?thesis by (simp add: to_double_def)
next
  case False
  define u where "u = (2::rat) powi (max (exponent \<bar>x\<bar>) (- 1022) - 52)"
  have u: "0 < u" by (simp add: u_def)
  have "0 \<le> x / u" using assms u by simp
  then have "round_half_even (of_int 0) \<le> round_half_even (x / u)"
    by (intro round_half_even_mono) simp
  then have "0 \<le> round_half_even (x / u)" by simp
  then show ?thesis
    using False u by (simp add: to_double_def Let_def u_def[symmetric])
qed

lemma to_double_mono:
  assumes "0 \<le> x" "x \<le> y"
  shows "to_double x \<le> to_double y"
proof (cases "x = 0")
  case True
  then show ?thesis
    using to_double_nonneg[of y] assms by (simp add: to_double_def)
next
  case False
  then have x: "0 < x" and y: "0 < y" using assms by simp_all
  define ex where "ex = max (exponent x) (- 1022)"
  define ey where "ey = max (exponent y) (- 1022)"
  have tx: "to_double x = of_int (round_half_even (x / 2 powi (ex - 52))) * 2 powi (ex - 52)"
    using x by (simp add: to_double_def Let_def ex_def)
  have ty: "to_double y = of_int (round_half_even (y / 2 powi (ey - 52))) * 2 powi (ey - 52)"
    using y by (simp add: to_double_def Let_def ey_def)
  have le: "ex \<le> ey"
    using exponent_mono[OF x assms(2)] by (simp add: ex_def ey_def)
  show ?thesis
  proof (cases "ex = ey")
    case True
    have "x / 2 powi (ey - 52) \<le> y / 2 powi (ey - 52)"
      using assms(2) by (simp add: divide_right_mono)
    then have "round_half_even (x / 2 powi (ey - 52)) \<le> round_half_even (y / 2 powi (ey - 52))"
      by (rule round_half_even_mono)
    then show ?thesis
      unfolding tx ty True by (simp add: mult_right_mono)
  next
    case False
    then have lt: "ex < ey" using le by simp
    then have ey: "ey = exponent y" by (simp add: ex_def ey_def max_def split: if_splits)
    have "x < 2 powi (exponent x + 1)" using exponent_bounds(2)[OF x] .
    also have "\<dots> \<le> 2 powi (ex + 1)"
      by (intro power_int_increasing) (simp_all add: ex_def)
    finally have "x / 2 powi (ex - 52) < 2 powi (ex + 1) / 2 powi (ex - 52)"
      by (simp add: divide_strict_right_mono)
    also have "\<dots> = of_int (2 ^ 53)"
      by (simp add: power_int_diff[symmetric])
    finally have "round_half_even (x / 2 powi (ex - 52)) \<le> round_half_even (of_int (2 ^ 53))"
      by (intro round_half_even_mono) simp
    then have "round_half_even (x / 2 powi (ex - 52)) \<le> 2 ^ 53"
      by (simp only: round_half_even_of_int)
    then have "(of_int (round_half_even (x / 2 powi (ex - 52))) :: rat) \<le> of_int (2 ^ 53)"
      by (simp only: of_int_le_iff)
    then have "to_double x \<le> of_int (2 ^ 53) * 2 powi (ex - 52)"
      unfolding tx by (simp add: mult_right_mono)
    also have "\<dots> = 2 powi (ex + 1)"
    proof -
      have "(2::rat) powi (53 + (ex - 52)) = 2 powi 53 * 2 powi (ex - 52)"
        by (rule power_int_add) simp
      moreover have "53 + (ex - 52) = ex + 1" by simp
      ultimately show ?thesis by simp
    qed
    also have "\<dots> \<le> 2 powi ey"
      using lt by (intro power_int_increasing) simp_all
    finally have upper: "to_double x \<le> 2 powi ey" .
    have "2 powi ey \<le> y" using exponent_bounds(1)[OF y] ey by simp
    then have "2 powi ey / 2 powi (ey - 52) \<le> y / 2 powi (ey - 52)"
      by (simp add: divide_right_mono)
    moreover have "2 powi ey / 2 powi (ey - 52) = (of_int (2 ^ 52) :: rat)"
      by (simp add: power_int_diff[symmetric])
    ultimately have "round_half_even (of_int (2 ^ 52)) \<le> round_half_even (y / 2 powi (ey - 52))"
      by (intro round_half_even_mono) simp
    then have "2 ^ 52 \<le> round_half_even (y / 2 powi (ey - 52))"
      by (simp only: round_half_even_of_int)
    then have "(of_int (2 ^ 52) :: rat) \<le> of_int (round_half_even (y / 2 powi (ey - 52)))"
      by (simp only: of_int_le_iff)
    then have "of_int (2 ^ 52) * 2 powi (ey - 52) \<le> to_double y"
      unfolding ty by (simp add: mult_right_mono)
    moreover have "of_int (2 ^ 52) * 2 powi (ey - 52) = (2::rat) powi ey"
    proof -
      have "(2::rat) powi (52 + (ey - 52)) = 2 powi 52 * 2 powi (ey - 52)"
        by (rule power_int_add) simp
      moreover have "52 + (ey - 52) = ey" by simp
      ultimately show ?thesis by simp
    qed
    ultimately show ?thesis using upper by simp
  qed
qed

lemma to_double_1: "to_double 1 = 1"
  using to_double_eqI[of 0 1] by simp

lemma to_double_50: "to_double 50 = 50"
  using to_double_eqI[of 5 50] by simp

lemma to_double_half: "to_double (1 / 2) = 1 / 2"
  using to_double_eqI[of "-1" "1/2"] by simp


subsection \<open>The percentage of a page\<close>

lemma round_half_even_eqI:
  assumes "of_int n - 1 / 2 < x" "x < of_int n + 1 / 2"
  shows "round_half_even x = n"
proof (cases "of_int n \<le> x")
  case True
  then have "\<lfloor>x\<rfloor> = n"
    using assms(2) by (intro floor_unique) simp_all
  then show ?thesis
    using assms(2) by (simp add: round_half_even_def Let_def)
next
  case False
  then have "\<lfloor>x\<rfloor> = n - 1"
    using assms(1) by (intro floor_unique) simp_all
  then show ?thesis
    using assms(1) by (simp add: round_half_even_def Let_def)
qed

lemma to_double_eval:
  assumes "2 powi e \<le> x" "x < 2 powi (e + 1)" "- 1022 \<le> e"
    and "of_int n - 1 / 2 < x / 2 powi (e - 52)" "x / 2 powi (e - 52) < of_int n + 1 / 2"
    and "r = of_int n * 2 powi (e - 52)"
  shows "to_double x = r"
  using to_double_eqI[OF assms(1-3)] round_half_even_eqI[OF assms(4,5)] assms(6) by simp

lemma floor_numeral_quotient [simp]: "\<lfloor>numeral a / numeral b :: rat\<rfloor> = numeral a div numeral b"
  by (metis floor_divide_of_int_eq of_int_numeral)

lemma Math_round_of_int [simp]: "Math_round (of_int k) = k"
  unfolding Math_round_def by (rule floor_unique) simp_all

lemma Math_round_numeral [simp]: "Math_round (numeral k) = numeral k"
  using Math_round_of_int[of "numeral k"] by simp

lemma Math_round_0 [simp]: "Math_round 0 = 0"
  using Math_round_of_int[of 0] by simp

lemma Math_round_mono: "x \<le> y \<Longrightarrow> Math_round x \<le> Math_round y"
  by (simp add: Math_round_def floor_mono)

lemma scaled_bounds:
  assumes "0 \<le> x" "x \<le> 1"
  shows "0 \<le> double_mul (to_double x) 50" "double_mul (to_double x) 50 \<le> 50"
proof -
  have a: "0 \<le> to_double x" using assms(1) by (rule to_double_nonneg)
  have "to_double x \<le> to_double 1" using assms by (rule to_double_mono)
  then have b: "to_double x \<le> 1" by (simp add: to_double_1)
  show "0 \<le> double_mul (to_double x) 50"
    unfolding double_mul_def using a by (intro to_double_nonneg) simp
  have "to_double (to_double x * 50) \<le> to_double 50"
    using a b by (intro to_double_mono) simp_all
  then show "double_mul (to_double x) 50 \<le> 50"
    by (simp add: double_mul_def to_double_50)
qed

lemma page_progress_lower: "30 \<le> page_progress i n"
proof -
  have "(0::rat) \<le> of_nat i / of_nat n" by simp
  then have "0 \<le> to_double (of_nat i / of_nat n)" by (rule to_double_nonneg)
  then have "0 \<le> to_double (of_nat i / of_nat n) * 50" by simp
  then have "0 \<le> to_double (to_double (of_nat i / of_nat n) * 50)" by (rule to_double_nonneg)
  then have "Math_round 0 \<le> Math_round (to_double (to_double (of_nat i / of_nat n) * 50))"
    by (rule Math_round_mono)
  then show ?thesis
    by (simp add: page_progress_def double_mul_def double_div_def)
qed

lemma page_progress_upper:
  assumes "i \<le> n"
  shows "page_progress i n \<le> 80"
proof -
  have "(of_nat i :: rat) / of_nat n \<le> 1"
    using assms by (cases "n = 0") (simp_all add: divide_le_eq_1)
  then have "double_mul (to_double (of_nat i / of_nat n)) 50 \<le> 50"
    by (intro scaled_bounds(2)) simp_all
  then have "Math_round (double_mul (to_double (of_nat i / of_nat n)) 50) \<le> Math_round 50"
    by (rule Math_round_mono)
  then show ?thesis
    by (simp add: page_progress_def double_div_def)
qed

lemma page_progress_mono:
  assumes "i \<le> j"
  shows "page_progress i n \<le> page_progress j n"
proof -
  have q: "(of_nat i :: rat) / of_nat n \<le> of_nat j / of_nat n"
    using assms by (simp add: divide_right_mono)
  have "to_double (of_nat i / of_nat n) \<le> to_double (of_nat j / of_nat n)"
    using q by (intro to_double_mono) simp_all
  moreover have "0 \<le> to_double (of_nat i / of_nat n)"
    by (intro to_double_nonneg) simp
  ultimately have "to_double (to_double (of_nat i / of_nat n) * 50)
                     \<le> to_double (to_double (of_nat j / of_nat n) * 50)"
    by (intro to_double_mono) simp_all
  then show ?thesis
    by (simp add: page_progress_def double_mul_def double_div_def Math_round_mono)
qed

lemma page_progress_last:
  assumes "0 < n"
  shows "page_progress n n = 80"
  using assms
  by (simp add: page_progress_def double_mul_def double_div_def to_double_1 to_double_50)

lemma to_double_hundredth: "to_double (1 / 100) = 5764607523034235 / 2 ^ 59"
  by (rule to_double_eval[where e = "- 7" and n = 5764607523034235]) simp_all

lemma page_progress_above:
  assumes "0 < n" "n \<le> 100 * i"
  shows "30 < page_progress i n"
proof -
  have "(of_nat n :: rat) \<le> of_nat (100 * i)"
    using assms(2) by (simp only: of_nat_le_iff)
  then have "(1::rat) / 100 \<le> of_nat i / of_nat n"
    using assms(1) by (simp add: field_simps)
  then have "to_double (1 / 100) \<le> to_double (of_nat i / of_nat n)"
    by (intro to_double_mono) simp_all
  then have "1 / 100 \<le> to_double (of_nat i / of_nat n)"
    by (simp add: to_double_hundredth)
  then have "1 / 2 \<le> to_double (of_nat i / of_nat n) * 50"
    by simp
  then have "to_double (1 / 2) \<le> to_double (to_double (of_nat i / of_nat n) * 50)"
    by (intro to_double_mono) simp_all
  then have "Math_round (1 / 2) \<le> Math_round (to_double (to_double (of_nat i / of_nat n) * 50))"
    unfolding to_double_half by (rule Math_round_mono)
  then show ?thesis
    by (simp add: page_progress_def double_mul_def double_div_def Math_round_def)
qed

lemma to_double_third: "to_double (1 / 3) = 6004799503160661 / 2 ^ 54"
  by (rule to_double_eval[where e = "- 2" and n = 6004799503160661]) simp_all

lemma to_double_two_thirds: "to_double (2 / 3) = 6004799503160661 / 2 ^ 53"
  by (rule to_double_eval[where e = "- 1" and n = 6004799503160661]) simp_all

lemma page_progress_1_3: "page_progress 1 3 = 47"
proof -
  have v: "to_double (150119987579016525 / 9007199254740992) = 2345624805922133 / 2 ^ 47"
    by (rule to_double_eval[where e = 4 and n = 4691249611844266]) simp_all
  show ?thesis
    by (simp add: page_progress_def double_mul_def double_div_def to_double_third Math_round_def v)
qed

lemma page_progress_2_3: "page_progress 2 3 = 63"
proof -
  have v: "to_double (150119987579016525 / 4503599627370496) = 2345624805922133 / 2 ^ 46"
    by (rule to_double_eval[where e = 5 and n = 4691249611844266]) simp_all
  show ?thesis
    by (simp add: page_progress_def double_mul_def double_div_def to_double_two_thirds Math_round_def v)
qed

lemma to_double_1_101: "to_double (1 / 101) = 5707532201023995 / 2 ^ 59"
  by (rule to_double_eval[where e = "- 7" and n = 5707532201023995]) simp_all

lemma page_progress_1_101: "page_progress 1 101 = 30"
proof -
  have v: "to_double (142688305025599875 / 288230376151711744) = 1114752383012499 / 2 ^ 51"
    by (rule to_double_eval[where e = "- 2" and n = 8918019064099992]) simp_all
  show ?thesis
    by (simp add: page_progress_def double_mul_def double_div_def to_double_1_101 Math_round_def v)
qed

lemma to_double_29_100: "to_double (29 / 100) = 5224175567749775 / 2 ^ 54"
  by (rule to_double_eval[where e = "- 2" and n = 5224175567749775]) simp_all

lemma page_progress_29_100: "page_progress 29 100 = 44"
proof -
  have v: "to_double (130604389193744375 / 9007199254740992) = 8162774324609023 / 2 ^ 49"
    by (rule to_double_eval[where e = 3 and n = 8162774324609023]) simp_all
  show ?thesis
    by (simp add: page_progress_def double_mul_def double_div_def to_double_29_100 Math_round_def v)
qed


text \<open>The code's percentage is not always the rounded exact quotient: page 29 of 100
  is reported at 44, where \<open>30 + round (29 / 100 * 50)\<close> over the rationals is 45.\<close>

lemma double_rounding_differs:
  "page_progress 29 100 = 44 \<and> 30 + Math_round ((29 / 100) * 50) = 45"
  by (simp add: page_progress_29_100 Math_round_def)

lemma percentages_page_events:
  "map fst (page_events n k j) = map (\<lambda>i. page_progress i n) [k..<j]"
  by (simp add: page_events_def comp_def)

lemma page_events_bounds:
  assumes "j \<le> Suc n" "p \<in> set (map fst (page_events n k j))"
  shows "30 \<le> p \<and> p \<le> 80"
proof -
  from assms(2) obtain i where i: "k \<le> i" "i < j" "p = page_progress i n"
    by (auto simp: percentages_page_events)
  then have "i \<le> n" using assms by simp
  then show ?thesis
    using i page_progress_lower[of i n] page_progress_upper[of i n] by simp
qed

lemma page_events_sorted: "sorted (map fst (page_events n k j))"
  by (auto simp: percentages_page_events sorted_iff_nth_mono intro: page_progress_mono)

lemma sorted_call:
  assumes "j \<le> Suc n"
  shows "sorted (30 # map fst (page_events n k j))"
    "sorted (30 # map fst (page_events n k j) @ [90])"
    "sorted (30 # map fst (page_events n k j) @ [90, 100])"
proof -
  have b: "\<forall>p \<in> set (map fst (page_events n k j)). 30 \<le> p \<and> p \<le> 80"
    using page_events_bounds[OF assms] by blast
  show "sorted (30 # map fst (page_events n k j))"
    "sorted (30 # map fst (page_events n k j) @ [90])"
    "sorted (30 # map fst (page_events n k j) @ [90, 100])"
    using page_events_sorted[of n k j] b
    by (force simp: sorted_append)+
qed

lemma last_page_events:
  assumes "j \<le> Suc n"
  shows "last (30 # map fst (page_events n k j)) \<noteq> 100"
proof (cases "map fst (page_events n k j) = []")
  case True
  then show ?thesis by simp
next
  case False
  then have "last (map fst (page_events n k j)) \<in> set (map fst (page_events n k j))"
    by (rule last_in_set)
  from page_events_bounds[OF assms this] False show ?thesis by simp
qed

subsection \<open>The page loop and the shapes of a call\<close>

lemma sink_exception_simps [simp]:
  "sink_exception None p step = None"
  "sink_exception (Some f) p step = f p step"
  by (simp_all add: sink_exception_def)

lemma delivered_simps [simp]:
  "delivered None evs = []"
  "delivered (Some f) evs = evs"
  "delivered sink [] = []"
  by (simp_all add: delivered_def split: option.splits)

lemma delivered_append: "delivered sink (xs @ ys) = delivered sink xs @ delivered sink ys"
  by (cases sink) simp_all

lemma updateProgress_eq:
  "updateProgress sink p step st
     = (sink_exception sink p step, st\<lparr>progress := progress st @ delivered sink [(p, step)]\<rparr>)"
  by (cases sink) (simp_all add: updateProgress_def)

lemma page_events_step:
  "k < j \<Longrightarrow> page_events n k j = (page_progress k n, page_label k n) # page_events n (Suc k) j"
  by (simp add: page_events_def upt_conv_Cons)

lemma page_numbers_step: "k < j \<Longrightarrow> page_numbers k j = k # page_numbers (Suc k) j"
  by (simp add: page_numbers_def upt_conv_Cons)

lemma from_first:
  assumes "P k" "\<forall>i. Suc k \<le> i \<and> i < j \<longrightarrow> P i"
  shows "\<forall>i. k \<le> i \<and> i < j \<longrightarrow> P i"
proof (intro allI impI)
  fix i assume "k \<le> i \<and> i < j"
  then consider "i = k" | "Suc k \<le> i \<and> i < j" by force
  then show "P i" using assms by cases auto
qed

lemma from_first_le:
  assumes "P k" "\<forall>i. Suc k \<le> i \<and> i \<le> j \<longrightarrow> P i"
  shows "\<forall>i. k \<le> i \<and> i \<le> j \<longrightarrow> P i"
proof (intro allI impI)
  fix i assume "k \<le> i \<and> i \<le> j"
  then consider "i = k" | "Suc k \<le> i \<and> i \<le> j" by force
  then show "P i" using assms by cases auto
qed

lemma render_pages_result:
  assumes "k \<le> Suc n"
  shows "(\<exists>pages. render_pages en sink doc k n acc st
              = (Inr (acc @ pages),
                 st\<lparr>progress := progress st @ delivered sink (page_events n k (Suc n)),
                    getPage_calls := getPage_calls st @ page_numbers k (Suc n)\<rparr>)
            \<and> map Inr pages = map (render_page en doc) [k..<Suc n]
            \<and> (\<forall>i. k \<le> i \<and> i \<le> n \<longrightarrow>
                  sink_exception sink (page_progress i n) (page_label i n) = None))
       \<or> (\<exists>j e. k \<le> j \<and> j \<le> n \<and> render_page en doc j = Inl e
            \<and> (\<forall>i. k \<le> i \<and> i < j \<longrightarrow> (\<exists>pg. render_page en doc i = Inr pg))
            \<and> (\<forall>i. k \<le> i \<and> i \<le> j \<longrightarrow>
                  sink_exception sink (page_progress i n) (page_label i n) = None)
            \<and> render_pages en sink doc k n acc st
              = (Inl e,
                 st\<lparr>progress := progress st @ delivered sink (page_events n k (Suc j)),
                    getPage_calls := getPage_calls st @ page_numbers k (Suc j)\<rparr>))
       \<or> (\<exists>j e. k \<le> j \<and> j \<le> n
            \<and> sink_exception sink (page_progress j n) (page_label j n) = Some e
            \<and> (\<forall>i. k \<le> i \<and> i < j \<longrightarrow> (\<exists>pg. render_page en doc i = Inr pg))
            \<and> (\<forall>i. k \<le> i \<and> i < j \<longrightarrow>
                  sink_exception sink (page_progress i n) (page_label i n) = None)
            \<and> render_pages en sink doc k n acc st
              = (Inl e,
                 st\<lparr>progress := progress st @ delivered sink (page_events n k (Suc j)),
                    getPage_calls := getPage_calls st @ page_numbers k j\<rparr>))"
  using assms
proof (induction "Suc n - k" arbitrary: k acc st)
  case 0
  then have "k = Suc n" by simp
  then show ?case
    by (auto simp: render_pages.simps[of en sink doc "Suc n" n] page_events_def page_numbers_def)
next
  case (Suc d)
  then have kn: "k \<le> n" by simp
  define ok where "ok i = (sink_exception sink (page_progress i n) (page_label i n) = None)" for i
  define good where "good i = (\<exists>pg. render_page en doc i = Inr pg)" for i
  show ?case
  proof (cases "sink_exception sink (page_progress k n) (page_label k n)")
    case (Some e)
    have "render_pages en sink doc k n acc st
            = (Inl e, st\<lparr>progress := progress st
                            @ delivered sink [(page_progress k n, page_label k n)]\<rparr>)"
      using kn Some by (simp add: render_pages.simps[of en sink doc k n] updateProgress_eq)
    then have "render_pages en sink doc k n acc st
            = (Inl e, st\<lparr>progress := progress st @ delivered sink (page_events n k (Suc k)),
                         getPage_calls := getPage_calls st @ page_numbers k k\<rparr>)"
      by (simp add: page_events_def page_numbers_def)
    with kn Some show ?thesis
      by (intro disjI2 exI[of _ k] exI[of _ e]) auto
  next
    case None
    then have okk: "ok k" by (simp add: ok_def)
    define st1 where "st1 = st\<lparr>progress := progress st
                                  @ delivered sink [(page_progress k n, page_label k n)],
                               getPage_calls := getPage_calls st @ [k]\<rparr>"
    have shift: "st1\<lparr>progress := progress st1 @ delivered sink (page_events n (Suc k) j),
                     getPage_calls := getPage_calls st1 @ c\<rparr>
               = st\<lparr>progress := progress st @ delivered sink (page_events n k j),
                    getPage_calls := getPage_calls st @ k # c\<rparr>" if "k < j" for j c
      using that by (cases sink) (simp_all add: st1_def page_events_step[of k j])
    show ?thesis
    proof (cases "render_page en doc k")
      case (Inl e)
      have "render_pages en sink doc k n acc st = (Inl e, st1)"
        using kn None Inl
        by (simp add: render_pages.simps[of en sink doc k n] updateProgress_eq st1_def Let_def)
      then have "render_pages en sink doc k n acc st
            = (Inl e, st\<lparr>progress := progress st @ delivered sink (page_events n k (Suc k)),
                         getPage_calls := getPage_calls st @ page_numbers k (Suc k)\<rparr>)"
        by (simp add: st1_def page_events_def page_numbers_def)
      with kn Inl None show ?thesis
        by (intro disjI2 disjI1 exI[of _ k] exI[of _ e]) auto
    next
      case (Inr pg)
      then have goodk: "good k" by (auto simp: good_def)
      have step: "render_pages en sink doc k n acc st
                    = render_pages en sink doc (Suc k) n (acc @ [pg]) st1"
        using kn None Inr
        by (simp add: render_pages.simps[of en sink doc k n] updateProgress_eq st1_def Let_def)
      have d: "d = Suc n - Suc k" using Suc.hyps(2) by simp
      have le: "Suc k \<le> Suc n" using kn by simp
      from Suc.hyps(1)[OF d le, of "acc @ [pg]" st1]
      show ?thesis
      proof (elim disjE exE conjE)
        fix pages
        assume r: "render_pages en sink doc (Suc k) n (acc @ [pg]) st1 =
            (Inr ((acc @ [pg]) @ pages),
             st1\<lparr>progress := progress st1 @ delivered sink (page_events n (Suc k) (Suc n)),
                 getPage_calls := getPage_calls st1 @ page_numbers (Suc k) (Suc n)\<rparr>)"
          and m: "map Inr pages = map (render_page en doc) [Suc k..<Suc n]"
          and s: "\<forall>i. Suc k \<le> i \<and> i \<le> n \<longrightarrow>
                    sink_exception sink (page_progress i n) (page_label i n) = None"
        have "[k..<Suc n] = k # [Suc k..<Suc n]"
          using kn by (simp add: upt_conv_Cons)
        then have m': "map Inr (pg # pages) = map (render_page en doc) [k..<Suc n]"
          using m Inr by simp
        have kSn: "k < Suc n" using kn by simp
        have r': "render_pages en sink doc k n acc st
                = (Inr (acc @ (pg # pages)),
                   st\<lparr>progress := progress st @ delivered sink (page_events n k (Suc n)),
                      getPage_calls := getPage_calls st @ page_numbers k (Suc n)\<rparr>)"
          using r step shift[OF kSn, of "page_numbers (Suc k) (Suc n)"]
          by (simp add: page_numbers_step[OF kSn])
        have s': "\<forall>i. k \<le> i \<and> i \<le> n \<longrightarrow>
                    sink_exception sink (page_progress i n) (page_label i n) = None"
          using from_first_le[of ok k n] okk s unfolding ok_def by blast
        from r' m' s' show ?thesis by blast
      next
        fix j e
        assume j: "Suc k \<le> j" "j \<le> n" "render_page en doc j = Inl e"
          and before: "\<forall>i. Suc k \<le> i \<and> i < j \<longrightarrow> (\<exists>pg. render_page en doc i = Inr pg)"
          and s: "\<forall>i. Suc k \<le> i \<and> i \<le> j \<longrightarrow>
                    sink_exception sink (page_progress i n) (page_label i n) = None"
          and r: "render_pages en sink doc (Suc k) n (acc @ [pg]) st1 =
            (Inl e, st1\<lparr>progress := progress st1 @ delivered sink (page_events n (Suc k) (Suc j)),
                        getPage_calls := getPage_calls st1 @ page_numbers (Suc k) (Suc j)\<rparr>)"
        have kj: "k < Suc j" using j by simp
        have b: "\<forall>i. k \<le> i \<and> i < j \<longrightarrow> (\<exists>pg. render_page en doc i = Inr pg)"
          using from_first[of good k j] goodk before unfolding good_def by blast
        have s': "\<forall>i. k \<le> i \<and> i \<le> j \<longrightarrow>
                    sink_exception sink (page_progress i n) (page_label i n) = None"
          using from_first_le[of ok k j] okk s unfolding ok_def by blast
        have "render_pages en sink doc k n acc st
                = (Inl e, st\<lparr>progress := progress st @ delivered sink (page_events n k (Suc j)),
                             getPage_calls := getPage_calls st @ page_numbers k (Suc j)\<rparr>)"
          using r step shift[OF kj, of "page_numbers (Suc k) (Suc j)"]
          by (simp add: page_numbers_step[OF kj])
        with j b s' show ?thesis
          by (intro disjI2 disjI1 exI[of _ j] exI[of _ e]) simp
      next
        fix j e
        assume j: "Suc k \<le> j" "j \<le> n"
            "sink_exception sink (page_progress j n) (page_label j n) = Some e"
          and before: "\<forall>i. Suc k \<le> i \<and> i < j \<longrightarrow> (\<exists>pg. render_page en doc i = Inr pg)"
          and s: "\<forall>i. Suc k \<le> i \<and> i < j \<longrightarrow>
                    sink_exception sink (page_progress i n) (page_label i n) = None"
          and r: "render_pages en sink doc (Suc k) n (acc @ [pg]) st1 =
            (Inl e, st1\<lparr>progress := progress st1 @ delivered sink (page_events n (Suc k) (Suc j)),
                        getPage_calls := getPage_calls st1 @ page_numbers (Suc k) j\<rparr>)"
        have kj: "k < Suc j" "k < j" using j by simp_all
        have b: "\<forall>i. k \<le> i \<and> i < j \<longrightarrow> (\<exists>pg. render_page en doc i = Inr pg)"
          using from_first[of good k j] goodk before unfolding good_def by blast
        have s': "\<forall>i. k \<le> i \<and> i < j \<longrightarrow>
                    sink_exception sink (page_progress i n) (page_label i n) = None"
          using from_first[of ok k j] okk s unfolding ok_def by blast
        have "render_pages en sink doc k n acc st
                = (Inl e, st\<lparr>progress := progress st @ delivered sink (page_events n k (Suc j)),
                             getPage_calls := getPage_calls st @ page_numbers k j\<rparr>)"
          using r step shift[OF kj(1), of "page_numbers (Suc k) j"]
          by (simp add: page_numbers_step[OF kj(2)])
        with j b s' show ?thesis
          by (intro disjI2 exI[of _ j] exI[of _ e]) simp
      qed
    qed
  qed
qed


lemma unlock_cases [case_names unreadable load_failed sink_decrypting open_failed sink_page
    page_failed sink_preparing save_failed sink_complete unlocked]:
  fixes en :: browser_env and input :: "js_error + bytes" and password :: string
    and sink :: "ProgressUpdater option" and st :: browser_state
  obtains
    (unreadable) e where "input = Inl e"
      "unlockPdfInBrowser en input password sink st = (Inl e, st)"
  | (load_failed) arrayBuffer e l1 where "input = Inr arrayBuffer"
      "loadPdfJs (script en) (loader st) = (Inl e, l1)"
      "unlockPdfInBrowser en input password sink st = (Inl e, st\<lparr>loader := l1\<rparr>)"
  | (sink_decrypting) arrayBuffer pdfjsLib l1 e where "input = Inr arrayBuffer"
      "loadPdfJs (script en) (loader st) = (Inr pdfjsLib, l1)"
      "sink_exception sink 30 ''Decrypting PDF...'' = Some e"
      "unlockPdfInBrowser en input password sink st =
         (Inl e,
          st\<lparr>loader := l1,
             progress := progress st @ delivered sink [(30, ''Decrypting PDF...'')]\<rparr>)"
  | (open_failed) arrayBuffer pdfjsLib l1 error where "input = Inr arrayBuffer"
      "loadPdfJs (script en) (loader st) = (Inr pdfjsLib, l1)"
      "sink_exception sink 30 ''Decrypting PDF...'' = None"
      "loadEncryptedPdf pdfjsLib arrayBuffer password = Inl error"
      "unlockPdfInBrowser en input password sink st =
         (Inl (if truthy (err_message error) then error else mk_error msg_unable),
          st\<lparr>loader := l1,
             progress := progress st @ delivered sink [(30, ''Decrypting PDF...'')],
             getDocument_calls := getDocument_calls st @ [(arrayBuffer, password)]\<rparr>)"
  | (sink_page) arrayBuffer pdfjsLib l1 pdfDocument j e where "input = Inr arrayBuffer"
      "loadPdfJs (script en) (loader st) = (Inr pdfjsLib, l1)"
      "sink_exception sink 30 ''Decrypting PDF...'' = None"
      "loadEncryptedPdf pdfjsLib arrayBuffer password = Inr pdfDocument"
      "1 \<le> j" "j \<le> numPages pdfDocument"
      "sink_exception sink (page_progress j (numPages pdfDocument))
         (page_label j (numPages pdfDocument)) = Some e"
      "\<forall>i. 1 \<le> i \<and> i < j \<longrightarrow> (\<exists>pg. render_page en pdfDocument i = Inr pg)"
      "\<forall>i. 1 \<le> i \<and> i < j \<longrightarrow>
         sink_exception sink (page_progress i (numPages pdfDocument))
           (page_label i (numPages pdfDocument)) = None"
      "unlockPdfInBrowser en input password sink st =
         (Inl e,
          st\<lparr>loader := l1,
             progress := progress st @ delivered sink [(30, ''Decrypting PDF...'')]
               @ delivered sink (page_events (numPages pdfDocument) 1 (Suc j)),
             getDocument_calls := getDocument_calls st @ [(arrayBuffer, password)],
             getPage_calls := getPage_calls st @ page_numbers 1 j\<rparr>)"
  | (page_failed) arrayBuffer pdfjsLib l1 pdfDocument j e where "input = Inr arrayBuffer"
      "loadPdfJs (script en) (loader st) = (Inr pdfjsLib, l1)"
      "sink_exception sink 30 ''Decrypting PDF...'' = None"
      "loadEncryptedPdf pdfjsLib arrayBuffer password = Inr pdfDocument"
      "1 \<le> j" "j \<le> numPages pdfDocument" "render_page en pdfDocument j = Inl e"
      "\<forall>i. 1 \<le> i \<and> i < j \<longrightarrow> (\<exists>pg. render_page en pdfDocument i = Inr pg)"
      "\<forall>i. 1 \<le> i \<and> i \<le> j \<longrightarrow>
         sink_exception sink (page_progress i (numPages pdfDocument))
           (page_label i (numPages pdfDocument)) = None"
      "unlockPdfInBrowser en input password sink st =
         (Inl e,
          st\<lparr>loader := l1,
             progress := progress st @ delivered sink [(30, ''Decrypting PDF...'')]
               @ delivered sink (page_events (numPages pdfDocument) 1 (Suc j)),
             getDocument_calls := getDocument_calls st @ [(arrayBuffer, password)],
             getPage_calls := getPage_calls st @ page_numbers 1 (Suc j)\<rparr>)"
  | (sink_preparing) arrayBuffer pdfjsLib l1 pdfDocument pdfDoc e where "input = Inr arrayBuffer"
      "loadPdfJs (script en) (loader st) = (Inr pdfjsLib, l1)"
      "sink_exception sink 30 ''Decrypting PDF...'' = None"
      "loadEncryptedPdf pdfjsLib arrayBuffer password = Inr pdfDocument"
      "map Inr pdfDoc = map (render_page en pdfDocument) [1..<Suc (numPages pdfDocument)]"
      "\<forall>i. 1 \<le> i \<and> i \<le> numPages pdfDocument \<longrightarrow>
         sink_exception sink (page_progress i (numPages pdfDocument))
           (page_label i (numPages pdfDocument)) = None"
      "sink_exception sink 90 ''Preparing unlocked PDF...'' = Some e"
      "unlockPdfInBrowser en input password sink st =
         (Inl e,
          st\<lparr>loader := l1,
             progress := progress st @ delivered sink [(30, ''Decrypting PDF...'')]
               @ delivered sink (page_events (numPages pdfDocument) 1 (Suc (numPages pdfDocument)))
               @ delivered sink [(90, ''Preparing unlocked PDF...'')],
             getDocument_calls := getDocument_calls st @ [(arrayBuffer, password)],
             getPage_calls := getPage_calls st @ page_numbers 1 (Suc (numPages pdfDocument))\<rparr>)"
  | (save_failed) arrayBuffer pdfjsLib l1 pdfDocument pdfDoc e where "input = Inr arrayBuffer"
      "loadPdfJs (script en) (loader st) = (Inr pdfjsLib, l1)"
      "sink_exception sink 30 ''Decrypting PDF...'' = None"
      "loadEncryptedPdf pdfjsLib arrayBuffer password = Inr pdfDocument"
      "map Inr pdfDoc = map (render_page en pdfDocument) [1..<Suc (numPages pdfDocument)]"
      "\<forall>i. 1 \<le> i \<and> i \<le> numPages pdfDocument \<longrightarrow>
         sink_exception sink (page_progress i (numPages pdfDocument))
           (page_label i (numPages pdfDocument)) = None"
      "sink_exception sink 90 ''Preparing unlocked PDF...'' = None"
      "save en pdfDoc = Inl e"
      "unlockPdfInBrowser en input password sink st =
         (Inl e,
          st\<lparr>loader := l1,
             progress := progress st @ delivered sink [(30, ''Decrypting PDF...'')]
               @ delivered sink (page_events (numPages pdfDocument) 1 (Suc (numPages pdfDocument)))
               @ delivered sink [(90, ''Preparing unlocked PDF...'')],
             getDocument_calls := getDocument_calls st @ [(arrayBuffer, password)],
             getPage_calls := getPage_calls st @ page_numbers 1 (Suc (numPages pdfDocument))\<rparr>)"
  | (sink_complete) arrayBuffer pdfjsLib l1 pdfDocument pdfDoc unlockedBytes e where
      "input = Inr arrayBuffer"
      "loadPdfJs (script en) (loader st) = (Inr pdfjsLib, l1)"
      "sink_exception sink 30 ''Decrypting PDF...'' = None"
      "loadEncryptedPdf pdfjsLib arrayBuffer password = Inr pdfDocument"
      "map Inr pdfDoc = map (render_page en pdfDocument) [1..<Suc (numPages pdfDocument)]"
      "\<forall>i. 1 \<le> i \<and> i \<le> numPages pdfDocument \<longrightarrow>
         sink_exception sink (page_progress i (numPages pdfDocument))
           (page_label i (numPages pdfDocument)) = None"
      "sink_exception sink 90 ''Preparing unlocked PDF...'' = None"
      "save en pdfDoc = Inr unlockedBytes"
      "sink_exception sink 100 ''Complete!'' = Some e"
      "unlockPdfInBrowser en input password sink st =
         (Inl e,
          st\<lparr>loader := l1,
             progress := progress st @ delivered sink [(30, ''Decrypting PDF...'')]
               @ delivered sink (page_events (numPages pdfDocument) 1 (Suc (numPages pdfDocument)))
               @ delivered sink [(90, ''Preparing unlocked PDF...'')]
               @ delivered sink [(100, ''Complete!'')],
             getDocument_calls := getDocument_calls st @ [(arrayBuffer, password)],
             getPage_calls := getPage_calls st @ page_numbers 1 (Suc (numPages pdfDocument))\<rparr>)"
  | (unlocked) arrayBuffer pdfjsLib l1 pdfDocument pdfDoc unlockedBytes where
      "input = Inr arrayBuffer"
      "loadPdfJs (script en) (loader st) = (Inr pdfjsLib, l1)"
      "sink_exception sink 30 ''Decrypting PDF...'' = None"
      "loadEncryptedPdf pdfjsLib arrayBuffer password = Inr pdfDocument"
      "map Inr pdfDoc = map (render_page en pdfDocument) [1..<Suc (numPages pdfDocument)]"
      "\<forall>i. 1 \<le> i \<and> i \<le> numPages pdfDocument \<longrightarrow>
         sink_exception sink (page_progress i (numPages pdfDocument))
           (page_label i (numPages pdfDocument)) = None"
      "sink_exception sink 90 ''Preparing unlocked PDF...'' = None"
      "save en pdfDoc = Inr unlockedBytes"
      "sink_exception sink 100 ''Complete!'' = None"
      "unlockPdfInBrowser en input password sink st =
         (Inr \<lparr>blob_parts = unlockedBytes, blob_type = ''application/pdf''\<rparr>,
          st\<lparr>loader := l1,
             progress := progress st @ delivered sink [(30, ''Decrypting PDF...'')]
               @ delivered sink (page_events (numPages pdfDocument) 1 (Suc (numPages pdfDocument)))
               @ delivered sink [(90, ''Preparing unlocked PDF...'')]
               @ delivered sink [(100, ''Complete!'')],
             getDocument_calls := getDocument_calls st @ [(arrayBuffer, password)],
             getPage_calls := getPage_calls st @ page_numbers 1 (Suc (numPages pdfDocument))\<rparr>)"
proof (cases input)
  case (Inl e)
  then show ?thesis
    using unreadable[of e] by (simp add: unlockPdfInBrowser_def)
next
  case (Inr arrayBuffer)
  obtain r l1 where load: "loadPdfJs (script en) (loader st) = (r, l1)"
    by (cases "loadPdfJs (script en) (loader st)")
  show ?thesis
  proof (cases r)
    case (Inl e)
    show ?thesis
      using load_failed[OF Inr load[unfolded Inl]] load Inl Inr
      by (simp add: unlockPdfInBrowser_def)
  next
    case lib: (Inr pdfjsLib)
    note load' = load[unfolded lib]
    show ?thesis
    proof (cases "sink_exception sink 30 ''Decrypting PDF...''")
      case (Some e)
      show ?thesis
        using sink_decrypting[OF Inr load' Some] Inr load' Some
        by (simp add: unlockPdfInBrowser_def updateProgress_eq)
    next
      case s30: None
      define st2 where
        "st2 = st\<lparr>loader := l1,
                  progress := progress st @ delivered sink [(30, ''Decrypting PDF...'')],
                  getDocument_calls := getDocument_calls st @ [(arrayBuffer, password)]\<rparr>"
      define preparing where "preparing = delivered sink [(90::int, ''Preparing unlocked PDF...'')]"
      define completed where "completed = delivered sink [(100::int, ''Complete!'')]"
      have run: "unlockPdfInBrowser en input password sink st =
        (case loadEncryptedPdf pdfjsLib arrayBuffer password of
           Inl error \<Rightarrow>
             if truthy (err_message error) then (Inl error, st2)
             else (Inl (mk_error msg_unable), st2)
         | Inr pdfDocument \<Rightarrow>
             (case render_pages en sink pdfDocument 1 (numPages pdfDocument) [] st2 of
                (Inl e, st3) \<Rightarrow> (Inl e, st3)
              | (Inr pdfDoc, st3) \<Rightarrow>
                  (case sink_exception sink 90 ''Preparing unlocked PDF...'' of
                     Some e \<Rightarrow> (Inl e, st3\<lparr>progress := progress st3 @ preparing\<rparr>)
                   | None \<Rightarrow>
                       (case save en pdfDoc of
                          Inl e \<Rightarrow> (Inl e, st3\<lparr>progress := progress st3 @ preparing\<rparr>)
                        | Inr unlockedBytes \<Rightarrow>
                            (case sink_exception sink 100 ''Complete!'' of
                               Some e \<Rightarrow>
                                 (Inl e, st3\<lparr>progress := progress st3 @ preparing @ completed\<rparr>)
                             | None \<Rightarrow>
                                 (Inr \<lparr>blob_parts = unlockedBytes,
                                       blob_type = ''application/pdf''\<rparr>,
                                  st3\<lparr>progress := progress st3 @ preparing @ completed\<rparr>))))))"
        using Inr load' s30
        by (simp add: unlockPdfInBrowser_def updateProgress_eq Let_def st2_def
              preparing_def completed_def
            split: sum.splits prod.splits option.splits)
      show ?thesis
      proof (cases "loadEncryptedPdf pdfjsLib arrayBuffer password")
        case (Inl error)
        show ?thesis
          using open_failed[OF Inr load' s30 Inl] Inl
          by (simp add: run st2_def)
      next
        case doc: (Inr pdfDocument)
        define N where "N = numPages pdfDocument"
        have "1 \<le> Suc N" by simp
        from render_pages_result[OF this, of en sink pdfDocument "[]" st2]
        show ?thesis
        proof (elim disjE exE conjE)
          fix pdfDoc
          assume r: "render_pages en sink pdfDocument 1 N [] st2 =
            (Inr ([] @ pdfDoc),
             st2\<lparr>progress := progress st2 @ delivered sink (page_events N 1 (Suc N)),
                 getPage_calls := getPage_calls st2 @ page_numbers 1 (Suc N)\<rparr>)"
            and m: "map Inr pdfDoc = map (render_page en pdfDocument) [1..<Suc N]"
            and s: "\<forall>i. 1 \<le> i \<and> i \<le> N \<longrightarrow>
                      sink_exception sink (page_progress i N) (page_label i N) = None"
          define st3 where
            "st3 = st2\<lparr>progress := progress st2 @ delivered sink (page_events N 1 (Suc N)),
                       getPage_calls := getPage_calls st2 @ page_numbers 1 (Suc N)\<rparr>"
          have r': "render_pages en sink pdfDocument 1 (numPages pdfDocument) [] st2
                      = (Inr pdfDoc, st3)"
            using r by (simp add: st3_def N_def)
          have run': "unlockPdfInBrowser en input password sink st =
                  (case sink_exception sink 90 ''Preparing unlocked PDF...'' of
                     Some e \<Rightarrow> (Inl e, st3\<lparr>progress := progress st3 @ preparing\<rparr>)
                   | None \<Rightarrow>
                       (case save en pdfDoc of
                          Inl e \<Rightarrow> (Inl e, st3\<lparr>progress := progress st3 @ preparing\<rparr>)
                        | Inr unlockedBytes \<Rightarrow>
                            (case sink_exception sink 100 ''Complete!'' of
                               Some e \<Rightarrow>
                                 (Inl e, st3\<lparr>progress := progress st3 @ preparing @ completed\<rparr>)
                             | None \<Rightarrow>
                                 (Inr \<lparr>blob_parts = unlockedBytes,
                                       blob_type = ''application/pdf''\<rparr>,
                                  st3\<lparr>progress := progress st3 @ preparing @ completed\<rparr>))))"
            by (simp only: run doc r' sum.case prod.case)
          show ?thesis
          proof (cases "sink_exception sink 90 ''Preparing unlocked PDF...''")
            case (Some e)
            have "unlockPdfInBrowser en input password sink st
                    = (Inl e, st3\<lparr>progress := progress st3 @ preparing\<rparr>)"
              by (simp only: run' Some option.case)
            then show ?thesis
              using sink_preparing[OF Inr load' s30 doc m[unfolded N_def] s[unfolded N_def] Some]
              by (simp add: st3_def st2_def preparing_def N_def)
          next
            case s90: None
            show ?thesis
            proof (cases "save en pdfDoc")
              case (Inl e)
              have "unlockPdfInBrowser en input password sink st
                      = (Inl e, st3\<lparr>progress := progress st3 @ preparing\<rparr>)"
                by (simp only: run' s90 Inl option.case sum.case)
              then show ?thesis
                using save_failed[OF Inr load' s30 doc m[unfolded N_def] s[unfolded N_def] s90 Inl]
                by (simp add: st3_def st2_def preparing_def N_def)
            next
              case bytes: (Inr unlockedBytes)
              show ?thesis
              proof (cases "sink_exception sink 100 ''Complete!''")
                case (Some e)
                have "unlockPdfInBrowser en input password sink st
                        = (Inl e, st3\<lparr>progress := progress st3 @ preparing @ completed\<rparr>)"
                  by (simp only: run' s90 bytes Some option.case sum.case)
                then show ?thesis
                  using sink_complete[OF Inr load' s30 doc m[unfolded N_def] s[unfolded N_def]
                          s90 bytes Some]
                  by (simp add: st3_def st2_def preparing_def completed_def N_def)
              next
                case s100: None
                have "unlockPdfInBrowser en input password sink st
                        = (Inr \<lparr>blob_parts = unlockedBytes, blob_type = ''application/pdf''\<rparr>,
                           st3\<lparr>progress := progress st3 @ preparing @ completed\<rparr>)"
                  by (simp only: run' s90 bytes s100 option.case sum.case)
                then show ?thesis
                  using unlocked[OF Inr load' s30 doc m[unfolded N_def] s[unfolded N_def]
                          s90 bytes s100]
                  by (simp add: st3_def st2_def preparing_def completed_def N_def)
              qed
            qed
          qed
        next
          fix j e
          assume j: "1 \<le> j" "j \<le> N" "render_page en pdfDocument j = Inl e"
            "\<forall>i. 1 \<le> i \<and> i < j \<longrightarrow> (\<exists>pg. render_page en pdfDocument i = Inr pg)"
            "\<forall>i. 1 \<le> i \<and> i \<le> j \<longrightarrow>
               sink_exception sink (page_progress i N) (page_label i N) = None"
            and r: "render_pages en sink pdfDocument 1 N [] st2 =
              (Inl e, st2\<lparr>progress := progress st2 @ delivered sink (page_events N 1 (Suc j)),
                          getPage_calls := getPage_calls st2 @ page_numbers 1 (Suc j)\<rparr>)"
          have "unlockPdfInBrowser en input password sink st =
              (Inl e, st2\<lparr>progress := progress st2 @ delivered sink (page_events N 1 (Suc j)),
                          getPage_calls := getPage_calls st2 @ page_numbers 1 (Suc j)\<rparr>)"
            by (simp only: run doc r[unfolded N_def] N_def sum.case prod.case)
          then show ?thesis
            using page_failed[OF Inr load' s30 doc j(1) j(2)[unfolded N_def] j(3,4) j(5)[unfolded N_def]]
            by (simp add: st2_def N_def)
        next
          fix j e
          assume j: "1 \<le> j" "j \<le> N"
            "sink_exception sink (page_progress j N) (page_label j N) = Some e"
            "\<forall>i. 1 \<le> i \<and> i < j \<longrightarrow> (\<exists>pg. render_page en pdfDocument i = Inr pg)"
            "\<forall>i. 1 \<le> i \<and> i < j \<longrightarrow>
               sink_exception sink (page_progress i N) (page_label i N) = None"
            and r: "render_pages en sink pdfDocument 1 N [] st2 =
              (Inl e, st2\<lparr>progress := progress st2 @ delivered sink (page_events N 1 (Suc j)),
                          getPage_calls := getPage_calls st2 @ page_numbers 1 j\<rparr>)"
          have "unlockPdfInBrowser en input password sink st =
              (Inl e, st2\<lparr>progress := progress st2 @ delivered sink (page_events N 1 (Suc j)),
                          getPage_calls := getPage_calls st2 @ page_numbers 1 j\<rparr>)"
            by (simp only: run doc r[unfolded N_def] N_def sum.case prod.case)
          then show ?thesis
            using sink_page[OF Inr load' s30 doc j(1) j(2)[unfolded N_def] j(3)[unfolded N_def]
                    j(4) j(5)[unfolded N_def]]
            by (simp add: st2_def N_def)
        qed
      qed
    qed
  qed
qed

lemma progress_without_sink:
  "progress (snd (unlockPdfInBrowser en file password None st)) = progress st"
  by (cases en "file" password "None :: ProgressUpdater option" st rule: unlock_cases) simp_all

lemma render_page_Inr:
  assumes "render_page en pdfDocument i = Inr pg"
  shows "\<exists>page imageBytes. getPage pdfDocument i = Inr page \<and> getContext en i
           \<and> render page (getViewport page 2) = None
           \<and> toDataURL en i = Inr imageBytes \<and> embedPng en imageBytes = None
           \<and> pg = \<lparr>page_width = width (getViewport page 2),
                    page_height = height (getViewport page 2),
                    image = imageBytes, image_x = 0, image_y = 0,
                    image_width = width (getViewport page 2),
                    image_height = height (getViewport page 2)\<rparr>"
  using assms
  by (auto simp: render_page_def Let_def split: sum.splits if_splits option.splits)

lemma render_page_Inl:
  assumes "render_page en pdfDocument i = Inl e"
  shows "e = mk_error ''Canvas rendering is not supported in this environment.''
       \<or> getPage pdfDocument i = Inl e
       \<or> (\<exists>page. getPage pdfDocument i = Inr page
             \<and> (render page (getViewport page 2) = Some e
                \<or> toDataURL en i = Inl e
                \<or> (\<exists>imageBytes. toDataURL en i = Inr imageBytes
                      \<and> embedPng en imageBytes = Some e)))"
  using assms
  by (auto simp: render_page_def Let_def split: sum.splits if_splits option.splits)

lemma render_fails:
  assumes "getPage pdfDocument j = Inr page" "getContext en j"
    and "render page (getViewport page 2) = Some e"
  shows "render_page en pdfDocument j = Inl e"
  using assms by (simp add: render_page_def Let_def)

lemma embed_fails:
  assumes "getPage pdfDocument j = Inr page" "getContext en j"
    and "render page (getViewport page 2) = None"
    and "toDataURL en j = Inr imageBytes" "embedPng en imageBytes = Some e"
  shows "render_page en pdfDocument j = Inl e"
  using assms by (simp add: render_page_def Let_def)

lemma step_fails:
  assumes "getPage pdfDocument j = Inr page"
    and "render page (getViewport page 2) = Some e
         \<or> (toDataURL en j = Inr imageBytes \<and> embedPng en imageBytes = Some e)"
  shows "\<exists>e'. render_page en pdfDocument j = Inl e'"
  using assms
  by (auto simp: render_page_def Let_def split: sum.splits if_splits option.splits)

lemma rendered_pages:
  assumes "map Inr pdfDoc = map (render_page en pdfDocument) [1..<Suc n]"
  shows "length pdfDoc = n"
    and "1 \<le> i \<Longrightarrow> i \<le> n \<Longrightarrow> render_page en pdfDocument i = Inr (pdfDoc ! (i - 1))"
proof -
  from assms have "length (map Inr pdfDoc :: (js_error + out_page) list)
                    = length (map (render_page en pdfDocument) [1..<Suc n])"
    by simp
  then show len: "length pdfDoc = n" by (simp del: upt_Suc)
  assume i: "1 \<le> i" "i \<le> n"
  then have "(map Inr pdfDoc :: (js_error + out_page) list) ! (i - 1)
               = map (render_page en pdfDocument) [1..<Suc n] ! (i - 1)"
    using assms by simp
  moreover have "map (render_page en pdfDocument) [1..<Suc n] ! (i - 1) = render_page en pdfDocument i"
    using i by (simp del: upt_Suc)
  ultimately show "render_page en pdfDocument i = Inr (pdfDoc ! (i - 1))"
    using i len by simp
qed


subsection \<open>The sample decoder, evaluated\<close>

lemma sample_load:
  "loadPdfJs (script (sample_browser n)) sample_loader =
     (Inr ((sample_lib n)\<lparr>workerSrc := Some worker_url\<rparr>),
      \<lparr>window_defined = True,
       window_pdfjsLib = Some ((sample_lib n)\<lparr>workerSrc := Some worker_url\<rparr>),
       pdfJsLoader = Some (Inr ((sample_lib n)\<lparr>workerSrc := Some worker_url\<rparr>)),
       scripts_appended = 1\<rparr>)"
  by (simp add: loadPdfJs_def sample_browser_def sample_loader_def Let_def)

lemma sample_open:
  "data \<noteq> [] \<Longrightarrow>
     loadEncryptedPdf ((sample_lib n)\<lparr>workerSrc := Some worker_url\<rparr>) data ''hunter2''
       = Inr (sample_document n)"
  by (simp add: loadEncryptedPdf_def sample_lib_def Let_def)

lemma sample_render_page:
  "1 \<le> i \<Longrightarrow> i \<le> n \<Longrightarrow>
     render_page (sample_browser n) (sample_document n) i =
       Inr \<lparr>page_width = 1224, page_height = 1584, image = ''PNG'' @ toString i,
            image_x = 0, image_y = 0, image_width = 1224, image_height = 1584\<rparr>"
  by (simp add: render_page_def sample_browser_def sample_document_def sample_page_def Let_def)

lemma numPages_sample: "numPages (sample_document n) = n"
  by (simp add: sample_document_def)

lemma sample_unlock:
  assumes "data \<noteq> []" "loader st = sample_loader"
    and quiet: "\<forall>p step. p \<noteq> 100 \<longrightarrow> sink_exception sink p step = None"
  shows "unlockPdfInBrowser (sample_browser n) (Inr data) ''hunter2'' sink st =
     ((case sink_exception sink 100 ''Complete!'' of
         None \<Rightarrow> Inr \<lparr>blob_parts = ''%PDF-pages-'' @ toString n, blob_type = ''application/pdf''\<rparr>
       | Some e \<Rightarrow> Inl e),
      st\<lparr>loader := snd (loadPdfJs (script (sample_browser n)) sample_loader),
         progress := progress st @ delivered sink ([(30, ''Decrypting PDF...'')]
           @ page_events n 1 (Suc n)
           @ [(90, ''Preparing unlocked PDF...''), (100, ''Complete!'')]),
         getDocument_calls := getDocument_calls st @ [(data, ''hunter2'')],
         getPage_calls := getPage_calls st @ page_numbers 1 (Suc n)\<rparr>)"
proof (cases "sample_browser n" "Inr data :: js_error + bytes" "''hunter2''" sink st
        rule: unlock_cases)
  case (unreadable e)
  then show ?thesis by simp
next
  case (load_failed arrayBuffer e l1)
  then show ?thesis using assms by (simp add: sample_load)
next
  case (sink_decrypting arrayBuffer pdfjsLib l1 e)
  then show ?thesis using quiet by simp
next
  case (open_failed arrayBuffer pdfjsLib l1 error)
  then show ?thesis using assms by (auto simp: sample_load sample_open)
next
  case (sink_page arrayBuffer pdfjsLib l1 pdfDocument j e)
  then have "pdfDocument = sample_document n"
    using assms by (auto simp: sample_load sample_open)
  then have "page_progress j (numPages pdfDocument) \<le> 80"
    using sink_page(6) by (intro page_progress_upper) simp
  then have "page_progress j (numPages pdfDocument) \<noteq> 100" by simp
  with quiet sink_page(7) show ?thesis by simp
next
  case (page_failed arrayBuffer pdfjsLib l1 pdfDocument j e)
  then have "pdfDocument = sample_document n"
    using assms by (auto simp: sample_load sample_open)
  with page_failed(5-7) show ?thesis
    by (simp add: sample_render_page numPages_sample)
next
  case (sink_preparing arrayBuffer pdfjsLib l1 pdfDocument pdfDoc e)
  then show ?thesis using quiet by simp
next
  case (save_failed arrayBuffer pdfjsLib l1 pdfDocument pdfDoc e)
  then show ?thesis by (simp add: sample_browser_def)
next
  case (sink_complete arrayBuffer pdfjsLib l1 pdfDocument pdfDoc unlockedBytes e)
  then have doc: "pdfDocument = sample_document n"
    and l1: "l1 = snd (loadPdfJs (script (sample_browser n)) sample_loader)"
    and ab: "arrayBuffer = data"
    using assms by (auto simp: sample_load sample_open)
  show ?thesis
    using sink_complete(9,10) doc l1 ab by (cases sink) (simp_all add: numPages_sample)
next
  case (unlocked arrayBuffer pdfjsLib l1 pdfDocument pdfDoc unlockedBytes)
  then have doc: "pdfDocument = sample_document n"
    and l1: "l1 = snd (loadPdfJs (script (sample_browser n)) sample_loader)"
    and ab: "arrayBuffer = data"
    using assms by (auto simp: sample_load sample_open)
  have "length pdfDoc = n"
    using rendered_pages(1)[OF unlocked(5)] doc by (simp add: numPages_sample)
  then have "unlockedBytes = ''%PDF-pages-'' @ toString n"
    using unlocked(8) by (simp add: sample_browser_def)
  then show ?thesis
    using unlocked(9,10) doc l1 ab by (cases sink) (simp_all add: numPages_sample)
qed

lemma sample_unlock_silent:
  "unlockPdfInBrowser (sample_browser n) (Inr ''%PDF-locked'') ''hunter2'' (Some silent) sample_state =
     (Inr \<lparr>blob_parts = ''%PDF-pages-'' @ toString n, blob_type = ''application/pdf''\<rparr>,
      \<lparr>loader = snd (loadPdfJs (script (sample_browser n)) sample_loader),
       progress = [(30, ''Decrypting PDF...'')] @ page_events n 1 (Suc n)
           @ [(90, ''Preparing unlocked PDF...''), (100, ''Complete!'')],
       getDocument_calls = [(''%PDF-locked'', ''hunter2'')],
       getPage_calls = page_numbers 1 (Suc n)\<rparr>)"
proof -
  have "\<forall>p step. p \<noteq> 100 \<longrightarrow> sink_exception (Some silent) p step = None"
    by (simp add: silent_def)
  from sample_unlock[OF _ _ this, of "''%PDF-locked''" sample_state n]
  show ?thesis
    by (simp add: sample_state_def silent_def)
qed

lemma sample_unlock_throwing:
  "unlockPdfInBrowser (sample_browser n) (Inr ''%PDF-locked'') ''hunter2'' (Some throws_at_100)
       sample_state =
     (Inl sink_error,
      \<lparr>loader = snd (loadPdfJs (script (sample_browser n)) sample_loader),
       progress = [(30, ''Decrypting PDF...'')] @ page_events n 1 (Suc n)
           @ [(90, ''Preparing unlocked PDF...''), (100, ''Complete!'')],
       getDocument_calls = [(''%PDF-locked'', ''hunter2'')],
       getPage_calls = page_numbers 1 (Suc n)\<rparr>)"
proof -
  have "\<forall>p step. p \<noteq> 100 \<longrightarrow> sink_exception (Some throws_at_100) p step = None"
    by (simp add: throws_at_100_def)
  from sample_unlock[OF _ _ this, of "''%PDF-locked''" sample_state n]
  show ?thesis
    by (simp add: sample_state_def throws_at_100_def)
qed

lemma fresh_sample_state [simp]: "fresh sample_state = sample_state"
  by (simp add: fresh_def sample_state_def)

lemma toString_digit: "n < 10 \<Longrightarrow> toString n = [digit_char n]"
  by (simp add: toString.simps)

lemma sample_events_3:
  "page_events 3 (Suc 0) 4 = [(47, ''Rendering page 1 of 3...''), (63, ''Rendering page 2 of 3...''),
                        (80, ''Rendering page 3 of 3...'')]"
proof -
  have p: "page_progress (Suc 0) 3 = 47" "page_progress 2 3 = 63" "page_progress 3 3 = 80"
    using page_progress_1_3 page_progress_2_3 page_progress_last[of 3] by simp_all
  have e: "Suc (Suc 0) = 2" "Suc 2 = 3" by simp_all
  have "[Suc 0..<4] = [Suc 0, 2, 3]"
    by (simp add: upt_conv_Cons e)
  then show ?thesis
    by (simp add: page_events_def page_label_def toString_digit digit_char_def p)
qed

section \<open>The claims about the Rasterize-Rebuild strategy\<close>



text \<open>
  C6, as the code has it. In every call the percentages the callback is called with
  are non-decreasing. When a callback was passed and the call returns result bytes, the
  last percentage is 100. When the last percentage is 100, the call has returned result
  bytes, or the callback has thrown on that very event and the call fails with the
  exception of the callback. So for a callback that never throws, the last percentage is
  100 exactly when the call returns result bytes.
\<close>

theorem progress_nondecreasing_final_event:
  "sorted (percentages (snd (unlock_observed en file password sink st)))
   \<and> ((\<exists>result. fst (unlock_observed en file password sink st) = Inr result) \<and> sink \<noteq> None \<longrightarrow>
        percentages (snd (unlock_observed en file password sink st)) \<noteq> []
        \<and> last (percentages (snd (unlock_observed en file password sink st))) = 100)
   \<and> (percentages (snd (unlock_observed en file password sink st)) \<noteq> []
        \<and> last (percentages (snd (unlock_observed en file password sink st))) = 100 \<longrightarrow>
        (\<exists>result. fst (unlock_observed en file password sink st) = Inr result)
        \<or> (\<exists>e. sink_exception sink 100 ''Complete!'' = Some e
              \<and> fst (unlock_observed en file password sink st) = Inl e))
   \<and> ((\<forall>p step. sink_exception sink p step = None) \<and> sink \<noteq> None \<longrightarrow>
        (percentages (snd (unlock_observed en file password sink st)) \<noteq> []
           \<and> last (percentages (snd (unlock_observed en file password sink st))) = 100)
          = (\<exists>result. fst (unlock_observed en file password sink st) = Inr result))"
proof (cases sink)
  case None
  have "percentages (snd (unlock_observed en file password sink st)) = []"
    by (simp add: None unlock_observed_def percentages_def progress_without_sink fresh_def)
  then show ?thesis using None by simp
next
  case (Some f)
  note defs = unlock_observed_def percentages_def fresh_def
  show ?thesis
  proof (cases en "file" password sink "fresh st" rule: unlock_cases)
    case (unreadable e)
    then show ?thesis by (simp add: defs)
  next
    case (load_failed arrayBuffer e l1)
    then show ?thesis by (simp add: defs)
  next
    case (sink_decrypting arrayBuffer pdfjsLib l1 e)
    then show ?thesis by (simp add: defs Some)
  next
    case (open_failed arrayBuffer pdfjsLib l1 error)
    then show ?thesis by (simp add: defs Some)
  next
    case (sink_page arrayBuffer pdfjsLib l1 pdfDocument j e)
    then have j: "Suc j \<le> Suc (numPages pdfDocument)" by simp
    show ?thesis
      using sink_page(10) sorted_call(1)[OF j, of 1] last_page_events[OF j, of 1]
      by (simp add: defs Some)
  next
    case (page_failed arrayBuffer pdfjsLib l1 pdfDocument j e)
    then have j: "Suc j \<le> Suc (numPages pdfDocument)" by simp
    show ?thesis
      using page_failed(10) sorted_call(1)[OF j, of 1] last_page_events[OF j, of 1]
      by (simp add: defs Some)
  next
    case (sink_preparing arrayBuffer pdfjsLib l1 pdfDocument pdfDoc e)
    show ?thesis
      using sink_preparing(8) sorted_call(2)[OF order_refl, of "numPages pdfDocument" 1]
      by (simp add: defs Some)
  next
    case (save_failed arrayBuffer pdfjsLib l1 pdfDocument pdfDoc e)
    show ?thesis
      using save_failed(9) sorted_call(2)[OF order_refl, of "numPages pdfDocument" 1]
      by (simp add: defs Some)
  next
    case (sink_complete arrayBuffer pdfjsLib l1 pdfDocument pdfDoc unlockedBytes e)
    show ?thesis
      using sink_complete(9,10) sorted_call(3)[OF order_refl, of "numPages pdfDocument" 1]
      by (auto simp: defs Some)
  next
    case (unlocked arrayBuffer pdfjsLib l1 pdfDocument pdfDoc unlockedBytes)
    show ?thesis
      using unlocked(10) sorted_call(3)[OF order_refl, of "numPages pdfDocument" 1]
      by (simp add: defs Some)
  qed
qed

theorem progress_nondecreasing_final_event_witness:
  "(\<forall>p step. sink_exception (Some silent) p step = None)
   \<and> percentages (snd (unlock_observed (sample_browser 3) (Inr ''%PDF-locked'') ''hunter2''
                          (Some silent) sample_state))
     = [30, 47, 63, 80, 90, 100]
   \<and> sorted (percentages (snd (unlock_observed (sample_browser 3) (Inr ''%PDF-locked'')
                                   ''hunter2'' (Some silent) sample_state)))
   \<and> last (percentages (snd (unlock_observed (sample_browser 3) (Inr ''%PDF-locked'')
                                   ''hunter2'' (Some silent) sample_state))) = 100
   \<and> (\<exists>result. fst (unlock_observed (sample_browser 3) (Inr ''%PDF-locked'')
                                   ''hunter2'' (Some silent) sample_state) = Inr result)"
proof -
  have q: "\<forall>p step. sink_exception (Some silent) p step = None"
    by (simp add: silent_def)
  have p: "percentages (snd (unlock_observed (sample_browser 3) (Inr ''%PDF-locked'') ''hunter2''
                          (Some silent) sample_state))
     = [30, 47, 63, 80, 90, 100]"
    by (simp add: unlock_observed_def sample_unlock_silent percentages_def sample_events_3)
  note inst = progress_nondecreasing_final_event
      [of "sample_browser 3" "Inr ''%PDF-locked''" "''hunter2''" "Some silent" sample_state]
  from inst have s: "sorted (percentages (snd (unlock_observed (sample_browser 3)
                         (Inr ''%PDF-locked'') ''hunter2'' (Some silent) sample_state)))"
    by (rule conjunct1)
  from p have l: "percentages (snd (unlock_observed (sample_browser 3) (Inr ''%PDF-locked'')
                       ''hunter2'' (Some silent) sample_state)) \<noteq> []
     \<and> last (percentages (snd (unlock_observed (sample_browser 3) (Inr ''%PDF-locked'')
                                   ''hunter2'' (Some silent) sample_state))) = 100"
    by simp
  with inst q have r: "\<exists>result. fst (unlock_observed (sample_browser 3) (Inr ''%PDF-locked'')
                                   ''hunter2'' (Some silent) sample_state) = Inr result"
    by blast
  from q p s l r show ?thesis by blast
qed

text \<open>
  C6, as stated, fails when the callback throws on the last event: the percentages end
  with 100, and the call does not return result bytes, it fails with the exception of
  the callback.
\<close>

theorem callback_throws_at_100_counterexample:
  "percentages (snd (unlock_observed (sample_browser 3) (Inr ''%PDF-locked'') ''hunter2''
                        (Some throws_at_100) sample_state))
     = [30, 47, 63, 80, 90, 100]
   \<and> fst (unlock_observed (sample_browser 3) (Inr ''%PDF-locked'') ''hunter2''
            (Some throws_at_100) sample_state) = Inl sink_error"
  by (simp add: unlock_observed_def sample_unlock_throwing percentages_def sample_events_3)

text \<open>
  C9, as the code has it. A successful call with a callback on a document of \<open>N\<close> pages
  emits the event at 30, then exactly one event per page, in page order, then 90 and
  100. The event of page \<open>i\<close> is at 30 plus \<open>Math.round\<close> of the double
  \<open>(i / N) * 50\<close>; it lies between 30 and 80 inclusive, never decreases from a page
  to the next, is above 30 whenever \<open>N \<le> 100 * i\<close> (so for every page of a document of at
  most 100 pages), and is 80 for the last page.
\<close>

theorem per_page_progress:
  assumes "unlock_observed en file password (Some f) st = (Inr result, st')"
  shows "\<exists>arrayBuffer pdfjsLib l1 pdfDocument.
      file = Inr arrayBuffer \<and> loadPdfJs (script en) (loader st) = (Inr pdfjsLib, l1)
      \<and> loadEncryptedPdf pdfjsLib arrayBuffer password = Inr pdfDocument
      \<and> progress st' = [(30, ''Decrypting PDF...'')]
             @ page_events (numPages pdfDocument) 1 (Suc (numPages pdfDocument))
             @ [(90, ''Preparing unlocked PDF...''), (100, ''Complete!'')]
      \<and> length (page_events (numPages pdfDocument) 1 (Suc (numPages pdfDocument)))
            = numPages pdfDocument
      \<and> (\<forall>i. 1 \<le> i \<and> i \<le> numPages pdfDocument \<longrightarrow>
            page_events (numPages pdfDocument) 1 (Suc (numPages pdfDocument)) ! (i - 1)
              = (30 + Math_round (double_mul (double_div (of_nat i)
                                                (of_nat (numPages pdfDocument))) 50),
                 page_label i (numPages pdfDocument))
            \<and> 30 \<le> page_progress i (numPages pdfDocument)
            \<and> page_progress i (numPages pdfDocument) \<le> 80
            \<and> (numPages pdfDocument \<le> 100 * i \<longrightarrow> 30 < page_progress i (numPages pdfDocument))
            \<and> (i = numPages pdfDocument \<longrightarrow> page_progress i (numPages pdfDocument) = 80)
            \<and> (\<forall>j. i \<le> j \<longrightarrow>
                  page_progress i (numPages pdfDocument) \<le> page_progress j (numPages pdfDocument)))"
proof (cases en "file" password "Some f" "fresh st" rule: unlock_cases)
  case (unlocked arrayBuffer pdfjsLib l1 pdfDocument pdfDoc unlockedBytes)
  define N where "N = numPages pdfDocument"
  have st': "progress st' = [(30, ''Decrypting PDF...'')] @ page_events N 1 (Suc N)
             @ [(90, ''Preparing unlocked PDF...''), (100, ''Complete!'')]"
    using assms unlocked(10) by (simp add: unlock_observed_def fresh_def N_def)
  have len: "length (page_events N 1 (Suc N)) = N"
    by (simp add: page_events_def del: upt_Suc)
  have each: "\<forall>i. 1 \<le> i \<and> i \<le> N \<longrightarrow>
            page_events N 1 (Suc N) ! (i - 1)
              = (30 + Math_round (double_mul (double_div (of_nat i) (of_nat N)) 50),
                 page_label i N)
            \<and> 30 \<le> page_progress i N \<and> page_progress i N \<le> 80
            \<and> (N \<le> 100 * i \<longrightarrow> 30 < page_progress i N)
            \<and> (i = N \<longrightarrow> page_progress i N = 80)
            \<and> (\<forall>j. i \<le> j \<longrightarrow> page_progress i N \<le> page_progress j N)"
  proof (intro allI impI)
    fix i assume i: "1 \<le> i \<and> i \<le> N"
    then have N: "0 < N" by simp
    have "i - 1 < length [1..<Suc N]" "1 + (i - 1) < Suc N" "1 + (i - 1) = i"
      using i by (auto simp del: upt_Suc)
    then have "page_events N 1 (Suc N) ! (i - 1) = (page_progress i N, page_label i N)"
      unfolding page_events_def by (simp only: nth_map nth_upt)
    then show "page_events N 1 (Suc N) ! (i - 1)
              = (30 + Math_round (double_mul (double_div (of_nat i) (of_nat N)) 50),
                 page_label i N)
            \<and> 30 \<le> page_progress i N \<and> page_progress i N \<le> 80
            \<and> (N \<le> 100 * i \<longrightarrow> 30 < page_progress i N)
            \<and> (i = N \<longrightarrow> page_progress i N = 80)
            \<and> (\<forall>j. i \<le> j \<longrightarrow> page_progress i N \<le> page_progress j N)"
      using i page_progress_lower[of i N] page_progress_upper[of i N]
        page_progress_above[OF N, of i] page_progress_last[OF N] page_progress_mono[of i _ N]
      by (simp add: page_progress_def)
  qed
  from unlocked(1,2,4) st' len each show ?thesis
    unfolding N_def by (simp add: fresh_def)
qed (use assms in \<open>simp_all add: unlock_observed_def\<close>)

theorem per_page_progress_witness:
  "unlock_observed (sample_browser 3) (Inr ''%PDF-locked'') ''hunter2'' (Some silent) sample_state
     = (Inr \<lparr>blob_parts = ''%PDF-pages-3'', blob_type = ''application/pdf''\<rparr>,
        snd (unlock_observed (sample_browser 3) (Inr ''%PDF-locked'') ''hunter2'' (Some silent)
               sample_state))
   \<and> progress (snd (unlock_observed (sample_browser 3) (Inr ''%PDF-locked'') ''hunter2''
                       (Some silent) sample_state))
     = [(30, ''Decrypting PDF...''), (47, ''Rendering page 1 of 3...''),
        (63, ''Rendering page 2 of 3...''), (80, ''Rendering page 3 of 3...''),
        (90, ''Preparing unlocked PDF...''), (100, ''Complete!'')]"
proof -
  have run: "unlock_observed (sample_browser 3) (Inr ''%PDF-locked'') ''hunter2'' (Some silent)
               sample_state
     = (Inr \<lparr>blob_parts = ''%PDF-pages-3'', blob_type = ''application/pdf''\<rparr>,
        snd (unlock_observed (sample_browser 3) (Inr ''%PDF-locked'') ''hunter2'' (Some silent)
               sample_state))"
    by (simp add: unlock_observed_def sample_unlock_silent toString_digit digit_char_def)
  from per_page_progress[OF run]
  obtain arrayBuffer pdfjsLib l1 pdfDocument where
    "loadPdfJs (script (sample_browser 3)) (loader sample_state) = (Inr pdfjsLib, l1)"
    "Inr ''%PDF-locked'' = (Inr arrayBuffer :: js_error + bytes)"
    "loadEncryptedPdf pdfjsLib arrayBuffer ''hunter2'' = Inr pdfDocument"
    "progress (snd (unlock_observed (sample_browser 3) (Inr ''%PDF-locked'') ''hunter2''
                       (Some silent) sample_state))
      = [(30, ''Decrypting PDF...'')]
             @ page_events (numPages pdfDocument) 1 (Suc (numPages pdfDocument))
             @ [(90, ''Preparing unlocked PDF...''), (100, ''Complete!'')]"
    by blast
  moreover from this have "pdfDocument = sample_document 3"
    by (auto simp: sample_state_def sample_load sample_open)
  ultimately show ?thesis
    using run by (simp add: numPages_sample sample_events_3)
qed

text \<open>
  C9, as stated, fails on a document of 101 pages: the call succeeds and the event of
  page 1 is at 30, not strictly above it.
\<close>

theorem first_page_of_101_at_30_counterexample:
  "fst (unlock_observed (sample_browser 101) (Inr ''%PDF-locked'') ''hunter2'' (Some silent)
          sample_state)
     = Inr \<lparr>blob_parts = ''%PDF-pages-101'', blob_type = ''application/pdf''\<rparr>
   \<and> progress (snd (unlock_observed (sample_browser 101) (Inr ''%PDF-locked'') ''hunter2''
                       (Some silent) sample_state)) ! 1
     = (30, ''Rendering page 1 of 101...'')
   \<and> \<not> (30 < page_progress 1 101)"
proof -
  have "page_events 101 (Suc 0) 102
          = (page_progress 1 101, page_label 1 101) # page_events 101 (Suc (Suc 0)) 102"
    using page_events_step[of 1 102 101] by simp
  moreover have "toString 101 = ''101''"
    by (simp add: toString.simps[of 101] toString.simps[of 10] toString_digit digit_char_def)
  ultimately show ?thesis
    using page_progress_1_101
    by (simp add: unlock_observed_def sample_unlock_silent page_label_def toString_digit
          digit_char_def)
qed


lemma take_prefix_iff: "(take (length pat) s = pat) = (\<exists>w. s = pat @ w)"
proof
  assume "take (length pat) s = pat"
  then have "s = pat @ drop (length pat) s"
    by (metis append_take_drop_id)
  then show "\<exists>w. s = pat @ w" ..
next
  assume "\<exists>w. s = pat @ w"
  then show "take (length pat) s = pat" by auto
qed

lemma contains_iff: "contains pat s = (\<exists>u w. s = u @ pat @ w)"
proof (induction s)
  case Nil
  then show ?case by auto
next
  case (Cons c cs)
  have "(\<exists>u w. c # cs = u @ pat @ w) = ((\<exists>w. c # cs = pat @ w) \<or> (\<exists>u w. cs = u @ pat @ w))"
  proof
    assume "\<exists>u w. c # cs = u @ pat @ w"
    then obtain u w where uw: "c # cs = u @ pat @ w" by blast
    show "(\<exists>w. c # cs = pat @ w) \<or> (\<exists>u w. cs = u @ pat @ w)"
    proof (cases u)
      case Nil
      with uw show ?thesis by auto
    next
      case (Cons a u')
      with uw have "cs = u' @ pat @ w" by simp
      then show ?thesis by blast
    qed
  next
    assume "(\<exists>w. c # cs = pat @ w) \<or> (\<exists>u w. cs = u @ pat @ w)"
    then show "\<exists>u w. c # cs = u @ pat @ w"
    proof
      assume "\<exists>w. c # cs = pat @ w"
      then obtain w where "c # cs = [] @ pat @ w" by auto
      then show ?thesis by blast
    next
      assume "\<exists>u w. cs = u @ pat @ w"
      then obtain u w where "c # cs = (c # u) @ pat @ w" by auto
      then show ?thesis by blast
    qed
  qed
  then show ?case
    using Cons.IH take_prefix_iff[of pat "c # cs"] by (simp del: take_Suc_Cons)
qed


lemma password_test_iff:
  "password_test s = (\<exists>u v w. s = u @ v @ w \<and> map lower v = ''password'')"
proof -
  define pat where "pat = ''password''"
  have "contains pat (map lower s) = (\<exists>u v w. s = u @ v @ w \<and> map lower v = pat)"
  proof
    assume "contains pat (map lower s)"
    then obtain u' w' where "map lower s = u' @ pat @ w'"
      unfolding contains_iff by blast
    then have "\<exists>us vs. s = us @ vs \<and> u' = map lower us \<and> pat @ w' = map lower vs"
      by (simp only: map_eq_append_conv)
    then obtain u r where s: "s = u @ r" and r: "map lower r = pat @ w'"
      by (elim exE conjE) simp
    from r have "\<exists>us vs. r = us @ vs \<and> pat = map lower us \<and> w' = map lower vs"
      by (simp only: map_eq_append_conv)
    then obtain v w where "r = v @ w" "map lower v = pat"
      by (elim exE conjE) simp
    with s show "\<exists>u v w. s = u @ v @ w \<and> map lower v = pat" by blast
  next
    assume "\<exists>u v w. s = u @ v @ w \<and> map lower v = pat"
    then obtain u v w where "s = u @ v @ w" "map lower v = pat" by blast
    then have "map lower s = map lower u @ pat @ map lower w" by simp
    then show "contains pat (map lower s)"
      unfolding contains_iff by blast
  qed
  then show ?thesis
    unfolding password_test_def pat_def .
qed


lemma lower_password: "map lower ''password'' = ''password''"
  by (simp add: lower_def)

lemma passwordError_matches: "password_test (or_empty (err_message buildPasswordError))"
proof -
  have "or_empty (err_message buildPasswordError)
          = ''Incorrect '' @ ''password'' @ ''. Please verify and try again.''"
    by (simp add: buildPasswordError_def mk_error_def or_empty_def)
  then have "or_empty (err_message buildPasswordError)
          = ''Incorrect '' @ ''password'' @ ''. Please verify and try again.''
        \<and> map lower ''password'' = ''password''"
    using lower_password by (simp only:)
  then show ?thesis
    unfolding password_test_iff
    by (intro exI[of _ "''Incorrect ''"] exI[of _ "''password''"]
          exI[of _ "''. Please verify and try again.''"])
qed

lemma loadPdfJs_again:
  assumes "loadPdfJs first s = (r, s1)"
  shows "loadPdfJs again s1 = (r, s1)" and "scripts_appended s1 \<le> scripts_appended s + 1"
  using assms
  by (auto simp: loadPdfJs_def Let_def split: if_splits option.splits script_outcome.splits)

lemma loadPdfJs_later:
  assumes "loadPdfJs first s = (r, s1)"
  shows "loadPdfJs_calls later s1 = (replicate (length later) r, s1)"
  by (induction later) (simp_all add: loadPdfJs_again(1)[OF assms])

lemma msg_unable_matches: "\<exists>u v w. msg_unable = u @ v @ w \<and> map lower v = ''password''"
proof -
  have "msg_unable = ''Unable to open the encrypted PDF with the provided '' @ ''password'' @ ''.''"
    by (simp add: msg_unable_def)
  then have "msg_unable = ''Unable to open the encrypted PDF with the provided '' @ ''password'' @ ''.''
        \<and> map lower ''password'' = ''password''"
    using lower_password by (simp only:)
  then show ?thesis
    by (intro exI[of _ "''Unable to open the encrypted PDF with the provided ''"]
          exI[of _ "''password''"] exI[of _ "''.''"])
qed

text \<open>
  C7, as the code has it. When the library has loaded, the first progress event has
  not thrown and the decoder rejects the open with an error, the failure is the password
  error exactly when the error's name is \<open>PasswordException\<close> or its message has a
  substring that is \<open>password\<close> up to letter case, both in \<open>loadEncryptedPdf\<close> and in what
  \<open>unlockPdfInBrowser\<close> throws. Every other error is rethrown by \<open>loadEncryptedPdf\<close> as
  it is; \<open>unlockPdfInBrowser\<close> rethrows it as it is when it has a message, and otherwise
  throws a new error with the fixed text \<open>Unable to open the encrypted PDF with the
  provided password.\<close>, which is not the password error, but whose text does have the
  substring \<open>password\<close>.
\<close>

theorem open_failure_classification:
  assumes "loadPdfJs (script en) (loader st) = (Inr pdfjsLib, l1)"
    and "sink_exception sink 30 ''Decrypting PDF...'' = None"
    and "await_task (NEED_PASSWORD pdfjsLib) password buildPasswordError
           (getDocument pdfjsLib arrayBuffer password) = Inl error"
  shows "(loadEncryptedPdf pdfjsLib arrayBuffer password = Inl buildPasswordError)
           = (err_name error = Some ''PasswordException''
              \<or> (\<exists>u v w. or_empty (err_message error) = u @ v @ w
                           \<and> map lower v = ''password''))
       \<and> (fst (unlockPdfInBrowser en (Inr arrayBuffer) password sink st) = Inl buildPasswordError)
           = (err_name error = Some ''PasswordException''
              \<or> (\<exists>u v w. or_empty (err_message error) = u @ v @ w
                           \<and> map lower v = ''password''))
       \<and> (\<not> (err_name error = Some ''PasswordException''
              \<or> (\<exists>u v w. or_empty (err_message error) = u @ v @ w
                           \<and> map lower v = ''password'')) \<longrightarrow>
            loadEncryptedPdf pdfjsLib arrayBuffer password = Inl error
            \<and> error \<noteq> buildPasswordError
            \<and> fst (unlockPdfInBrowser en (Inr arrayBuffer) password sink st)
                = Inl (if truthy (err_message error) then error else mk_error msg_unable)
            \<and> mk_error msg_unable \<noteq> buildPasswordError
            \<and> (\<exists>u v w. or_empty (err_message (mk_error msg_unable)) = u @ v @ w
                           \<and> map lower v = ''password''))"
proof -
  define related where "related = (err_name error = Some ''PasswordException''
      \<or> password_test (or_empty (err_message error)))"
  have same: "error = buildPasswordError \<Longrightarrow> related"
    using passwordError_matches by (simp add: related_def)
  have load: "loadEncryptedPdf pdfjsLib arrayBuffer password
                = (if related then Inl buildPasswordError else Inl error)"
  proof -
    have "loadEncryptedPdf pdfjsLib arrayBuffer password
            = (if error = buildPasswordError \<or> err_name error = Some ''PasswordException''
                  \<or> password_test (or_empty (err_message error))
               then Inl buildPasswordError else Inl error)"
      using assms(3) by (simp add: loadEncryptedPdf_def Let_def)
    moreover have "(error = buildPasswordError \<or> err_name error = Some ''PasswordException''
                  \<or> password_test (or_empty (err_message error))) = related"
      using same unfolding related_def by blast
    ultimately show ?thesis by (simp only:)
  qed
  have pe: "truthy (err_message buildPasswordError)"
    by (simp add: truthy_def buildPasswordError_def mk_error_def)
  have other: "\<not> related \<Longrightarrow> error \<noteq> buildPasswordError"
    using same by blast
  have unable: "mk_error msg_unable \<noteq> buildPasswordError"
    by (simp add: mk_error_def msg_unable_def buildPasswordError_def)
  have unable_text: "\<exists>u v w. or_empty (err_message (mk_error msg_unable)) = u @ v @ w
                           \<and> map lower v = ''password''"
    using msg_unable_matches by (simp add: mk_error_def or_empty_def)
  have run: "fst (unlockPdfInBrowser en (Inr arrayBuffer) password sink st)
        = (if related then Inl buildPasswordError
           else Inl (if truthy (err_message error) then error else mk_error msg_unable))"
    using assms(1,2) pe
    by (simp add: unlockPdfInBrowser_def updateProgress_eq load Let_def)
  have "((loadEncryptedPdf pdfjsLib arrayBuffer password = Inl buildPasswordError) = related)
       \<and> ((fst (unlockPdfInBrowser en (Inr arrayBuffer) password sink st) = Inl buildPasswordError)
            = related)
       \<and> (\<not> related \<longrightarrow>
            loadEncryptedPdf pdfjsLib arrayBuffer password = Inl error
            \<and> error \<noteq> buildPasswordError
            \<and> fst (unlockPdfInBrowser en (Inr arrayBuffer) password sink st)
                = Inl (if truthy (err_message error) then error else mk_error msg_unable)
            \<and> mk_error msg_unable \<noteq> buildPasswordError
            \<and> (\<exists>u v w. or_empty (err_message (mk_error msg_unable)) = u @ v @ w
                           \<and> map lower v = ''password''))"
  proof (cases related)
    case True
    then show ?thesis by (simp add: load run)
  next
    case False
    then show ?thesis using other unable unable_text by (simp add: load run)
  qed
  then show ?thesis
    unfolding related_def password_test_iff .
qed

lemma asking_load:
  "loadPdfJs (script (asking_browser 3)) (loader sample_state)
     = (Inr ((asking_lib 3)\<lparr>workerSrc := Some worker_url\<rparr>),
        snd (loadPdfJs (script (asking_browser 3)) (loader sample_state)))"
  by (simp add: loadPdfJs_def asking_browser_def sample_state_def sample_loader_def Let_def)

lemma asking_rejects:
  "await_task (NEED_PASSWORD ((asking_lib 3)\<lparr>workerSrc := Some worker_url\<rparr>)) ''guess''
         buildPasswordError
         (getDocument ((asking_lib 3)\<lparr>workerSrc := Some worker_url\<rparr>) ''%PDF-locked'' ''guess'')
       = Inl buildPasswordError"
  by (simp add: asking_lib_def)

lemma nameless_load:
  "loadPdfJs (script nameless_browser) (loader sample_state)
     = (Inr (nameless_lib\<lparr>workerSrc := Some worker_url\<rparr>),
        snd (loadPdfJs (script nameless_browser) (loader sample_state)))"
  by (simp add: loadPdfJs_def nameless_browser_def sample_state_def sample_loader_def Let_def)

lemma nameless_rejects:
  "await_task (NEED_PASSWORD (nameless_lib\<lparr>workerSrc := Some worker_url\<rparr>)) ''hunter2''
         buildPasswordError
         (getDocument (nameless_lib\<lparr>workerSrc := Some worker_url\<rparr>) ''%PDF-locked'' ''hunter2'')
       = Inl nameless_error"
  by (simp add: nameless_lib_def)

lemma nameless_unrelated:
  "\<not> (err_name nameless_error = Some ''PasswordException''
       \<or> (\<exists>u v w. or_empty (err_message nameless_error) = u @ v @ w
                    \<and> map lower v = ''password''))"
  by (simp add: nameless_error_def or_empty_def)

lemma empty_document_message:
  "\<not> password_test ''The PDF file is empty, i.e. its size is zero bytes.''"
  by (simp add: password_test_def lower_def)

lemma silent_None [simp]: "silent p step = None"
  by (simp add: silent_def)

theorem open_failure_classification_witness:
  "loadPdfJs (script (sample_browser 3)) (loader sample_state)
     = (Inr ((sample_lib 3)\<lparr>workerSrc := Some worker_url\<rparr>),
        snd (loadPdfJs (script (sample_browser 3)) (loader sample_state)))
   \<and> sink_exception (Some silent) 30 ''Decrypting PDF...'' = None
   \<and> await_task (NEED_PASSWORD ((sample_lib 3)\<lparr>workerSrc := Some worker_url\<rparr>)) ''guess''
         buildPasswordError
         (getDocument ((sample_lib 3)\<lparr>workerSrc := Some worker_url\<rparr>) ''%PDF-locked'' ''guess'')
       = Inl password_exception
   \<and> fst (unlockPdfInBrowser (sample_browser 3) (Inr ''%PDF-locked'') ''guess'' (Some silent)
            sample_state)
       = Inl buildPasswordError
   \<and> await_task (NEED_PASSWORD ((sample_lib 3)\<lparr>workerSrc := Some worker_url\<rparr>)) []
         buildPasswordError
         (getDocument ((sample_lib 3)\<lparr>workerSrc := Some worker_url\<rparr>) [] [])
       = Inl invalid_pdf_exception
   \<and> \<not> (err_name invalid_pdf_exception = Some ''PasswordException''
          \<or> (\<exists>u v w. or_empty (err_message invalid_pdf_exception) = u @ v @ w
                       \<and> map lower v = ''password''))
   \<and> fst (unlockPdfInBrowser (sample_browser 3) (Inr []) [] (Some silent) sample_state)
       = Inl invalid_pdf_exception
   \<and> await_task (NEED_PASSWORD ((asking_lib 3)\<lparr>workerSrc := Some worker_url\<rparr>)) ''guess''
         buildPasswordError
         (getDocument ((asking_lib 3)\<lparr>workerSrc := Some worker_url\<rparr>) ''%PDF-locked'' ''guess'')
       = Inl buildPasswordError
   \<and> fst (unlockPdfInBrowser (asking_browser 3) (Inr ''%PDF-locked'') ''guess'' (Some silent)
            sample_state)
       = Inl buildPasswordError
   \<and> await_task (NEED_PASSWORD (nameless_lib\<lparr>workerSrc := Some worker_url\<rparr>)) ''hunter2''
         buildPasswordError
         (getDocument (nameless_lib\<lparr>workerSrc := Some worker_url\<rparr>) ''%PDF-locked'' ''hunter2'')
       = Inl nameless_error
   \<and> fst (unlockPdfInBrowser nameless_browser (Inr ''%PDF-locked'') ''hunter2'' (Some silent)
            sample_state)
       = Inl (mk_error msg_unable)"
proof -
  have l: "loadPdfJs (script (sample_browser 3)) (loader sample_state)
     = (Inr ((sample_lib 3)\<lparr>workerSrc := Some worker_url\<rparr>),
        snd (loadPdfJs (script (sample_browser 3)) (loader sample_state)))"
    by (simp add: sample_state_def sample_load)
  have q: "sink_exception (Some silent) 30 ''Decrypting PDF...'' = None"
    by simp
  have a: "await_task (NEED_PASSWORD ((sample_lib 3)\<lparr>workerSrc := Some worker_url\<rparr>)) ''guess''
         buildPasswordError
         (getDocument ((sample_lib 3)\<lparr>workerSrc := Some worker_url\<rparr>) ''%PDF-locked'' ''guess'')
       = Inl password_exception"
    by (simp add: sample_lib_def)
  have n: "err_name password_exception = Some ''PasswordException''"
    by (simp add: password_exception_def)
  have a': "await_task (NEED_PASSWORD ((sample_lib 3)\<lparr>workerSrc := Some worker_url\<rparr>)) []
         buildPasswordError
         (getDocument ((sample_lib 3)\<lparr>workerSrc := Some worker_url\<rparr>) [] [])
       = Inl invalid_pdf_exception"
    by (simp add: sample_lib_def)
  have n': "\<not> (err_name invalid_pdf_exception = Some ''PasswordException''
          \<or> (\<exists>u v w. or_empty (err_message invalid_pdf_exception) = u @ v @ w
                       \<and> map lower v = ''password''))"
    unfolding password_test_iff[symmetric]
    using empty_document_message
    by (simp add: invalid_pdf_exception_def or_empty_def)
  have t: "truthy (err_message invalid_pdf_exception)"
    by (simp add: invalid_pdf_exception_def truthy_def)
  from open_failure_classification[OF l q a] n
  have 1: "fst (unlockPdfInBrowser (sample_browser 3) (Inr ''%PDF-locked'') ''guess'' (Some silent)
                  sample_state)
       = Inl buildPasswordError"
    by blast
  from open_failure_classification[OF l q a'] n' t
  have 2: "fst (unlockPdfInBrowser (sample_browser 3) (Inr []) [] (Some silent) sample_state)
       = Inl invalid_pdf_exception"
    by simp
  have "\<exists>u v w. or_empty (err_message buildPasswordError) = u @ v @ w
                 \<and> map lower v = ''password''"
    using passwordError_matches unfolding password_test_iff .
  with open_failure_classification[OF asking_load q asking_rejects]
  have 3: "fst (unlockPdfInBrowser (asking_browser 3) (Inr ''%PDF-locked'') ''guess'' (Some silent)
                  sample_state)
       = Inl buildPasswordError"
    by blast
  have t': "\<not> truthy (err_message nameless_error)"
    by (simp add: nameless_error_def truthy_def)
  from open_failure_classification[OF nameless_load q nameless_rejects] nameless_unrelated t'
  have 4: "fst (unlockPdfInBrowser nameless_browser (Inr ''%PDF-locked'') ''hunter2'' (Some silent)
                  sample_state)
       = Inl (mk_error msg_unable)"
    by simp
  from l q a 1 a' n' 2 asking_rejects 3 nameless_rejects 4 show ?thesis
    by (intro conjI)
qed

text \<open>
  C7, as stated, fails for an open failure that is not password-related and has no
  message: what the caller gets is not the decoder's error and is not distinct from the
  password case by the claim's own test, its text is \<open>Unable to open the encrypted PDF
  with the provided password.\<close>
\<close>

theorem open_failure_without_message_counterexample:
  "await_task (NEED_PASSWORD (nameless_lib\<lparr>workerSrc := Some worker_url\<rparr>)) ''hunter2''
         buildPasswordError
         (getDocument (nameless_lib\<lparr>workerSrc := Some worker_url\<rparr>) ''%PDF-locked'' ''hunter2'')
       = Inl nameless_error
   \<and> err_name nameless_error \<noteq> Some ''PasswordException''
   \<and> \<not> password_test (or_empty (err_message nameless_error))
   \<and> fst (unlockPdfInBrowser nameless_browser (Inr ''%PDF-locked'') ''hunter2'' None sample_state)
       = Inl (mk_error msg_unable)
   \<and> password_test (or_empty (err_message (mk_error msg_unable)))"
proof -
  have 1: "err_name nameless_error \<noteq> Some ''PasswordException''"
    "\<not> password_test (or_empty (err_message nameless_error))"
    by (simp_all add: nameless_error_def or_empty_def password_test_def)
  have differ: "nameless_error \<noteq> buildPasswordError"
    by (simp add: nameless_error_def buildPasswordError_def mk_error_def)
  have "loadEncryptedPdf (nameless_lib\<lparr>workerSrc := Some worker_url\<rparr>) ''%PDF-locked'' ''hunter2''
          = Inl nameless_error"
    using 1 differ nameless_rejects by (simp add: loadEncryptedPdf_def Let_def)
  moreover have "\<not> truthy (err_message nameless_error)"
    by (simp add: nameless_error_def truthy_def)
  ultimately have 2: "fst (unlockPdfInBrowser nameless_browser (Inr ''%PDF-locked'') ''hunter2''
                            None sample_state)
       = Inl (mk_error msg_unable)"
    by (simp add: unlockPdfInBrowser_def updateProgress_eq Let_def loadPdfJs_def
          nameless_browser_def sample_state_def sample_loader_def)
  have 3: "password_test (or_empty (err_message (mk_error msg_unable)))"
    unfolding password_test_iff using msg_unable_matches
    by (simp add: mk_error_def or_empty_def)
  from nameless_rejects 1 2 3 show ?thesis
    by (intro conjI)
qed

text \<open>
  C10. After a first call of the loader, every later call returns the result of the
  first and leaves the state as it is, whatever a new script load would do: the
  script is appended at most once. An unlock call made afterwards fails with the
  error of the first load if that failed, and otherwise gets the same library.
\<close>

theorem loader_caches_first_attempt:
  assumes "loadPdfJs first s = (r, s1)"
  shows "loadPdfJs_calls later s1 = (replicate (length later) r, s1)
       \<and> scripts_appended s1 \<le> scripts_appended s + 1
       \<and> (loader st = s1 \<longrightarrow>
            (case r of
               Inl e \<Rightarrow> unlockPdfInBrowser en (Inr arrayBuffer) password sink st = (Inl e, st)
             | Inr pdfjsLib \<Rightarrow> loadPdfJs (script en) (loader st) = (Inr pdfjsLib, loader st)))"
proof -
  have "loader st = s1 \<longrightarrow>
            (case r of
               Inl e \<Rightarrow> unlockPdfInBrowser en (Inr arrayBuffer) password sink st = (Inl e, st)
             | Inr pdfjsLib \<Rightarrow> loadPdfJs (script en) (loader st) = (Inr pdfjsLib, loader st))"
  proof
    assume st: "loader st = s1"
    have again: "loadPdfJs (script en) (loader st) = (r, loader st)"
      using loadPdfJs_again(1)[OF assms, of "script en"] st by simp
    show "case r of
               Inl e \<Rightarrow> unlockPdfInBrowser en (Inr arrayBuffer) password sink st = (Inl e, st)
             | Inr pdfjsLib \<Rightarrow> loadPdfJs (script en) (loader st) = (Inr pdfjsLib, loader st)"
    proof (cases r)
      case (Inl e)
      then show ?thesis
        using again by (simp add: unlockPdfInBrowser_def)
    next
      case (Inr pdfjsLib)
      then show ?thesis
        using again by simp
    qed
  qed
  then show ?thesis
    using loadPdfJs_later[OF assms, of later] loadPdfJs_again(2)[OF assms] by (simp only: simp_thms)
qed

theorem loader_caches_first_attempt_witness:
  "loadPdfJs OnError sample_loader
     = (Inl (mk_error ''Failed to load PDF.js from CDN.''), snd (loadPdfJs OnError sample_loader))
   \<and> loader (sample_state\<lparr>loader := snd (loadPdfJs OnError sample_loader)\<rparr>)
     = snd (loadPdfJs OnError sample_loader)
   \<and> loadPdfJs_calls [OnLoad (Some (sample_lib 3)), OnError] (snd (loadPdfJs OnError sample_loader))
     = ([Inl (mk_error ''Failed to load PDF.js from CDN.''),
         Inl (mk_error ''Failed to load PDF.js from CDN.'')],
        snd (loadPdfJs OnError sample_loader))
   \<and> scripts_appended (snd (loadPdfJs OnError sample_loader)) = 1
   \<and> unlockPdfInBrowser (sample_browser 3) (Inr ''%PDF-locked'') ''hunter2'' (Some silent)
        (sample_state\<lparr>loader := snd (loadPdfJs OnError sample_loader)\<rparr>)
     = (Inl (mk_error ''Failed to load PDF.js from CDN.''),
        sample_state\<lparr>loader := snd (loadPdfJs OnError sample_loader)\<rparr>)"
proof -
  have first: "loadPdfJs OnError sample_loader
     = (Inl (mk_error ''Failed to load PDF.js from CDN.''), snd (loadPdfJs OnError sample_loader))"
    by (simp add: loadPdfJs_def sample_loader_def Let_def)
  have n: "scripts_appended (snd (loadPdfJs OnError sample_loader)) = 1"
    by (simp add: loadPdfJs_def sample_loader_def Let_def)
  have st: "loader (sample_state\<lparr>loader := snd (loadPdfJs OnError sample_loader)\<rparr>)
     = snd (loadPdfJs OnError sample_loader)"
    by simp
  note inst = loader_caches_first_attempt
      [OF first, of "[OnLoad (Some (sample_lib 3)), OnError]"
         "sample_state\<lparr>loader := snd (loadPdfJs OnError sample_loader)\<rparr>"
         "sample_browser 3" "''%PDF-locked''" "''hunter2''" "Some silent"]
  from inst
  have calls: "loadPdfJs_calls [OnLoad (Some (sample_lib 3)), OnError] (snd (loadPdfJs OnError sample_loader))
     = (replicate (length [OnLoad (Some (sample_lib 3)), OnError])
          (Inl (mk_error ''Failed to load PDF.js from CDN.'')),
        snd (loadPdfJs OnError sample_loader))"
    by (rule conjunct1)
  from inst st
  have u: "unlockPdfInBrowser (sample_browser 3) (Inr ''%PDF-locked'') ''hunter2'' (Some silent)
        (sample_state\<lparr>loader := snd (loadPdfJs OnError sample_loader)\<rparr>)
     = (Inl (mk_error ''Failed to load PDF.js from CDN.''),
        sample_state\<lparr>loader := snd (loadPdfJs OnError sample_loader)\<rparr>)"
    by simp
  from calls have calls': "loadPdfJs_calls [OnLoad (Some (sample_lib 3)), OnError] (snd (loadPdfJs OnError sample_loader))
     = ([Inl (mk_error ''Failed to load PDF.js from CDN.''),
         Inl (mk_error ''Failed to load PDF.js from CDN.'')],
        snd (loadPdfJs OnError sample_loader))"
    by simp
  from first st calls' n u show ?thesis
    by (intro conjI)
qed


section \<open>Claims about both strategies\<close>

text \<open>
  C2, as the code has it. In the route handler, a request whose document is empty or
  larger than 100MB, or whose password is the empty string, is answered with status 400
  and one of the three validation texts, and nothing else happens: the trace holds the
  response only and the file system is unchanged. \<open>unlockPdfInBrowser\<close> validates nothing:
  once the library has loaded, the document and the password are handed to the decoder
  as they are, unless the progress callback has thrown on the first event, which ends
  the call before the decoder is invoked.
\<close>

theorem validation_before_any_resource:
  "(buffer = [] \<or> length buffer > MAX_FILE_SIZE \<or> password = FormString [] \<longrightarrow>
      (\<exists>m. m \<in> {msg_password_required, msg_empty, msg_too_large}
          \<and> attempt en (FormData (FormFile buffer) password) fs
              = (text_response m 400, \<lparr>files = fs, trace = [EvRespond (text_response m 400)]\<rparr>)))
   \<and> (loadPdfJs (script ben) (loader st) = (Inr pdfjsLib, l1) \<longrightarrow>
        getDocument_calls (snd (unlockPdfInBrowser ben (Inr arrayBuffer) pw sink st))
          = getDocument_calls st @ [(arrayBuffer, pw)]
        \<or> (\<exists>e. sink_exception sink 30 ''Decrypting PDF...'' = Some e
               \<and> unlockPdfInBrowser ben (Inr arrayBuffer) pw sink st
                   = (Inl e, st\<lparr>loader := l1,
                        progress := progress st @ delivered sink [(30, ''Decrypting PDF...'')]\<rparr>)))"
proof (intro conjI impI)
  assume bad: "buffer = [] \<or> length buffer > MAX_FILE_SIZE \<or> password = FormString []"
  define w where "w = \<lparr>files = fs, trace = []\<rparr>"
  have "\<exists>m. m \<in> {msg_password_required, msg_empty, msg_too_large}
          \<and> POST_try en (FormData (FormFile buffer) password) w
              = ((text_response m 400, w), None, None)"
  proof (cases password)
    case (FormFile x)
    then show ?thesis by (auto simp: POST_try_def)
  next
    case FormNull
    then show ?thesis by (auto simp: POST_try_def)
  next
    case (FormString pw)
    show ?thesis
    proof (cases "pw = []")
      case True
      then show ?thesis using FormString by (auto simp: POST_try_def)
    next
      case False
      then have "buffer = [] \<or> length buffer > MAX_FILE_SIZE"
        using bad FormString by simp
      then show ?thesis
        using FormString False by (auto simp: POST_try_def)
    qed
  qed
  then obtain m where m: "m \<in> {msg_password_required, msg_empty, msg_too_large}"
    and t: "POST_try en (FormData (FormFile buffer) password) w = ((text_response m 400, w), None, None)"
    by blast
  have "attempt en (FormData (FormFile buffer) password) fs
              = (text_response m 400, \<lparr>files = fs, trace = [EvRespond (text_response m 400)]\<rparr>)"
    by (simp add: attempt_def POST_def w_def[symmetric] t POST_finally_def)
       (simp add: w_def emit_def)
  with m show "\<exists>m. m \<in> {msg_password_required, msg_empty, msg_too_large}
          \<and> attempt en (FormData (FormFile buffer) password) fs
              = (text_response m 400, \<lparr>files = fs, trace = [EvRespond (text_response m 400)]\<rparr>)"
    by blast
next
  assume load: "loadPdfJs (script ben) (loader st) = (Inr pdfjsLib, l1)"
  show "getDocument_calls (snd (unlockPdfInBrowser ben (Inr arrayBuffer) pw sink st))
          = getDocument_calls st @ [(arrayBuffer, pw)]
        \<or> (\<exists>e. sink_exception sink 30 ''Decrypting PDF...'' = Some e
               \<and> unlockPdfInBrowser ben (Inr arrayBuffer) pw sink st
                   = (Inl e, st\<lparr>loader := l1,
                        progress := progress st @ delivered sink [(30, ''Decrypting PDF...'')]\<rparr>))"
  proof (cases ben "Inr arrayBuffer :: js_error + bytes" pw sink st rule: unlock_cases)
    case (unreadable e)
    then show ?thesis by simp
  next
    case (load_failed arrayBuffer e l1)
    then show ?thesis using load by simp
  next
    case (sink_decrypting arrayBuffer' pdfjsLib' l1' e)
    then show ?thesis using load by simp
  qed simp_all
qed

theorem validation_before_any_resource_witness:
  "length (replicate (Suc MAX_FILE_SIZE) (CHR ''x'')) > MAX_FILE_SIZE
   \<and> attempt (sample_env qpdf_decrypts)
        (FormData (FormFile (replicate (Suc MAX_FILE_SIZE) (CHR ''x''))) (FormString ''hunter2''))
        Map.empty
      = (text_response msg_too_large 400,
         \<lparr>files = Map.empty, trace = [EvRespond (text_response msg_too_large 400)]\<rparr>)
   \<and> loadPdfJs (script (sample_browser 3)) (loader sample_state)
      = (Inr ((sample_lib 3)\<lparr>workerSrc := Some worker_url\<rparr>),
         snd (loadPdfJs (script (sample_browser 3)) (loader sample_state)))
   \<and> sink_exception (Some silent) 30 ''Decrypting PDF...'' = None
   \<and> getDocument_calls (snd (unlockPdfInBrowser (sample_browser 3) (Inr []) [] (Some silent)
                                 sample_state))
      = [([], [])]"
proof -
  have big: "length (replicate (Suc MAX_FILE_SIZE) (CHR ''x'')) > MAX_FILE_SIZE"
    by simp
  have l: "loadPdfJs (script (sample_browser 3)) (loader sample_state)
      = (Inr ((sample_lib 3)\<lparr>workerSrc := Some worker_url\<rparr>),
         snd (loadPdfJs (script (sample_browser 3)) (loader sample_state)))"
    by (simp add: sample_state_def sample_load)
  have q: "sink_exception (Some silent) 30 ''Decrypting PDF...'' = None"
    by simp
  have differ: "text_response msg_password_required 400 \<noteq> text_response msg_too_large 400"
    "text_response msg_empty 400 \<noteq> text_response msg_too_large 400"
    by (simp_all add: text_response_def msg_password_required_def msg_empty_def msg_too_large_def)
  have r: "fst (attempt (sample_env qpdf_decrypts)
        (FormData (FormFile (replicate (Suc MAX_FILE_SIZE) (CHR ''x''))) (FormString ''hunter2''))
        Map.empty) = text_response msg_too_large 400"
    by (simp add: attempt_def POST_def POST_try_def)
  from validation_before_any_resource
         [of "replicate (Suc MAX_FILE_SIZE) (CHR ''x'')" "FormString ''hunter2''"
             "sample_env qpdf_decrypts" Map.empty "sample_browser 3" sample_state
             "(sample_lib 3)\<lparr>workerSrc := Some worker_url\<rparr>"
             "snd (loadPdfJs (script (sample_browser 3)) (loader sample_state))" "[]" "[]"
             "Some silent"]
    big l r differ q
  show ?thesis
    by (auto simp: sample_state_def)
qed

text \<open>
  C2, as stated, fails in the Rasterize-Rebuild strategy: with an empty document and an
  empty password the decoder is invoked, and the failure is the decoder's own error.
\<close>

theorem browser_opens_empty_document_counterexample:
  "getDocument_calls (snd (unlockPdfInBrowser (sample_browser 3) (Inr []) [] (Some silent)
                             sample_state))
     = [([], [])]
   \<and> fst (unlockPdfInBrowser (sample_browser 3) (Inr []) [] (Some silent) sample_state)
     = Inl invalid_pdf_exception"
  by (simp add: unlockPdfInBrowser_def sample_state_def sample_load updateProgress_def
        loadEncryptedPdf_def sample_lib_def Let_def invalid_pdf_exception_def
        buildPasswordError_def mk_error_def or_empty_def password_test_def lower_def truthy_def)

lemma loadPdfJs_Inl:
  assumes "loadPdfJs outcome s = (Inl e, s1)"
  shows "e \<in> fixed_errors \<or> pdfJsLoader s = Some (Inl e)"
  using assms
  by (auto simp: loadPdfJs_def Let_def fixed_errors_def
      split: if_splits option.splits script_outcome.splits)

lemma loadEncryptedPdf_Inl:
  assumes "loadEncryptedPdf pdfjsLib arrayBuffer pw = Inl error"
  shows "error = buildPasswordError
       \<or> await_task (NEED_PASSWORD pdfjsLib) pw buildPasswordError
             (getDocument pdfjsLib arrayBuffer pw) = Inl error"
  using assms
  by (auto simp: loadEncryptedPdf_def Let_def split: sum.splits if_splits)

lemma failure_text_cases:
  "failure_text e = msg_failed \<or> (err_stderr e = Some (failure_text e) \<and> failure_text e \<noteq> [])"
  by (auto simp: failure_text_def split: option.splits)

lemma command_line_password:
  "contains pw (command_line bin ((''--password='' @ pw) # rest))"
proof -
  have "command_line bin ((''--password='' @ pw) # rest)
          = (bin @ '' --password='') @ pw @ concat (map (\<lambda>a. '' '' @ a) rest)"
    by (simp add: command_line_def)
  then show ?thesis
    unfolding contains_iff by blast
qed

lemma browser_failure_provenance:
  assumes "fst (unlockPdfInBrowser ben file password sink st) = Inl failure"
  shows "failure \<in> fixed_errors
       \<or> file = Inl failure
       \<or> pdfJsLoader (loader st) = Some (Inl failure)
       \<or> (\<exists>p step. sink_exception sink p step = Some failure)
       \<or> (\<exists>arrayBuffer pdfjsLib l1. file = Inr arrayBuffer
             \<and> loadPdfJs (script ben) (loader st) = (Inr pdfjsLib, l1)
             \<and> (await_task (NEED_PASSWORD pdfjsLib) password buildPasswordError
                    (getDocument pdfjsLib arrayBuffer password) = Inl failure
                \<or> (\<exists>pdfDocument. loadEncryptedPdf pdfjsLib arrayBuffer password = Inr pdfDocument
                      \<and> ((\<exists>j. 1 \<le> j \<and> j \<le> numPages pdfDocument
                              \<and> (getPage pdfDocument j = Inl failure
                                 \<or> (\<exists>page. getPage pdfDocument j = Inr page
                                       \<and> (render page (getViewport page 2) = Some failure
                                          \<or> toDataURL ben j = Inl failure
                                          \<or> (\<exists>imageBytes. toDataURL ben j = Inr imageBytes
                                                \<and> embedPng ben imageBytes = Some failure)))))
                         \<or> (\<exists>pdfDoc. map Inr pdfDoc
                                        = map (render_page ben pdfDocument)
                                            [1..<Suc (numPages pdfDocument)]
                                      \<and> save ben pdfDoc = Inl failure)))))"
proof (cases ben "file" password sink st rule: unlock_cases)
  case (unreadable e)
  then show ?thesis using assms by simp
next
  case (load_failed arrayBuffer e l1)
  then show ?thesis using assms loadPdfJs_Inl[of "script ben" "loader st" e l1] by auto
next
  case (sink_decrypting arrayBuffer pdfjsLib l1 e)
  then have "sink_exception sink 30 ''Decrypting PDF...'' = Some failure"
    using assms by simp
  then have "\<exists>p step. sink_exception sink p step = Some failure" by blast
  then show ?thesis by (simp only: simp_thms)
next
  case (open_failed arrayBuffer pdfjsLib l1 error)
  from open_failed(5) assms
  have e: "failure = (if truthy (err_message error) then error else mk_error msg_unable)"
    by simp
  show ?thesis
  proof (cases "truthy (err_message error)")
    case False
    then show ?thesis using e by (simp add: fixed_errors_def)
  next
    case True
    then have "failure = error" using e by simp
    with loadEncryptedPdf_Inl[OF open_failed(4)]
    have "failure = buildPasswordError
       \<or> await_task (NEED_PASSWORD pdfjsLib) password buildPasswordError
             (getDocument pdfjsLib arrayBuffer password) = Inl failure"
      by simp
    then show ?thesis
    proof
      assume "failure = buildPasswordError"
      then show ?thesis by (simp add: fixed_errors_def)
    next
      assume "await_task (NEED_PASSWORD pdfjsLib) password buildPasswordError
             (getDocument pdfjsLib arrayBuffer password) = Inl failure"
      with open_failed(1,2) show ?thesis by blast
    qed
  qed
next
  case (sink_page arrayBuffer pdfjsLib l1 pdfDocument j e)
  then have "sink_exception sink (page_progress j (numPages pdfDocument))
               (page_label j (numPages pdfDocument)) = Some failure"
    using assms by simp
  then have "\<exists>p step. sink_exception sink p step = Some failure" by blast
  then show ?thesis by (simp only: simp_thms)
next
  case (page_failed arrayBuffer pdfjsLib l1 pdfDocument j e)
  then have f: "render_page ben pdfDocument j = Inl failure"
    using assms by simp
  from render_page_Inl[OF f] show ?thesis
  proof
    assume "failure = mk_error ''Canvas rendering is not supported in this environment.''"
    then show ?thesis by (simp add: fixed_errors_def)
  next
    assume "getPage pdfDocument j = Inl failure
       \<or> (\<exists>page. getPage pdfDocument j = Inr page
             \<and> (render page (getViewport page 2) = Some failure
                \<or> toDataURL ben j = Inl failure
                \<or> (\<exists>imageBytes. toDataURL ben j = Inr imageBytes
                      \<and> embedPng ben imageBytes = Some failure)))"
    with page_failed(1,2,4,5,6) show ?thesis by blast
  qed
next
  case (sink_preparing arrayBuffer pdfjsLib l1 pdfDocument pdfDoc e)
  then have "sink_exception sink 90 ''Preparing unlocked PDF...'' = Some failure"
    using assms by simp
  then have "\<exists>p step. sink_exception sink p step = Some failure" by blast
  then show ?thesis by (simp only: simp_thms)
next
  case (save_failed arrayBuffer pdfjsLib l1 pdfDocument pdfDoc e)
  then have "save ben pdfDoc = Inl failure" using assms by simp
  with save_failed(1,2,4,5) show ?thesis by blast
next
  case (sink_complete arrayBuffer pdfjsLib l1 pdfDocument pdfDoc unlockedBytes e)
  then have "sink_exception sink 100 ''Complete!'' = Some failure"
    using assms by simp
  then have "\<exists>p step. sink_exception sink p step = Some failure" by blast
  then show ?thesis by (simp only: simp_thms)
next
  case (unlocked arrayBuffer pdfjsLib l1 pdfDocument pdfDoc unlockedBytes)
  then show ?thesis using assms by simp
qed

lemma route_messages_and_log:
  "(status (fst (attempt en req fs)) \<noteq> 200 \<longrightarrow>
      (\<exists>m. body (fst (attempt en req fs)) = Text m
         \<and> (m \<in> fixed_messages
            \<or> (\<exists>bin args error. EvExec bin args (Some error) \<in> set (trace (snd (attempt en req fs)))
                  \<and> err_code error \<noteq> Some ''ENOENT''
                  \<and> err_stderr error = Some m \<and> m \<noteq> []))))
   \<and> (\<forall>label e. EvLog label e \<in> set (trace (snd (attempt en req fs))) \<longrightarrow>
         label \<in> fixed_labels
         \<and> (req = BadBody e \<or> e = sys_error ''EACCES'' \<or> e = sys_error ''ENOENT''
            \<or> (\<exists>bin args. EvExec bin args (Some e) \<in> set (trace (snd (attempt en req fs))))))
   \<and> (\<forall>bin args e. EvExec bin args (Some e) \<in> set (trace (snd (attempt en req fs))) \<longrightarrow>
         (\<exists>label. EvLog label e \<in> set (trace (snd (attempt en req fs))))
         \<and> (\<exists>buffer pw. req = FormData (FormFile buffer) (FormString pw)
               \<and> args = [''--password='' @ pw, ''--decrypt'', input_path en, output_path en]
               \<and> err_cmd e = Some (command_line bin args)
               \<and> contains pw (command_line bin args)))"
proof (cases en req fs rule: attempt_cases)
  case (bad_body e)
  then show ?thesis
    by (simp add: text_response_def fixed_messages_def fixed_labels_def)
next
  case (rejected m)
  then show ?thesis
    by (auto simp: text_response_def fixed_messages_def fixed_labels_def)
next
  case (write_failed buffer pw)
  then show ?thesis
    by (simp add: trace_POST_finally text_response_def fixed_messages_def fixed_labels_def)
next
  case (tool_missing buffer pw error fs')
  define args where "args = [''--password='' @ pw, ''--decrypt'', input_path en, output_path en]"
  define e where "e = error\<lparr>err_cmd := Some (command_line (QPDF_BINARY_PATH en) args)\<rparr>"
  have tr: "trace (snd (attempt en req fs)) =
      [EvWriteFile (input_path en), EvExec (QPDF_BINARY_PATH en) args (Some e),
       EvLog ''qpdf binary not found:'' e, EvUnlink (input_path en), EvUnlink (output_path en),
       EvRespond (text_response msg_not_found 500)]"
    using tool_missing(8) by (simp add: trace_POST_finally args_def e_def)
  have b: "body (fst (attempt en req fs)) = Text msg_not_found"
    using tool_missing(8) by (simp add: text_response_def)
  have c: "contains pw (command_line (QPDF_BINARY_PATH en) args)"
    unfolding args_def by (rule command_line_password)
  have cmd: "err_cmd e = Some (command_line (QPDF_BINARY_PATH en) args)"
    by (simp add: e_def)
  show ?thesis
    using tool_missing(1) b c cmd
    unfolding tr args_def[symmetric]
    by (auto simp: fixed_messages_def fixed_labels_def args_def)
next
  case (tool_failed buffer pw error fs')
  define args where "args = [''--password='' @ pw, ''--decrypt'', input_path en, output_path en]"
  define e where "e = error\<lparr>err_cmd := Some (command_line (QPDF_BINARY_PATH en) args)\<rparr>"
  have tr: "trace (snd (attempt en req fs)) =
      [EvWriteFile (input_path en), EvExec (QPDF_BINARY_PATH en) args (Some e),
       EvLog ''Failed to unlock PDF:'' e, EvUnlink (input_path en), EvUnlink (output_path en),
       EvRespond (text_response (failure_text error) 400)]"
    using tool_failed(8) by (simp add: trace_POST_finally args_def e_def)
  have b: "body (fst (attempt en req fs)) = Text (failure_text error)"
    using tool_failed(8) by (simp add: text_response_def)
  have c: "contains pw (command_line (QPDF_BINARY_PATH en) args)"
    unfolding args_def by (rule command_line_password)
  have cmd: "err_cmd e = Some (command_line (QPDF_BINARY_PATH en) args)"
    "err_code e \<noteq> Some ''ENOENT''" "err_stderr e = err_stderr error"
    using tool_failed(7) by (simp_all add: e_def)
  from failure_text_cases[of error]
  have m: "failure_text error \<in> fixed_messages
            \<or> (err_stderr e = Some (failure_text error) \<and> failure_text error \<noteq> [])"
    using cmd(3) by (auto simp: fixed_messages_def)
  show ?thesis
    using tool_failed(1) b c cmd(1,2) m
    unfolding tr args_def[symmetric]
    by (auto simp: fixed_labels_def args_def)
next
  case (read_failed buffer pw fs')
  then show ?thesis
    by (simp add: trace_POST_finally text_response_def fixed_messages_def fixed_labels_def)
next
  case (unlocked buffer pw fs' unlockedPdf)
  then show ?thesis
    by (simp add: trace_POST_finally pdf_response_def)
qed

text \<open>
  C4, as the code has it. The text of a failure response of the route handler is one of
  the handler's seven fixed texts, or, when the tool fails other than with \<open>ENOENT\<close> and
  has written to \<open>stderr\<close>, that output as it is. The handler logs a fixed label with the
  error it caught (of the request, the file system or the tool) and nothing else; and
  whenever the invocation of the tool fails, that error is logged, and its property
  \<open>cmd\<close> is the command line of the tool, which contains the password. A failure of
  \<open>unlockPdfInBrowser\<close> is one of its fixed errors, or the error, as it is, that was
  raised by the file, by an earlier load of the library, by the progress callback, by
  the loading task of the library that was loaded, by a step of a page of the document
  that was opened (\<open>getPage\<close>, the render task, the canvas read-back, \<open>embedPng\<close>), or by
  the serialisation of the pages that were built.
\<close>

theorem failure_messages:
  "(status (fst (attempt en req fs)) \<noteq> 200 \<longrightarrow>
      (\<exists>m. body (fst (attempt en req fs)) = Text m
         \<and> (m \<in> fixed_messages
            \<or> (\<exists>bin args error. EvExec bin args (Some error) \<in> set (trace (snd (attempt en req fs)))
                  \<and> err_code error \<noteq> Some ''ENOENT''
                  \<and> err_stderr error = Some m \<and> m \<noteq> []))))
   \<and> (\<forall>label e. EvLog label e \<in> set (trace (snd (attempt en req fs))) \<longrightarrow>
         label \<in> fixed_labels
         \<and> (req = BadBody e \<or> e = sys_error ''EACCES'' \<or> e = sys_error ''ENOENT''
            \<or> (\<exists>bin args. EvExec bin args (Some e) \<in> set (trace (snd (attempt en req fs))))))
   \<and> (\<forall>bin args e. EvExec bin args (Some e) \<in> set (trace (snd (attempt en req fs))) \<longrightarrow>
         (\<exists>label. EvLog label e \<in> set (trace (snd (attempt en req fs))))
         \<and> (\<exists>buffer pw. req = FormData (FormFile buffer) (FormString pw)
               \<and> args = [''--password='' @ pw, ''--decrypt'', input_path en, output_path en]
               \<and> err_cmd e = Some (command_line bin args)
               \<and> contains pw (command_line bin args)))
   \<and> (fst (unlockPdfInBrowser ben file password sink st) = Inl failure \<longrightarrow>
         failure \<in> fixed_errors
         \<or> file = Inl failure
         \<or> pdfJsLoader (loader st) = Some (Inl failure)
         \<or> (\<exists>p step. sink_exception sink p step = Some failure)
         \<or> (\<exists>arrayBuffer pdfjsLib l1. file = Inr arrayBuffer
               \<and> loadPdfJs (script ben) (loader st) = (Inr pdfjsLib, l1)
               \<and> (await_task (NEED_PASSWORD pdfjsLib) password buildPasswordError
                      (getDocument pdfjsLib arrayBuffer password) = Inl failure
                  \<or> (\<exists>pdfDocument. loadEncryptedPdf pdfjsLib arrayBuffer password = Inr pdfDocument
                        \<and> ((\<exists>j. 1 \<le> j \<and> j \<le> numPages pdfDocument
                                \<and> (getPage pdfDocument j = Inl failure
                                   \<or> (\<exists>page. getPage pdfDocument j = Inr page
                                         \<and> (render page (getViewport page 2) = Some failure
                                            \<or> toDataURL ben j = Inl failure
                                            \<or> (\<exists>imageBytes. toDataURL ben j = Inr imageBytes
                                                  \<and> embedPng ben imageBytes = Some failure)))))
                           \<or> (\<exists>pdfDoc. map Inr pdfDoc
                                          = map (render_page ben pdfDocument)
                                              [1..<Suc (numPages pdfDocument)]
                                        \<and> save ben pdfDoc = Inl failure))))))"
proof -
  note route = route_messages_and_log[of en req fs]
  have browser: "fst (unlockPdfInBrowser ben file password sink st) = Inl failure \<longrightarrow>
         failure \<in> fixed_errors
         \<or> file = Inl failure
         \<or> pdfJsLoader (loader st) = Some (Inl failure)
         \<or> (\<exists>p step. sink_exception sink p step = Some failure)
         \<or> (\<exists>arrayBuffer pdfjsLib l1. file = Inr arrayBuffer
               \<and> loadPdfJs (script ben) (loader st) = (Inr pdfjsLib, l1)
               \<and> (await_task (NEED_PASSWORD pdfjsLib) password buildPasswordError
                      (getDocument pdfjsLib arrayBuffer password) = Inl failure
                  \<or> (\<exists>pdfDocument. loadEncryptedPdf pdfjsLib arrayBuffer password = Inr pdfDocument
                        \<and> ((\<exists>j. 1 \<le> j \<and> j \<le> numPages pdfDocument
                                \<and> (getPage pdfDocument j = Inl failure
                                   \<or> (\<exists>page. getPage pdfDocument j = Inr page
                                         \<and> (render page (getViewport page 2) = Some failure
                                            \<or> toDataURL ben j = Inl failure
                                            \<or> (\<exists>imageBytes. toDataURL ben j = Inr imageBytes
                                                  \<and> embedPng ben imageBytes = Some failure)))))
                           \<or> (\<exists>pdfDoc. map Inr pdfDoc
                                          = map (render_page ben pdfDocument)
                                              [1..<Suc (numPages pdfDocument)]
                                        \<and> save ben pdfDoc = Inl failure)))))"
    using browser_failure_provenance[of ben "file" password sink st failure] by (rule impI)
  from conjunct1[OF route] conjunct1[OF conjunct2[OF route]] conjunct2[OF conjunct2[OF route]]
    browser
  show ?thesis
    by (intro conjI)
qed

lemma run_wrong_password:
  "fst (unlockPdfInBrowser (sample_browser 3) (Inr ''%PDF-locked'') ''guess'' (Some silent)
          sample_state)
     = Inl buildPasswordError"
  by (simp add: unlockPdfInBrowser_def updateProgress_eq sample_state_def sample_load
        loadEncryptedPdf_def sample_lib_def password_exception_def Let_def truthy_def
        buildPasswordError_def mk_error_def)

lemma sample_cmd_eq: "command_line ''qpdf'' sample_args = sample_cmd"
  by (simp add: command_line_def sample_args_def sample_cmd_def)

theorem failure_messages_witness:
  "status (fst (attempt (sample_env qpdf_invalid_password) sample_request Map.empty)) \<noteq> 200
   \<and> EvLog ''Failed to unlock PDF:'' invalid_password_error
        \<in> set (trace (snd (attempt (sample_env qpdf_invalid_password) sample_request Map.empty)))
   \<and> EvExec ''qpdf'' sample_args (Some invalid_password_error)
        \<in> set (trace (snd (attempt (sample_env qpdf_invalid_password) sample_request Map.empty)))
   \<and> fst (unlockPdfInBrowser (sample_browser 3) (Inr ''%PDF-locked'') ''guess'' (Some silent)
            sample_state)
       = Inl buildPasswordError
   \<and> body (fst (attempt (sample_env qpdf_invalid_password) sample_request Map.empty))
       = Text sample_stderr
   \<and> err_code invalid_password_error \<noteq> Some ''ENOENT''
   \<and> err_stderr invalid_password_error = Some sample_stderr
   \<and> ''Failed to unlock PDF:'' \<in> fixed_labels
   \<and> sample_request = FormData (FormFile ''%PDF-locked'') (FormString ''hunter2'')
   \<and> err_cmd invalid_password_error = Some (command_line ''qpdf'' sample_args)
   \<and> contains ''hunter2'' (command_line ''qpdf'' sample_args)
   \<and> buildPasswordError \<in> fixed_errors"
proof -
  have s: "status (fst (attempt (sample_env qpdf_invalid_password) sample_request Map.empty)) \<noteq> 200"
    by (simp add: run_invalid text_response_def)
  have g: "EvLog ''Failed to unlock PDF:'' invalid_password_error
        \<in> set (trace (snd (attempt (sample_env qpdf_invalid_password) sample_request Map.empty)))"
    by (simp add: run_invalid)
  have x: "EvExec ''qpdf'' sample_args (Some invalid_password_error)
        \<in> set (trace (snd (attempt (sample_env qpdf_invalid_password) sample_request Map.empty)))"
    by (simp add: run_invalid)
  have m: "body (fst (attempt (sample_env qpdf_invalid_password) sample_request Map.empty))
             = Text sample_stderr"
    by (simp add: run_invalid text_response_def)
  have f: "buildPasswordError \<in> fixed_errors"
    by (simp add: fixed_errors_def)
  have c: "err_code invalid_password_error \<noteq> Some ''ENOENT''"
    "err_stderr invalid_password_error = Some sample_stderr"
    by (simp_all add: invalid_password_error_def)
  have r: "sample_request = FormData (FormFile ''%PDF-locked'') (FormString ''hunter2'')"
    by (simp add: sample_request_def)
  note inst = failure_messages
         [of "sample_env qpdf_invalid_password" sample_request Map.empty
             "sample_browser 3" "Inr ''%PDF-locked''" "''guess''" "Some silent" sample_state
             buildPasswordError]
  from inst g have lab: "''Failed to unlock PDF:'' \<in> fixed_labels"
    by blast
  from inst x obtain buffer pw where
    p: "sample_request = FormData (FormFile buffer) (FormString pw)"
      "err_cmd invalid_password_error = Some (command_line ''qpdf'' sample_args)"
      "contains pw (command_line ''qpdf'' sample_args)"
    by blast
  from p(1)[unfolded r] have "pw = ''hunter2''" by simp
  with p have k: "err_cmd invalid_password_error = Some (command_line ''qpdf'' sample_args)"
      "contains ''hunter2'' (command_line ''qpdf'' sample_args)"
    by simp_all
  from s g x run_wrong_password m c lab r k f show ?thesis
    by (intro conjI)
qed

text \<open>
  C4, as stated, fails when the tool rejects the password as qpdf does: the response
  text is the tool's output on \<open>stderr\<close>, which contains the path of the temporary input
  file, and the error that is logged carries the command line, which contains the
  password, in its property \<open>cmd\<close> and in its message.
\<close>

theorem tool_failure_leaks_path_and_password_counterexample:
  "status (fst (attempt (sample_env qpdf_invalid_password) sample_request Map.empty)) = 400
   \<and> body (fst (attempt (sample_env qpdf_invalid_password) sample_request Map.empty))
       = Text sample_stderr
   \<and> input_path (sample_env qpdf_invalid_password) = ''/tmp/pdf-input-u1.pdf''
   \<and> contains (input_path (sample_env qpdf_invalid_password)) sample_stderr
   \<and> sample_request = FormData (FormFile ''%PDF-locked'') (FormString ''hunter2'')
   \<and> EvLog ''Failed to unlock PDF:'' invalid_password_error
        \<in> set (trace (snd (attempt (sample_env qpdf_invalid_password) sample_request Map.empty)))
   \<and> err_cmd invalid_password_error = Some sample_cmd
   \<and> contains ''hunter2'' sample_cmd
   \<and> contains ''hunter2'' (or_empty (err_message invalid_password_error))"
proof -
  have "sample_stderr = ''qpdf: '' @ ''/tmp/pdf-input-u1.pdf'' @ '': invalid password'' @ newline"
    by (simp add: sample_stderr_def)
  then have 1: "contains ''/tmp/pdf-input-u1.pdf'' sample_stderr"
    unfolding contains_iff by blast
  have "sample_cmd = ''qpdf --password='' @ ''hunter2''
                       @ '' --decrypt /tmp/pdf-input-u1.pdf /tmp/pdf-output-u2.pdf''"
    by (simp add: sample_cmd_def)
  then have 2: "contains ''hunter2'' sample_cmd"
    unfolding contains_iff by blast
  have "or_empty (err_message invalid_password_error)
          = (''Command failed: '' @ ''qpdf --password='') @ ''hunter2''
               @ ('' --decrypt /tmp/pdf-input-u1.pdf /tmp/pdf-output-u2.pdf'' @ newline
                    @ sample_stderr)"
    by (simp add: invalid_password_error_def or_empty_def sample_cmd_def)
  then have 3: "contains ''hunter2'' (or_empty (err_message invalid_password_error))"
    unfolding contains_iff by blast
  have 4: "err_cmd invalid_password_error = Some sample_cmd"
    by (simp add: invalid_password_error_def)
  have 5: "sample_request = FormData (FormFile ''%PDF-locked'') (FormString ''hunter2'')"
    by (simp add: sample_request_def)
  from 1 2 3 4 5 show ?thesis
    by (simp add: run_invalid sample_paths text_response_def)
qed


lemma route_outcome:
  "filter is_response (trace (snd (attempt en req fs))) = [EvRespond (fst (attempt en req fs))]
   \<and> status (fst (attempt en req fs)) \<in> {200, 400, 500}
   \<and> (status (fst (attempt en req fs)) = 200) = (\<exists>d. body (fst (attempt en req fs)) = Binary d)
   \<and> (status (fst (attempt en req fs)) \<noteq> 200) = (\<exists>m. body (fst (attempt en req fs)) = Text m)
   \<and> (status (fst (attempt en req fs)) = 200 \<longrightarrow>
        (\<exists>buffer pw fs' d. req = FormData (FormFile buffer) (FormString pw)
           \<and> execFile en (QPDF_BINARY_PATH en)
                [''--password='' @ pw, ''--decrypt'', input_path en, output_path en]
                (fs(input_path en \<mapsto> buffer)) = (None, fs')
           \<and> fs' (output_path en) = Some d
           \<and> body (fst (attempt en req fs)) = Binary d))"
proof (cases en req fs rule: attempt_cases)
  case (bad_body e)
  then show ?thesis by (simp add: text_response_def)
next
  case (rejected m)
  then show ?thesis by (simp add: text_response_def)
next
  case (write_failed buffer pw)
  then show ?thesis by (simp add: trace_POST_finally text_response_def)
next
  case (tool_missing buffer pw error fs')
  then show ?thesis by (simp add: trace_POST_finally text_response_def)
next
  case (tool_failed buffer pw error fs')
  then show ?thesis by (simp add: trace_POST_finally text_response_def)
next
  case (read_failed buffer pw fs')
  then show ?thesis by (simp add: trace_POST_finally text_response_def)
next
  case (unlocked buffer pw fs' unlockedPdf)
  then show ?thesis by (simp add: trace_POST_finally pdf_response_def)
qed

lemma page_failure_aborts:
  assumes "loadPdfJs (script ben) (loader st) = (Inr pdfjsLib, l1)"
    and "loadEncryptedPdf pdfjsLib arrayBuffer pw = Inr pdfDocument"
    and "1 \<le> j" "j \<le> numPages pdfDocument" "render_page ben pdfDocument j = Inl e"
  shows "\<exists>e'. fst (unlockPdfInBrowser ben (Inr arrayBuffer) pw sink st) = Inl e'"
proof (cases ben "Inr arrayBuffer :: js_error + bytes" pw sink st rule: unlock_cases)
  case (unlocked arrayBuffer' pdfjsLib' l1' pdfDocument' pdfDoc unlockedBytes)
  then have same: "pdfDocument' = pdfDocument" using assms(1,2) by simp
  from rendered_pages(2)[OF unlocked(5), of j] assms(3,4,5) same
  show ?thesis by simp
qed simp_all

lemma first_page_failure:
  assumes "loadPdfJs (script ben) (loader st) = (Inr pdfjsLib, l1)"
    and "loadEncryptedPdf pdfjsLib arrayBuffer pw = Inr pdfDocument"
    and "1 \<le> j" "j \<le> numPages pdfDocument" "render_page ben pdfDocument j = Inl e"
    and before: "\<forall>i. 1 \<le> i \<and> i < j \<longrightarrow> (\<exists>pg. render_page ben pdfDocument i = Inr pg)"
    and quiet: "\<forall>p step. sink_exception sink p step = None"
  shows "fst (unlockPdfInBrowser ben (Inr arrayBuffer) pw sink st) = Inl e"
proof (cases ben "Inr arrayBuffer :: js_error + bytes" pw sink st rule: unlock_cases)
  case (unreadable e)
  then show ?thesis by simp
next
  case (load_failed arrayBuffer e l1)
  then show ?thesis using assms(1) by simp
next
  case (sink_decrypting arrayBuffer pdfjsLib l1 e)
  then show ?thesis using quiet by simp
next
  case (open_failed arrayBuffer pdfjsLib l1 error)
  then show ?thesis using assms(1,2) by simp
next
  case (sink_page arrayBuffer pdfjsLib l1 pdfDocument j e)
  then show ?thesis using quiet by simp
next
  case (page_failed arrayBuffer' pdfjsLib' l1' pdfDocument' j' e')
  then have same: "pdfDocument' = pdfDocument" using assms(1,2) by simp
  have "\<not> j' < j"
  proof
    assume "j' < j"
    then obtain pg where "render_page ben pdfDocument j' = Inr pg"
      using before page_failed(5) by blast
    then show False using page_failed(7) same by simp
  qed
  moreover have "\<not> j < j'"
  proof
    assume "j < j'"
    then obtain pg where "render_page ben pdfDocument' j = Inr pg"
      using page_failed(8) assms(3) by blast
    then show False using assms(5) same by simp
  qed
  ultimately have "j' = j" by simp
  then have "e' = e" using page_failed(7) assms(5) same by simp
  then show ?thesis using page_failed(10) by simp
next
  case (sink_preparing arrayBuffer pdfjsLib l1 pdfDocument pdfDoc e)
  then show ?thesis using quiet by simp
next
  case (save_failed arrayBuffer' pdfjsLib' l1' pdfDocument' pdfDoc e')
  then have same: "pdfDocument' = pdfDocument" using assms(1,2) by simp
  from rendered_pages(2)[OF save_failed(5), of j] assms(3,4,5) same
  show ?thesis by simp
next
  case (sink_complete arrayBuffer pdfjsLib l1 pdfDocument pdfDoc unlockedBytes e)
  then show ?thesis using quiet by simp
next
  case (unlocked arrayBuffer' pdfjsLib' l1' pdfDocument' pdfDoc unlockedBytes)
  then have same: "pdfDocument' = pdfDocument" using assms(1,2) by simp
  from rendered_pages(2)[OF unlocked(5), of j] assms(3,4,5) same
  show ?thesis by simp
qed

lemma step_exception_aborts:
  assumes "loadPdfJs (script ben) (loader st) = (Inr pdfjsLib, l1)"
    and "loadEncryptedPdf pdfjsLib arrayBuffer pw = Inr pdfDocument"
    and "1 \<le> j" "j \<le> numPages pdfDocument" "getPage pdfDocument j = Inr page"
    and "render page (getViewport page 2) = Some e
         \<or> (toDataURL ben j = Inr imageBytes \<and> embedPng ben imageBytes = Some e)"
  shows "\<exists>e'. fst (unlockPdfInBrowser ben (Inr arrayBuffer) pw sink st) = Inl e'"
    and "(\<forall>i. 1 \<le> i \<and> i < j \<longrightarrow> (\<exists>pg. render_page ben pdfDocument i = Inr pg))
           \<and> getContext ben j
           \<and> (render page (getViewport page 2) = None
              \<or> render page (getViewport page 2) = Some e)
           \<and> (\<forall>p step. sink_exception sink p step = None) \<longrightarrow>
         fst (unlockPdfInBrowser ben (Inr arrayBuffer) pw sink st) = Inl e"
proof -
  from step_fails[OF assms(5,6)] obtain e' where "render_page ben pdfDocument j = Inl e'"
    by blast
  from page_failure_aborts[OF assms(1-4) this]
  show "\<exists>e'. fst (unlockPdfInBrowser ben (Inr arrayBuffer) pw sink st) = Inl e'" .
  show "(\<forall>i. 1 \<le> i \<and> i < j \<longrightarrow> (\<exists>pg. render_page ben pdfDocument i = Inr pg))
           \<and> getContext ben j
           \<and> (render page (getViewport page 2) = None
              \<or> render page (getViewport page 2) = Some e)
           \<and> (\<forall>p step. sink_exception sink p step = None) \<longrightarrow>
         fst (unlockPdfInBrowser ben (Inr arrayBuffer) pw sink st) = Inl e"
  proof (intro impI, elim conjE)
    assume before: "\<forall>i. 1 \<le> i \<and> i < j \<longrightarrow> (\<exists>pg. render_page ben pdfDocument i = Inr pg)"
      and ctx: "getContext ben j"
      and r: "render page (getViewport page 2) = None
              \<or> render page (getViewport page 2) = Some e"
      and quiet: "\<forall>p step. sink_exception sink p step = None"
    have "render_page ben pdfDocument j = Inl e"
    proof (cases "render page (getViewport page 2)")
      case (Some e2)
      then have "e2 = e" using r by simp
      then show ?thesis using render_fails[OF assms(5) ctx] Some by simp
    next
      case None
      then have "toDataURL ben j = Inr imageBytes" "embedPng ben imageBytes = Some e"
        using assms(6) by simp_all
      then show ?thesis using embed_fails[OF assms(5) ctx None] by simp
    qed
    from first_page_failure[OF assms(1-4) this before quiet]
    show "fst (unlockPdfInBrowser ben (Inr arrayBuffer) pw sink st) = Inl e" .
  qed
qed

lemma result_is_complete:
  assumes "fst (unlockPdfInBrowser ben file pw sink st) = Inr result"
  shows "\<exists>arrayBuffer pdfjsLib l1 pdfDocument pdfDoc.
           file = Inr arrayBuffer \<and> loadPdfJs (script ben) (loader st) = (Inr pdfjsLib, l1)
           \<and> loadEncryptedPdf pdfjsLib arrayBuffer pw = Inr pdfDocument
           \<and> length pdfDoc = numPages pdfDocument
           \<and> (\<forall>i. 1 \<le> i \<and> i \<le> numPages pdfDocument \<longrightarrow>
                (\<exists>page imageBytes. getPage pdfDocument i = Inr page \<and> getContext ben i
                   \<and> render page (getViewport page 2) = None
                   \<and> toDataURL ben i = Inr imageBytes \<and> embedPng ben imageBytes = None
                   \<and> pdfDoc ! (i - 1)
                       = \<lparr>page_width = width (getViewport page 2),
                          page_height = height (getViewport page 2),
                          image = imageBytes, image_x = 0, image_y = 0,
                          image_width = width (getViewport page 2),
                          image_height = height (getViewport page 2)\<rparr>))
           \<and> save ben pdfDoc = Inr (blob_parts result)
           \<and> blob_type result = ''application/pdf''"
proof (cases ben "file" pw sink st rule: unlock_cases)
  case (unlocked arrayBuffer pdfjsLib l1 pdfDocument pdfDoc unlockedBytes)
  note pages = rendered_pages[OF unlocked(5)]
  have each: "\<forall>i. 1 \<le> i \<and> i \<le> numPages pdfDocument \<longrightarrow>
                (\<exists>page imageBytes. getPage pdfDocument i = Inr page \<and> getContext ben i
                   \<and> render page (getViewport page 2) = None
                   \<and> toDataURL ben i = Inr imageBytes \<and> embedPng ben imageBytes = None
                   \<and> pdfDoc ! (i - 1)
                       = \<lparr>page_width = width (getViewport page 2),
                          page_height = height (getViewport page 2),
                          image = imageBytes, image_x = 0, image_y = 0,
                          image_width = width (getViewport page 2),
                          image_height = height (getViewport page 2)\<rparr>)"
  proof (intro allI impI)
    fix i assume "1 \<le> i \<and> i \<le> numPages pdfDocument"
    then have "render_page ben pdfDocument i = Inr (pdfDoc ! (i - 1))"
      using pages(2) by blast
    from render_page_Inr[OF this]
    show "\<exists>page imageBytes. getPage pdfDocument i = Inr page \<and> getContext ben i
                   \<and> render page (getViewport page 2) = None
                   \<and> toDataURL ben i = Inr imageBytes \<and> embedPng ben imageBytes = None
                   \<and> pdfDoc ! (i - 1)
                       = \<lparr>page_width = width (getViewport page 2),
                          page_height = height (getViewport page 2),
                          image = imageBytes, image_x = 0, image_y = 0,
                          image_width = width (getViewport page 2),
                          image_height = height (getViewport page 2)\<rparr>" .
  qed
  have "save ben pdfDoc = Inr (blob_parts result)" "blob_type result = ''application/pdf''"
    using assms unlocked(8,10) by auto
  with unlocked(1,2,4) pages(1) each show ?thesis by blast
qed (use assms in simp_all)

text \<open>
  C8. An attempt of the route handler gives exactly one response; its status is 200,
  400 or 500; the body is binary exactly when the status is 200 and then it is the
  whole output file the tool left; otherwise it is a text. In \<open>unlockPdfInBrowser\<close>, if
  the render task of a page of the opened document rejects, or \<open>embedPng\<close> throws for
  the image of a page, the call fails and returns no bytes; if the pages before it were
  built, the page has a canvas context and the callback does not throw, the call fails
  with that very exception (of the render task if that rejects, else of \<open>embedPng\<close>).
  Bytes that are returned are the serialisation of a document that holds, for every page
  of the source, the page built from it, none of whose steps has thrown.
\<close>

theorem exactly_one_outcome:
  "filter is_response (trace (snd (attempt en req fs))) = [EvRespond (fst (attempt en req fs))]
   \<and> status (fst (attempt en req fs)) \<in> {200, 400, 500}
   \<and> (status (fst (attempt en req fs)) = 200) = (\<exists>d. body (fst (attempt en req fs)) = Binary d)
   \<and> (status (fst (attempt en req fs)) \<noteq> 200) = (\<exists>m. body (fst (attempt en req fs)) = Text m)
   \<and> (status (fst (attempt en req fs)) = 200 \<longrightarrow>
        (\<exists>buffer pw fs' d. req = FormData (FormFile buffer) (FormString pw)
           \<and> execFile en (QPDF_BINARY_PATH en)
                [''--password='' @ pw, ''--decrypt'', input_path en, output_path en]
                (fs(input_path en \<mapsto> buffer)) = (None, fs')
           \<and> fs' (output_path en) = Some d
           \<and> body (fst (attempt en req fs)) = Binary d))
   \<and> (loadPdfJs (script ben) (loader st) = (Inr pdfjsLib, l1)
        \<and> loadEncryptedPdf pdfjsLib arrayBuffer password = Inr pdfDocument
        \<and> 1 \<le> j \<and> j \<le> numPages pdfDocument \<and> getPage pdfDocument j = Inr page
        \<and> (render page (getViewport page 2) = Some e
           \<or> (toDataURL ben j = Inr imageBytes \<and> embedPng ben imageBytes = Some e)) \<longrightarrow>
        (\<exists>e'. fst (unlockPdfInBrowser ben (Inr arrayBuffer) password sink st) = Inl e')
        \<and> ((\<forall>i. 1 \<le> i \<and> i < j \<longrightarrow> (\<exists>pg. render_page ben pdfDocument i = Inr pg))
             \<and> getContext ben j
             \<and> (render page (getViewport page 2) = None
                \<or> render page (getViewport page 2) = Some e)
             \<and> (\<forall>p step. sink_exception sink p step = None) \<longrightarrow>
             fst (unlockPdfInBrowser ben (Inr arrayBuffer) password sink st) = Inl e))
   \<and> (fst (unlockPdfInBrowser ben' file' password' sink' st') = Inr result \<longrightarrow>
        (\<exists>arrayBuffer pdfjsLib l1 pdfDocument pdfDoc.
           file' = Inr arrayBuffer \<and> loadPdfJs (script ben') (loader st') = (Inr pdfjsLib, l1)
           \<and> loadEncryptedPdf pdfjsLib arrayBuffer password' = Inr pdfDocument
           \<and> length pdfDoc = numPages pdfDocument
           \<and> (\<forall>i. 1 \<le> i \<and> i \<le> numPages pdfDocument \<longrightarrow>
                (\<exists>page imageBytes. getPage pdfDocument i = Inr page \<and> getContext ben' i
                   \<and> render page (getViewport page 2) = None
                   \<and> toDataURL ben' i = Inr imageBytes \<and> embedPng ben' imageBytes = None
                   \<and> pdfDoc ! (i - 1)
                       = \<lparr>page_width = width (getViewport page 2),
                          page_height = height (getViewport page 2),
                          image = imageBytes, image_x = 0, image_y = 0,
                          image_width = width (getViewport page 2),
                          image_height = height (getViewport page 2)\<rparr>))
           \<and> save ben' pdfDoc = Inr (blob_parts result)
           \<and> blob_type result = ''application/pdf''))"
proof -
  have page: "loadPdfJs (script ben) (loader st) = (Inr pdfjsLib, l1)
        \<and> loadEncryptedPdf pdfjsLib arrayBuffer password = Inr pdfDocument
        \<and> 1 \<le> j \<and> j \<le> numPages pdfDocument \<and> getPage pdfDocument j = Inr page
        \<and> (render page (getViewport page 2) = Some e
           \<or> (toDataURL ben j = Inr imageBytes \<and> embedPng ben imageBytes = Some e)) \<longrightarrow>
        (\<exists>e'. fst (unlockPdfInBrowser ben (Inr arrayBuffer) password sink st) = Inl e')
        \<and> ((\<forall>i. 1 \<le> i \<and> i < j \<longrightarrow> (\<exists>pg. render_page ben pdfDocument i = Inr pg))
             \<and> getContext ben j
             \<and> (render page (getViewport page 2) = None
                \<or> render page (getViewport page 2) = Some e)
             \<and> (\<forall>p step. sink_exception sink p step = None) \<longrightarrow>
             fst (unlockPdfInBrowser ben (Inr arrayBuffer) password sink st) = Inl e)"
  proof (intro impI, elim conjE)
    assume a: "loadPdfJs (script ben) (loader st) = (Inr pdfjsLib, l1)"
      "loadEncryptedPdf pdfjsLib arrayBuffer password = Inr pdfDocument"
      "1 \<le> j" "j \<le> numPages pdfDocument" "getPage pdfDocument j = Inr page"
      "render page (getViewport page 2) = Some e
           \<or> (toDataURL ben j = Inr imageBytes \<and> embedPng ben imageBytes = Some e)"
    from step_exception_aborts[OF a, of sink]
    show "(\<exists>e'. fst (unlockPdfInBrowser ben (Inr arrayBuffer) password sink st) = Inl e')
        \<and> ((\<forall>i. 1 \<le> i \<and> i < j \<longrightarrow> (\<exists>pg. render_page ben pdfDocument i = Inr pg))
             \<and> getContext ben j
             \<and> (render page (getViewport page 2) = None
                \<or> render page (getViewport page 2) = Some e)
             \<and> (\<forall>p step. sink_exception sink p step = None) \<longrightarrow>
             fst (unlockPdfInBrowser ben (Inr arrayBuffer) password sink st) = Inl e)"
      by (intro conjI)
  qed
  have complete: "fst (unlockPdfInBrowser ben' file' password' sink' st') = Inr result \<longrightarrow>
        (\<exists>arrayBuffer pdfjsLib l1 pdfDocument pdfDoc.
           file' = Inr arrayBuffer \<and> loadPdfJs (script ben') (loader st') = (Inr pdfjsLib, l1)
           \<and> loadEncryptedPdf pdfjsLib arrayBuffer password' = Inr pdfDocument
           \<and> length pdfDoc = numPages pdfDocument
           \<and> (\<forall>i. 1 \<le> i \<and> i \<le> numPages pdfDocument \<longrightarrow>
                (\<exists>page imageBytes. getPage pdfDocument i = Inr page \<and> getContext ben' i
                   \<and> render page (getViewport page 2) = None
                   \<and> toDataURL ben' i = Inr imageBytes \<and> embedPng ben' imageBytes = None
                   \<and> pdfDoc ! (i - 1)
                       = \<lparr>page_width = width (getViewport page 2),
                          page_height = height (getViewport page 2),
                          image = imageBytes, image_x = 0, image_y = 0,
                          image_width = width (getViewport page 2),
                          image_height = height (getViewport page 2)\<rparr>))
           \<and> save ben' pdfDoc = Inr (blob_parts result)
           \<and> blob_type result = ''application/pdf'')"
    using result_is_complete[of ben' file' password' sink' st' result] by (rule impI)
  note route = route_outcome[of en req fs]
  from conjunct1[OF route] conjunct1[OF conjunct2[OF route]]
    conjunct1[OF conjunct2[OF conjunct2[OF route]]]
    conjunct1[OF conjunct2[OF conjunct2[OF conjunct2[OF route]]]]
    conjunct2[OF conjunct2[OF conjunct2[OF conjunct2[OF route]]]]
    page complete
  show ?thesis
    by (intro conjI)
qed

lemma faulty_load:
  "loadPdfJs (script (faulty_browser 3 2)) (loader sample_state)
     = (Inr ((faulty_lib 3 2)\<lparr>workerSrc := Some worker_url\<rparr>),
        snd (loadPdfJs (script (sample_browser 3)) sample_loader)
          \<lparr>window_pdfjsLib := Some ((faulty_lib 3 2)\<lparr>workerSrc := Some worker_url\<rparr>),
           pdfJsLoader := Some (Inr ((faulty_lib 3 2)\<lparr>workerSrc := Some worker_url\<rparr>))\<rparr>)"
  by (simp add: loadPdfJs_def faulty_browser_def sample_browser_def sample_state_def
        sample_loader_def Let_def)

lemma faulty_open:
  "loadEncryptedPdf ((faulty_lib 3 2)\<lparr>workerSrc := Some worker_url\<rparr>) ''%PDF-locked'' ''hunter2''
     = Inr (faulty_document 3 2)"
  by (simp add: loadEncryptedPdf_def faulty_lib_def Let_def)

theorem exactly_one_outcome_witness:
  "status (fst (attempt (sample_env qpdf_decrypts) sample_request Map.empty)) = 200
   \<and> body (fst (attempt (sample_env qpdf_decrypts) sample_request Map.empty)) = Binary ''%PDF-plain''
   \<and> loadEncryptedPdf ((faulty_lib 3 2)\<lparr>workerSrc := Some worker_url\<rparr>) ''%PDF-locked'' ''hunter2''
       = Inr (faulty_document 3 2)
   \<and> getPage (faulty_document 3 2) 2
       = Inr (sample_page\<lparr>render := (\<lambda>viewport. Some render_error)\<rparr>)
   \<and> render (sample_page\<lparr>render := (\<lambda>viewport. Some render_error)\<rparr>)
        (getViewport (sample_page\<lparr>render := (\<lambda>viewport. Some render_error)\<rparr>) 2)
       = Some render_error
   \<and> (\<exists>pg. render_page (faulty_browser 3 2) (faulty_document 3 2) 1 = Inr pg)
   \<and> getContext (faulty_browser 3 2) 2
   \<and> (\<forall>p step. sink_exception (Some silent) p step = None)
   \<and> fst (unlockPdfInBrowser (faulty_browser 3 2) (Inr ''%PDF-locked'') ''hunter2'' (Some silent)
            sample_state) = Inl render_error
   \<and> loadEncryptedPdf ((sample_lib 3)\<lparr>workerSrc := Some worker_url\<rparr>) ''%PDF-locked'' ''hunter2''
       = Inr (sample_document 3)
   \<and> getPage (sample_document 3) 2 = Inr sample_page
   \<and> render sample_page (getViewport sample_page 2) = None
   \<and> toDataURL (bad_png_browser 3 2) 2 = Inr ''PNG2''
   \<and> embedPng (bad_png_browser 3 2) ''PNG2'' = Some embed_error
   \<and> (\<exists>pg. render_page (bad_png_browser 3 2) (sample_document 3) 1 = Inr pg)
   \<and> fst (unlockPdfInBrowser (bad_png_browser 3 2) (Inr ''%PDF-locked'') ''hunter2'' (Some silent)
            sample_state) = Inl embed_error
   \<and> fst (unlockPdfInBrowser (sample_browser 3) (Inr ''%PDF-locked'') ''hunter2'' (Some silent)
            sample_state)
       = Inr \<lparr>blob_parts = ''%PDF-pages-3'', blob_type = ''application/pdf''\<rparr>
   \<and> (\<exists>pdfDoc. length pdfDoc = 3 \<and> save (sample_browser 3) pdfDoc = Inr ''%PDF-pages-3'')"
proof -
  have s: "status (fst (attempt (sample_env qpdf_decrypts) sample_request Map.empty)) = 200"
    "body (fst (attempt (sample_env qpdf_decrypts) sample_request Map.empty)) = Binary ''%PDF-plain''"
    by (simp_all add: run_decrypts pdf_response_def)
  have quiet: "\<forall>p step. sink_exception (Some silent) p step = None"
    by simp
  have n: "(1::nat) \<le> 2" "2 \<le> numPages (faulty_document 3 2)" "2 \<le> numPages (sample_document 3)"
    by (simp_all add: numPages_sample faulty_document_def)
  have one: "\<forall>i. 1 \<le> i \<and> i < 2 \<longrightarrow> i = (1::nat)"
    by auto
  have fp: "getPage (faulty_document 3 2) 2
       = Inr (sample_page\<lparr>render := (\<lambda>viewport. Some render_error)\<rparr>)"
    by (simp add: faulty_document_def)
  have fr: "render (sample_page\<lparr>render := (\<lambda>viewport. Some render_error)\<rparr>)
        (getViewport (sample_page\<lparr>render := (\<lambda>viewport. Some render_error)\<rparr>) 2)
       = Some render_error"
    by simp
  have f1: "\<exists>pg. render_page (faulty_browser 3 2) (faulty_document 3 2) 1 = Inr pg"
    by (simp add: render_page_def faulty_browser_def sample_browser_def faulty_document_def
          sample_page_def Let_def)
  have fb: "\<forall>i. 1 \<le> i \<and> i < 2 \<longrightarrow>
              (\<exists>pg. render_page (faulty_browser 3 2) (faulty_document 3 2) i = Inr pg)"
    using f1 one by blast
  have fc: "getContext (faulty_browser 3 2) 2"
    by (simp add: faulty_browser_def sample_browser_def)
  from exactly_one_outcome
         [where ben = "faulty_browser 3 2" and st = sample_state
             and pdfjsLib = "(faulty_lib 3 2)\<lparr>workerSrc := Some worker_url\<rparr>"
             and arrayBuffer = "''%PDF-locked''" and password = "''hunter2''"
             and pdfDocument = "faulty_document 3 2" and j = 2
             and page = "sample_page\<lparr>render := (\<lambda>viewport. Some render_error)\<rparr>"
             and e = render_error and sink = "Some silent"]
    faulty_load faulty_open n(1,2) fp fr fb fc quiet
  have r1: "fst (unlockPdfInBrowser (faulty_browser 3 2) (Inr ''%PDF-locked'') ''hunter2''
                   (Some silent) sample_state) = Inl render_error"
    by blast
  have bl: "loadPdfJs (script (bad_png_browser 3 2)) (loader sample_state)
       = (Inr ((sample_lib 3)\<lparr>workerSrc := Some worker_url\<rparr>),
          snd (loadPdfJs (script (sample_browser 3)) sample_loader))"
    using sample_load[of 3]
    by (simp add: bad_png_browser_def sample_state_def)
  have bo: "loadEncryptedPdf ((sample_lib 3)\<lparr>workerSrc := Some worker_url\<rparr>) ''%PDF-locked'' ''hunter2''
       = Inr (sample_document 3)"
    by (simp add: sample_open)
  have bp: "getPage (sample_document 3) 2 = Inr sample_page"
    by (simp add: sample_document_def)
  have br: "render sample_page (getViewport sample_page 2) = None"
    by (simp add: sample_page_def)
  have bt: "toDataURL (bad_png_browser 3 2) 2 = Inr ''PNG2''"
    by (simp add: bad_png_browser_def sample_browser_def toString_digit digit_char_def)
  have be: "embedPng (bad_png_browser 3 2) ''PNG2'' = Some embed_error"
    by (simp add: bad_png_browser_def toString_digit digit_char_def)
  have b1: "\<exists>pg. render_page (bad_png_browser 3 2) (sample_document 3) 1 = Inr pg"
    by (simp add: render_page_def bad_png_browser_def sample_browser_def sample_document_def
          sample_page_def toString_digit digit_char_def Let_def)
  have bb: "\<forall>i. 1 \<le> i \<and> i < 2 \<longrightarrow>
              (\<exists>pg. render_page (bad_png_browser 3 2) (sample_document 3) i = Inr pg)"
    using b1 one by blast
  have bc: "getContext (bad_png_browser 3 2) 2"
    by (simp add: bad_png_browser_def sample_browser_def)
  from exactly_one_outcome
         [where ben = "bad_png_browser 3 2" and st = sample_state
             and pdfjsLib = "(sample_lib 3)\<lparr>workerSrc := Some worker_url\<rparr>"
             and arrayBuffer = "''%PDF-locked''" and password = "''hunter2''"
             and pdfDocument = "sample_document 3" and j = 2
             and page = sample_page and e = embed_error and imageBytes = "''PNG2''"
             and sink = "Some silent"]
    bl bo n(1,3) bp br bt be bb bc quiet
  have r2: "fst (unlockPdfInBrowser (bad_png_browser 3 2) (Inr ''%PDF-locked'') ''hunter2''
                   (Some silent) sample_state) = Inl embed_error"
    by blast
  have u: "fst (unlockPdfInBrowser (sample_browser 3) (Inr ''%PDF-locked'') ''hunter2'' (Some silent)
                  sample_state)
       = Inr \<lparr>blob_parts = ''%PDF-pages-3'', blob_type = ''application/pdf''\<rparr>"
    by (simp add: sample_unlock_silent toString_digit digit_char_def)
  note complete = exactly_one_outcome
         [where en = "sample_env qpdf_decrypts" and req = sample_request and fs = Map.empty
             and ben = "faulty_browser 3 2" and st = sample_state
             and pdfjsLib = "(faulty_lib 3 2)\<lparr>workerSrc := Some worker_url\<rparr>"
             and ?l1.0 = sample_loader
             and arrayBuffer = "''%PDF-locked''" and password = "''hunter2''"
             and pdfDocument = "faulty_document 3 2" and j = 2
             and page = "sample_page\<lparr>render := (\<lambda>viewport. Some render_error)\<rparr>"
             and e = render_error and imageBytes = "[]" and sink = "Some silent"
             and ben' = "sample_browser 3" and file' = "Inr ''%PDF-locked''"
             and password' = "''hunter2''" and sink' = "Some silent" and st' = sample_state
             and result = "\<lparr>blob_parts = ''%PDF-pages-3'', blob_type = ''application/pdf''\<rparr>",
          THEN conjunct2, THEN conjunct2, THEN conjunct2, THEN conjunct2, THEN conjunct2,
          THEN conjunct2]
  from mp[OF complete u]
  obtain arrayBuffer pdfjsLib l1 pdfDocument pdfDoc where
    c: "Inr ''%PDF-locked'' = (Inr arrayBuffer :: js_error + bytes)"
       "loadPdfJs (script (sample_browser 3)) (loader sample_state) = (Inr pdfjsLib, l1)"
       "loadEncryptedPdf pdfjsLib arrayBuffer ''hunter2'' = Inr pdfDocument"
       "length pdfDoc = numPages pdfDocument"
       "save (sample_browser 3) pdfDoc = Inr ''%PDF-pages-3''"
    by (elim exE conjE) simp
  from c(1-3) have "pdfDocument = sample_document 3"
    by (auto simp: sample_state_def sample_load sample_open)
  with c(4,5) have r3: "\<exists>pdfDoc. length pdfDoc = 3 \<and> save (sample_browser 3) pdfDoc = Inr ''%PDF-pages-3''"
    by (auto simp: numPages_sample)
  from s faulty_open fp fr f1 fc quiet r1 bo bp br bt be b1 r2 u r3 show ?thesis
    by (intro conjI)
qed

end
